theory Spec2Isabelle
  imports Complex_Main "HOL-Library.Word"
begin

section \<open>Errors\<close>

text \<open>
  The C++ of \<^verbatim>\<open>NumpyArray.cpp\<close> leaves an operation in three ways: it throws
  \<^verbatim>\<open>std::invalid_argument\<close>, it throws \<^verbatim>\<open>std::runtime_error\<close>, or it hands a
  \<^verbatim>\<open>failure(str, identity, attempt)\<close> to \<^verbatim>\<open>util::handle_error\<close>. Each is a value
  here. The message keeps the literal text of the source; interpolated numbers and
  format strings are left out. Reading a \<^verbatim>\<open>std::vector\<close> beyond its size is undefined
  in C++; the model makes it the failure \<open>vector_out_of_range\<close>, so that no theorem
  rests on a value read there. Two more undefined operations end a call of the compiled
  code and are failures as well: reading a \<^verbatim>\<open>struct Error\<close> that was declared without
  an initializer and never assigned (\<open>uninitialized_read\<close>), and an integer division
  that traps (\<open>integer_division_trap\<close>).
\<close>

datatype exn =
    invalid_argument string
  | runtime_error string
  | handled_error string
  | vector_out_of_range
  | uninitialized_read
  | integer_division_trap

text \<open>
  Modelled from the spec: \<^verbatim>\<open>util::handle_error\<close> is defined in \<^verbatim>\<open>util.cpp\<close>, which
  is not among the sources. Section 7 of the specification: every error is immediate and
  aborts the algorithm in progress. An \<^verbatim>\<open>Error\<close> whose \<^verbatim>\<open>str\<close> is null
  (\<^verbatim>\<open>success()\<close> in \<^verbatim>\<open>common.h\<close>) is \<open>None\<close> and passes.
\<close>

definition handle_error :: "string option \<Rightarrow> exn + unit" where
  "handle_error err = (case err of None \<Rightarrow> Inr () | Some str \<Rightarrow> Inl (handled_error str))"

definition failure :: "string \<Rightarrow> string option" where
  "failure str = Some str"

definition kMaxInt64 :: int where
  "kMaxInt64 = 9223372036854775806"

definition kSliceNone :: int where
  "kSliceNone = kMaxInt64 + 1"

section \<open>Machine integers\<close>

text \<open>
  \<^verbatim>\<open>ssize_t\<close> and \<^verbatim>\<open>int64_t\<close> are signed 64-bit integers. Their values are
  \<open>int\<close>s here. Where a sum, a product or an absolute value can leave the 64-bit range
  the result of the machine is written out: \<open>wrap64\<close> is the two's-complement value
  that the arithmetic of the compiled code yields (the overflow itself is undefined in
  C++). The division \<^verbatim>\<open>/\<close> and the remainder \<^verbatim>\<open>%\<close> truncate towards zero; they
  trap on a zero divisor and on \<open>- 2 ^ 63\<close> divided by \<open>- 1\<close>.
\<close>

definition wrap64 :: "int \<Rightarrow> int" where
  "wrap64 x = (x + 2 ^ 63) mod 2 ^ 64 - 2 ^ 63"

definition int64_abs :: "int \<Rightarrow> int" where
  "int64_abs x = wrap64 \<bar>x\<bar>"

definition int64_div :: "int \<Rightarrow> int \<Rightarrow> exn + int" where
  "int64_div a b =
     (if b = 0 \<or> (a = - (2 ^ 63) \<and> b = - 1) then Inl integer_division_trap
      else Inr (sgn a * sgn b * (\<bar>a\<bar> div \<bar>b\<bar>)))"

definition int64_mod :: "int \<Rightarrow> int \<Rightarrow> exn + int" where
  "int64_mod a b =
     (if b = 0 \<or> (a = - (2 ^ 63) \<and> b = - 1) then Inl integer_division_trap
      else Inr (a - b * (sgn a * sgn b * (\<bar>a\<bar> div \<bar>b\<bar>))))"

section \<open>Element types\<close>

text \<open>
  Modelled from the spec: the enumeration \<^verbatim>\<open>util::dtype\<close> and the helpers
  \<^verbatim>\<open>util::is_signed\<close>, \<^verbatim>\<open>util::is_complex\<close>, \<^verbatim>\<open>util::dtype_to_itemsize\<close> and
  \<^verbatim>\<open>util::dtype_to_format\<close> are declared in \<^verbatim>\<open>util.h\<close>, which is not among the
  sources. The enumerators are the ones \<^verbatim>\<open>NumpyArray.cpp\<close> names; the widths are the
  ones their names give (section 4.4 of the specification: 8 to 64 bit integers, 16 to
  128 bit floats, 64 to 256 bit complex numbers).
\<close>

datatype dtype =
    NOT_PRIMITIVE
  | boolean
  | int8 | int16 | int32 | int64
  | uint8 | uint16 | uint32 | uint64
  | float16 | float32 | float64 | float128
  | complex64 | complex128 | complex256

fun is_signed :: "dtype \<Rightarrow> bool" where
  "is_signed int8 = True"
| "is_signed int16 = True"
| "is_signed int32 = True"
| "is_signed int64 = True"
| "is_signed _ = False"

fun is_complex :: "dtype \<Rightarrow> bool" where
  "is_complex complex64 = True"
| "is_complex complex128 = True"
| "is_complex complex256 = True"
| "is_complex _ = False"

fun dtype_to_itemsize :: "dtype \<Rightarrow> int" where
  "dtype_to_itemsize NOT_PRIMITIVE = 0"
| "dtype_to_itemsize boolean = 1"
| "dtype_to_itemsize int8 = 1"
| "dtype_to_itemsize int16 = 2"
| "dtype_to_itemsize int32 = 4"
| "dtype_to_itemsize int64 = 8"
| "dtype_to_itemsize uint8 = 1"
| "dtype_to_itemsize uint16 = 2"
| "dtype_to_itemsize uint32 = 4"
| "dtype_to_itemsize uint64 = 8"
| "dtype_to_itemsize float16 = 2"
| "dtype_to_itemsize float32 = 4"
| "dtype_to_itemsize float64 = 8"
| "dtype_to_itemsize float128 = 16"
| "dtype_to_itemsize complex64 = 8"
| "dtype_to_itemsize complex128 = 16"
| "dtype_to_itemsize complex256 = 32"

fun dtype_to_format :: "dtype \<Rightarrow> string" where
  "dtype_to_format NOT_PRIMITIVE = ''''"
| "dtype_to_format boolean = ''?''"
| "dtype_to_format int8 = ''b''"
| "dtype_to_format int16 = ''h''"
| "dtype_to_format int32 = ''i''"
| "dtype_to_format int64 = ''l''"
| "dtype_to_format uint8 = ''B''"
| "dtype_to_format uint16 = ''H''"
| "dtype_to_format uint32 = ''I''"
| "dtype_to_format uint64 = ''L''"
| "dtype_to_format float16 = ''e''"
| "dtype_to_format float32 = ''f''"
| "dtype_to_format float64 = ''d''"
| "dtype_to_format float128 = ''g''"
| "dtype_to_format complex64 = ''Zf''"
| "dtype_to_format complex128 = ''Zd''"
| "dtype_to_format complex256 = ''Zg''"

section \<open>The leaf array\<close>

text \<open>
  A buffer is immutable once created (section 3 of the specification), so a view carries
  the contents of its buffer: \<open>ptr v a\<close> is the byte at address \<open>a\<close> of the buffer,
  counted from its start. An integer of the source (\<^verbatim>\<open>ssize_t\<close>, \<^verbatim>\<open>int64_t\<close>) is an
  \<open>int\<close>. The sums and products of shapes, strides and offsets of a view that a
  buffer can back stay far from \<open>2 ^ 63\<close> and are exact; the arithmetic on the bounds
  and the step of a range, which a caller chooses freely, is the 64-bit one of the
  section above.

  Modelled from the spec: \<^verbatim>\<open>Identities\<close> (the optional per-element provenance index
  array, one entry per element of the leading dimension) and \<^verbatim>\<open>util::Parameters\<close>
  (the mapping of string to json-like value) are declared outside the sources. Identities
  are the list of their entries; parameters are an association list, a missing key
  reading as \<^verbatim>\<open>null\<close>, values compared as text.
\<close>

type_synonym buffer = "int \<Rightarrow> 8 word"
type_synonym Identities = "int list"
type_synonym Parameters = "(string \<times> string) list"

datatype Lib = cpu_kernels | cuda_kernels

record NumpyArray =
  identities :: "Identities option"
  parameters :: Parameters
  ptr :: buffer
  shape :: "int list"
  strides :: "int list"
  byteoffset :: int
  itemsize :: int
  format :: string
  dtype :: dtype
  ptr_lib :: Lib

definition parameter_equals :: "Parameters \<Rightarrow> string \<Rightarrow> string \<Rightarrow> bool" where
  "parameter_equals ps k w =
     ((case map_of ps k of None \<Rightarrow> ''null'' | Some u \<Rightarrow> u) = w)"

definition parameters_equal :: "Parameters \<Rightarrow> Parameters \<Rightarrow> bool" where
  "parameters_equal ps qs =
     (list_all (\<lambda>(k, w). parameter_equals qs k w) ps \<and>
      list_all (\<lambda>(k, w). parameter_equals ps k w) qs)"

definition Identities_getitem_range_nowrap :: "Identities \<Rightarrow> int \<Rightarrow> int \<Rightarrow> Identities" where
  "Identities_getitem_range_nowrap ids start stop =
     take (nat (stop - start)) (drop (nat start) ids)"

text \<open>The constructor, lines 258 to 283: its only check compares the two lengths.\<close>

definition NumpyArray_new ::
  "Identities option \<Rightarrow> Parameters \<Rightarrow> buffer \<Rightarrow> int list \<Rightarrow> int list \<Rightarrow> int \<Rightarrow> int \<Rightarrow>
   string \<Rightarrow> dtype \<Rightarrow> Lib \<Rightarrow> exn + NumpyArray" where
  "NumpyArray_new ids ps p sh st off isz fmt dt lib =
     (if length sh \<noteq> length st
      then Inl (invalid_argument ''len(shape) must be equal to len(strides)'')
      else Inr \<lparr>identities = ids, parameters = ps, ptr = p, shape = sh, strides = st,
                byteoffset = off, itemsize = isz, format = fmt, dtype = dt,
                ptr_lib = lib\<rparr>)"

definition ndim :: "NumpyArray \<Rightarrow> int" where
  "ndim v = int (length (shape v))"

definition isscalar :: "NumpyArray \<Rightarrow> bool" where
  "isscalar v = (ndim v = 0)"

fun isempty_loop :: "int list \<Rightarrow> bool" where
  "isempty_loop [] = False"
| "isempty_loop (x # xs) = (if x = 0 then True else isempty_loop xs)"

definition isempty :: "NumpyArray \<Rightarrow> bool" where
  "isempty v = isempty_loop (shape v)"

definition length_np :: "NumpyArray \<Rightarrow> int" where
  "length_np v = (if isscalar v then - 1 else hd (shape v))"

text \<open>
  \<^verbatim>\<open>iscontiguous\<close>, lines 3723 to 3731. The loop runs \<open>i\<close> from \<open>ndim - 1\<close> down to
  \<open>0\<close>; \<open>iscontiguous_loop v (Suc i) x\<close> is the loop about to run its body at \<open>i\<close>
  with the running product \<open>x\<close>.
\<close>

fun iscontiguous_loop :: "NumpyArray \<Rightarrow> nat \<Rightarrow> int \<Rightarrow> bool" where
  "iscontiguous_loop v 0 x = True"
| "iscontiguous_loop v (Suc i) x =
     (if x \<noteq> strides v ! i then False else iscontiguous_loop v i (x * shape v ! i))"

definition iscontiguous :: "NumpyArray \<Rightarrow> bool" where
  "iscontiguous v = iscontiguous_loop v (nat (ndim v)) (itemsize v)"

definition shallow_copy :: "NumpyArray \<Rightarrow> exn + NumpyArray" where
  "shallow_copy v =
     NumpyArray_new (identities v) (parameters v) (ptr v) (shape v) (strides v)
       (byteoffset v) (itemsize v) (format v) (dtype v) cpu_kernels"

section \<open>Single-element access\<close>

text \<open>\<^verbatim>\<open>getitem_at_nowrap\<close>, lines 1033 to 1057, and \<^verbatim>\<open>getitem_at\<close>, lines 1018 to 1031.\<close>

definition getitem_at_nowrap :: "NumpyArray \<Rightarrow> int \<Rightarrow> exn + NumpyArray" where
  "getitem_at_nowrap v ati =
     (case (shape v, strides v) of
        (_ # shape', stride0 # strides') \<Rightarrow>
          (case (case identities v of
                   None \<Rightarrow> Inr None
                 | Some ids \<Rightarrow>
                     if ati \<ge> int (length ids)
                     then Inl (handled_error ''index out of range'')
                     else Inr (Some (Identities_getitem_range_nowrap ids ati (ati + 1)))) of
             Inl e \<Rightarrow> Inl e
           | Inr ids' \<Rightarrow>
               NumpyArray_new ids' (parameters v) (ptr v) shape' strides'
                 (byteoffset v + stride0 * ati) (itemsize v) (format v) (dtype v) cpu_kernels)
      | _ \<Rightarrow> Inl vector_out_of_range)"

definition getitem_at :: "NumpyArray \<Rightarrow> int \<Rightarrow> exn + NumpyArray" where
  "getitem_at v ati =
     (case shape v of
        [] \<Rightarrow> Inl vector_out_of_range
      | shape0 # _ \<Rightarrow>
          (let regular_at = (if ati < 0 then ati + shape0 else ati) in
           if regular_at < 0 \<or> regular_at \<ge> shape0
           then (case handle_error (failure ''index out of range'') of
                   Inl e \<Rightarrow> Inl e
                 | Inr _ \<Rightarrow> getitem_at_nowrap v regular_at)
           else getitem_at_nowrap v regular_at))"

text \<open>
  Reading through a view: \<^verbatim>\<open>getbyte\<close>, lines 422 to 425, reads the byte at
  \<^verbatim>\<open>ptr + byteoffset + at\<close>. An element of a view is reached by one \<^verbatim>\<open>getitem_at\<close>
  for each dimension; its bytes are the \<open>itemsize\<close> bytes of the scalar view that is left.
  \<open>element_at\<close> and \<open>read_element\<close> compose these two functions of the source; they
  state what reading an element through a view is.
\<close>

definition getbyte :: "NumpyArray \<Rightarrow> int \<Rightarrow> 8 word" where
  "getbyte v ati = ptr v (byteoffset v + ati)"

fun element_at :: "NumpyArray \<Rightarrow> int list \<Rightarrow> exn + NumpyArray" where
  "element_at v [] = Inr v"
| "element_at v (i # idx) =
     (case getitem_at v i of Inl e \<Rightarrow> Inl e | Inr w \<Rightarrow> element_at w idx)"

definition read_element :: "NumpyArray \<Rightarrow> int list \<Rightarrow> exn + 8 word list" where
  "read_element v idx =
     (case element_at v idx of
        Inl e \<Rightarrow> Inl e
      | Inr s \<Rightarrow> Inr (map (\<lambda>k. getbyte s (int k)) [0..<nat (itemsize s)]))"

section \<open>Contiguity\<close>

text \<open>\<^verbatim>\<open>flatten_shape\<close> and \<^verbatim>\<open>flatten_strides\<close>, lines 1374 to 1394.\<close>

fun flatten_shape :: "int list \<Rightarrow> exn + int list" where
  "flatten_shape [] = Inl vector_out_of_range"
| "flatten_shape [x] = Inr []"
| "flatten_shape (x # y # rest) = Inr (x * y # rest)"

fun flatten_strides :: "int list \<Rightarrow> exn + int list" where
  "flatten_strides [] = Inl vector_out_of_range"
| "flatten_strides [x] = Inr []"
| "flatten_strides (x # rest) = Inr rest"

text \<open>
  Modelled from the spec: the kernels \<^verbatim>\<open>kernel::ptr_alloc\<close>,
  \<^verbatim>\<open>kernel::NumpyArray_contiguous_init_64\<close>, \<^verbatim>\<open>kernel::NumpyArray_contiguous_next_64\<close>,
  \<^verbatim>\<open>kernel::NumpyArray_contiguous_copy_64\<close> and
  \<^verbatim>\<open>kernel::NumpyArray_getitem_next_null_64\<close> are not among the sources. Section 4.1 of the
  specification: the normalization computes, dimension by dimension from outermost to
  innermost, a byte-position map and invokes a backend gather/copy. The map starts as
  the byte position of each row of the leading dimension; one more dimension replaces each
  position by the positions of the rows below it; the copy moves, for each position, one
  packed row of \<open>stride\<close> bytes into the new buffer. Section 4.2: a carry describes, for
  each output position, which source element it reads. These kernels return
  \<^verbatim>\<open>success()\<close> always, so the \<^verbatim>\<open>handle_error\<close> after each of them passes.
  An \<^verbatim>\<open>Index64\<close> is the list of its entries. A fresh allocation reads as zero.
\<close>

definition ptr_alloc :: buffer where
  "ptr_alloc = (\<lambda>a. 0)"

definition memcpy :: "buffer \<Rightarrow> int \<Rightarrow> buffer \<Rightarrow> int \<Rightarrow> int \<Rightarrow> buffer" where
  "memcpy toptr d fromptr s n =
     (\<lambda>a. if d \<le> a \<and> a < d + n then fromptr (s + (a - d)) else toptr a)"

definition NumpyArray_contiguous_init_64 :: "int \<Rightarrow> int \<Rightarrow> int list" where
  "NumpyArray_contiguous_init_64 skip stride = map (\<lambda>i. int i * stride) [0..<nat skip]"

definition NumpyArray_contiguous_next_64 :: "int list \<Rightarrow> int \<Rightarrow> int \<Rightarrow> int \<Rightarrow> int list" where
  "NumpyArray_contiguous_next_64 frompos len skip stride =
     concat (map (\<lambda>i. map (\<lambda>j. frompos ! i + int j * stride) [0..<nat skip]) [0..<nat len])"

definition NumpyArray_contiguous_copy_64 ::
  "buffer \<Rightarrow> buffer \<Rightarrow> int \<Rightarrow> int \<Rightarrow> int \<Rightarrow> int list \<Rightarrow> buffer" where
  "NumpyArray_contiguous_copy_64 toptr fromptr len stride offset pos =
     foldl (\<lambda>t i. memcpy t (int i * stride) fromptr (offset + pos ! i) stride)
       toptr [0..<nat len]"

definition NumpyArray_getitem_next_null_64 ::
  "buffer \<Rightarrow> buffer \<Rightarrow> int \<Rightarrow> int \<Rightarrow> int \<Rightarrow> int list \<Rightarrow> buffer" where
  "NumpyArray_getitem_next_null_64 toptr fromptr len stride offset pos =
     foldl (\<lambda>t i. memcpy t (int i * stride) fromptr (offset + pos ! i * stride) stride)
       toptr [0..<nat len]"

text \<open>\<^verbatim>\<open>contiguous_next\<close>, lines 3757 to 3840, and \<^verbatim>\<open>contiguous\<close>, lines 3733 to 3755.\<close>

function contiguous_next :: "NumpyArray \<Rightarrow> int list \<Rightarrow> exn + NumpyArray" where
  "contiguous_next v bytepos =
     (if iscontiguous v then
        (case strides v of
           [] \<Rightarrow> Inl vector_out_of_range
         | stride0 # _ \<Rightarrow>
             NumpyArray_new (identities v) (parameters v)
               (NumpyArray_contiguous_copy_64 ptr_alloc (ptr v) (int (length bytepos))
                  stride0 (byteoffset v) bytepos)
               (shape v) (strides v) 0 (itemsize v) (format v) (dtype v) cpu_kernels)
      else if length (shape v) = 1 then
        NumpyArray_new (identities v) (parameters v)
          (NumpyArray_contiguous_copy_64 ptr_alloc (ptr v) (int (length bytepos))
             (itemsize v) (byteoffset v) bytepos)
          (shape v) [itemsize v] 0 (itemsize v) (format v) (dtype v) cpu_kernels
      else
        (case (flatten_shape (shape v), flatten_strides (strides v)) of
           (Inr fshape, Inr fstrides) \<Rightarrow>
             (case NumpyArray_new (identities v) (parameters v) (ptr v) fshape fstrides
                     (byteoffset v) (itemsize v) (format v) (dtype v) cpu_kernels of
                Inl e \<Rightarrow> Inl e
              | Inr next \<Rightarrow>
                  (case (shape v, strides v) of
                     (_ # shape1 # _, _ # stride1 # _) \<Rightarrow>
                       (case contiguous_next next
                               (NumpyArray_contiguous_next_64 bytepos (int (length bytepos))
                                  shape1 stride1) of
                          Inl e \<Rightarrow> Inl e
                        | Inr out \<Rightarrow>
                            (case strides out of
                               [] \<Rightarrow> Inl vector_out_of_range
                             | ostride0 # _ \<Rightarrow>
                                 NumpyArray_new (identities out) (parameters out) (ptr out)
                                   (shape v) (shape1 * ostride0 # strides out)
                                   (byteoffset out) (itemsize v) (format v) (dtype v)
                                   cpu_kernels))
                   | _ \<Rightarrow> Inl vector_out_of_range))
         | (Inl e, _) \<Rightarrow> Inl e
         | (_, Inl e) \<Rightarrow> Inl e))"
  by pat_completeness auto
termination
  apply (relation "measure (\<lambda>(v, bytepos). length (shape v))")
   apply simp
  apply (clarsimp simp: NumpyArray_new_def split: if_splits)
  subgoal for v fshape fstrides
    by (cases "shape v" rule: flatten_shape.cases;
        cases "strides v" rule: flatten_strides.cases) auto
  done

declare contiguous_next.simps [simp del]

definition contiguous :: "NumpyArray \<Rightarrow> exn + NumpyArray" where
  "contiguous v =
     (if iscontiguous v then
        NumpyArray_new (identities v) (parameters v) (ptr v) (shape v) (strides v)
          (byteoffset v) (itemsize v) (format v) (dtype v) cpu_kernels
      else
        (case (shape v, strides v) of
           (shape0 # _, stride0 # _) \<Rightarrow>
             contiguous_next v (NumpyArray_contiguous_init_64 shape0 stride0)
         | _ \<Rightarrow> Inl vector_out_of_range))"

section \<open>Other nodes of the tree\<close>

text \<open>
  Modelled from the spec: the sibling node types (section 1 of the specification:
  variable-length lists, records, unions, optional and masked values) are declared
  outside the sources. \<^verbatim>\<open>NumpyArray.cpp\<close> tells them apart by \<^verbatim>\<open>dynamic_cast\<close>,
  reads their parameters and builds \<^verbatim>\<open>RegularArray\<close> and \<^verbatim>\<open>ByteMaskedArray\<close>
  nodes. A node whose inside is not looked at is a \<open>Sibling\<close> with its class and its
  parameters. A \<^verbatim>\<open>VirtualArray\<close> is the array it generates. An \<^verbatim>\<open>Index8\<close> is the
  list of its entries.
\<close>

datatype SiblingClass =
    IndexedArray32 | IndexedArrayU32 | IndexedArray64
  | IndexedOptionArray32 | IndexedOptionArray64
  | BitMaskedArray | UnmaskedArray
  | UnionArray8_32 | UnionArray8_U32 | UnionArray8_64
  | OtherContent

datatype Content =
    NumpyArrayC NumpyArray
  | EmptyArray Parameters
  | RegularArray Parameters Content int
  | ByteMaskedArray Parameters "int list" Content bool
  | VirtualArray Content
  | Sibling SiblingClass Parameters

fun Content_parameters :: "Content \<Rightarrow> Parameters" where
  "Content_parameters (NumpyArrayC v) = parameters v"
| "Content_parameters (EmptyArray ps) = ps"
| "Content_parameters (RegularArray ps c n) = ps"
| "Content_parameters (ByteMaskedArray ps m c w) = ps"
| "Content_parameters (VirtualArray c) = Content_parameters c"
| "Content_parameters (Sibling k ps) = ps"

text \<open>
  A method either returns an array or hands the work to code that is not embedded here:
  a method of a sibling node, \<^verbatim>\<open>Content::getitem\<close>, \<^verbatim>\<open>Content::merge_as_union\<close>, or
  the by-carry resolution \<^verbatim>\<open>getitem_next\<close>. \<open>Delegated m cs\<close> names the method and
  the arrays it receives, the receiver first.
\<close>

datatype Outcome =
    Returned Content
  | Delegated string "Content list"

text \<open>
  \<^verbatim>\<open>toRegularArray\<close>, lines 477 to 505. The loop runs \<open>i\<close> from \<open>ndim - 1\<close> down to
  \<open>1\<close>; \<open>toRegularArray_loop sh i out\<close> is the loop about to run its body at \<open>i\<close>.
\<close>

fun toRegularArray_loop :: "int list \<Rightarrow> nat \<Rightarrow> Content \<Rightarrow> Content" where
  "toRegularArray_loop sh 0 out = out"
| "toRegularArray_loop sh (Suc i) out =
     toRegularArray_loop sh i (RegularArray [] out (sh ! Suc i))"

definition toRegularArray :: "NumpyArray \<Rightarrow> exn + Content" where
  "toRegularArray v =
     (if isscalar v then
        (case shallow_copy v of Inl e \<Rightarrow> Inl e | Inr c \<Rightarrow> Inr (NumpyArrayC c))
      else
        (case contiguous v of
           Inl e \<Rightarrow> Inl e
         | Inr contiguous_self \<Rightarrow>
             (case NumpyArray_new (identities v) (parameters v) (ptr contiguous_self)
                     [foldl (\<lambda>f x. f * x) 1 (shape v)] [itemsize v]
                     (byteoffset contiguous_self) (itemsize contiguous_self)
                     (format contiguous_self) (dtype contiguous_self) cpu_kernels of
                Inl e \<Rightarrow> Inl e
              | Inr out \<Rightarrow>
                  Inr (toRegularArray_loop (shape v) (length (shape v) - 1)
                         (NumpyArrayC out)))))"

section \<open>Slices\<close>

text \<open>
  Modelled from the spec: \<^verbatim>\<open>Slice\<close> and its items are declared outside the sources.
  Section 4.2 of the specification: the items are a closed tagged union; a slice
  specification is an ordered sequence of items; \<open>dimlength\<close> is the number of dimensions
  a specification consumes; a specification is advanced when an index array stands in it.
  A bound of a range that is not given is \<open>kSliceNone\<close> (\<^verbatim>\<open>Slice::none()\<close>); a range
  never has step \<open>0\<close>.
\<close>

datatype SliceItem =
    SliceAt int
  | SliceRange int int int
  | SliceEllipsis
  | SliceNewAxis
  | SliceArray64 "int list" "int list"
  | SliceField string
  | SliceFields "string list"
  | SliceMissing64 "int list"
  | SliceJagged64 "int list"

type_synonym Slice = "SliceItem list"

definition Slice_head :: "Slice \<Rightarrow> SliceItem option" where
  "Slice_head items = (case items of [] \<Rightarrow> None | x # _ \<Rightarrow> Some x)"

definition Slice_tail :: "Slice \<Rightarrow> Slice" where
  "Slice_tail items = (case items of [] \<Rightarrow> [] | _ # xs \<Rightarrow> xs)"

fun consumes_dimension :: "SliceItem \<Rightarrow> bool" where
  "consumes_dimension (SliceAt _) = True"
| "consumes_dimension (SliceRange _ _ _) = True"
| "consumes_dimension (SliceArray64 _ _) = True"
| "consumes_dimension _ = False"

definition Slice_dimlength :: "Slice \<Rightarrow> int" where
  "Slice_dimlength items = int (length (filter consumes_dimension items))"

fun is_SliceArray64 :: "SliceItem \<Rightarrow> bool" where
  "is_SliceArray64 (SliceArray64 _ _) = True"
| "is_SliceArray64 _ = False"

definition Slice_isadvanced :: "Slice \<Rightarrow> bool" where
  "Slice_isadvanced items = list_ex is_SliceArray64 items"

text \<open>
  Modelled from the spec: \<^verbatim>\<open>kernel::regularize_rangeslice\<close> is not among the sources.
  Section 4.2 of the specification: the half-open, sign-aware normalization of ordinary
  range slicing, clamped to the extent, the direction determined by the sign of the step.
  A missing start or stop is the end the direction starts or stops at; a negative bound
  counts from the end.
\<close>

definition regularize_rangeslice ::
  "int \<Rightarrow> int \<Rightarrow> bool \<Rightarrow> bool \<Rightarrow> bool \<Rightarrow> int \<Rightarrow> int \<times> int" where
  "regularize_rangeslice start stop posstep hasstart hasstop len =
     (if posstep then
        (let start1 = (if \<not> hasstart then 0 else if start < 0 then start + len else start);
             start2 = (if start1 < 0 then 0 else start1);
             start3 = (if start2 > len then len else start2);
             stop1 = (if \<not> hasstop then len else if stop < 0 then stop + len else stop);
             stop2 = (if stop1 < 0 then 0 else stop1);
             stop3 = (if stop2 > len then len else stop2);
             stop4 = (if stop3 < start3 then start3 else stop3)
         in (start3, stop4))
      else
        (let start1 = (if \<not> hasstart then len - 1 else if start < 0 then start + len else start);
             start2 = (if start1 < - 1 then - 1 else start1);
             start3 = (if start2 > len - 1 then len - 1 else start2);
             stop1 = (if \<not> hasstop then - 1 else if stop < 0 then stop + len else stop);
             stop2 = (if stop1 < - 1 then - 1 else stop1);
             stop3 = (if stop2 > len - 1 then len - 1 else stop2);
             stop4 = (if stop3 > start3 then start3 else stop3)
         in (start3, stop4)))"

text \<open>
  \<^verbatim>\<open>getitem_bystrides\<close>, lines 3842 to 4037: the dispatch on the head of the slice and the
  four overloads it calls, one equation each. \<^verbatim>\<open>minmax_depth\<close>, lines 190 to 194 with
  \<^verbatim>\<open>form\<close>, lines 637 to 647, is one more than the number of inner dimensions. A
  \<^verbatim>\<open>handle_error\<close> that is given a \<^verbatim>\<open>failure\<close> is written as the error it raises.
  The index of an \<^verbatim>\<open>at\<close> and the bounds and the step of a range are any 64-bit
  values, so the arithmetic of the two overloads that use them is the 64-bit one:
  \<^verbatim>\<open>std::abs\<close> is \<open>int64_abs\<close>, \<^verbatim>\<open>/\<close> and \<^verbatim>\<open>%\<close> are \<open>int64_div\<close> and
  \<open>int64_mod\<close>, and each sum and product is wrapped.
\<close>

definition mindepth :: "NumpyArray \<Rightarrow> int" where
  "mindepth v = int (length (tl (shape v))) + 1"

text \<open>
  The weights of the termination measure of \<open>getitem_bystrides\<close>. An ellipsis that
  cannot stop yet puts a range before itself and stays in the slice, so the slice grows
  by one item; the range then removes one dimension of the view. An ellipsis therefore
  weighs more at the head of the slice than inside its tail, and a dimension weighs 2.
\<close>

fun head_weight :: "SliceItem option \<Rightarrow> nat" where
  "head_weight None = 0"
| "head_weight (Some SliceEllipsis) = 3"
| "head_weight (Some SliceNewAxis) = 3"
| "head_weight (Some _) = 1"

fun tail_weight :: "SliceItem \<Rightarrow> nat" where
  "tail_weight SliceEllipsis = 1"
| "tail_weight SliceNewAxis = 3"
| "tail_weight _ = 1"

function getitem_bystrides ::
  "NumpyArray \<Rightarrow> SliceItem option \<Rightarrow> Slice \<Rightarrow> int \<Rightarrow> exn + NumpyArray" where
  "getitem_bystrides v None tail len =
     NumpyArray_new (identities v) (parameters v) (ptr v) (shape v) (strides v)
       (byteoffset v) (itemsize v) (format v) (dtype v) cpu_kernels"
| "getitem_bystrides v (Some (SliceAt ati)) tail len =
     (if ndim v < 2 then Inl (handled_error ''too many dimensions in slice'')
      else
        (case (shape v, strides v) of
           (_ # shape1 # _, _ # stride1 # _) \<Rightarrow>
             (let i = (if ati < 0 then wrap64 (ati + shape1) else ati) in
              if i < 0 \<or> i \<ge> shape1 then Inl (handled_error ''index out of range'')
              else
                (case (flatten_shape (shape v), flatten_strides (strides v)) of
                   (Inr fshape, Inr fstrides) \<Rightarrow>
                     (case NumpyArray_new (identities v) (parameters v) (ptr v) fshape
                             fstrides (wrap64 (byteoffset v + wrap64 (i * stride1)))
                             (itemsize v) (format v) (dtype v) cpu_kernels of
                        Inl e \<Rightarrow> Inl e
                      | Inr nxt \<Rightarrow>
                          (case getitem_bystrides nxt (Slice_head tail) (Slice_tail tail)
                                  len of
                             Inl e \<Rightarrow> Inl e
                           | Inr out \<Rightarrow>
                               (case shape out of
                                  [] \<Rightarrow> Inl vector_out_of_range
                                | _ # oshape \<Rightarrow>
                                    NumpyArray_new (identities out) (parameters out)
                                      (ptr out) (len # oshape) (strides out)
                                      (byteoffset out) (itemsize v) (format v) (dtype v)
                                      cpu_kernels)))
                 | (Inl e, _) \<Rightarrow> Inl e
                 | (_, Inl e) \<Rightarrow> Inl e))
         | _ \<Rightarrow> Inl vector_out_of_range))"
| "getitem_bystrides v (Some (SliceRange start0 stop0 step0)) tail len =
     (if ndim v < 2 then Inl (handled_error ''too many dimensions in slice'')
      else
        (case (shape v, strides v) of
           (_ # shape1 # _, stride0 # stride1 # _) \<Rightarrow>
             (let step = (if step0 = kSliceNone then 1 else step0);
                  (start, stop) = regularize_rangeslice start0 stop0 (step > 0)
                                    (start0 \<noteq> kSliceNone) (stop0 \<noteq> kSliceNone) shape1;
                  numer = int64_abs (wrap64 (start - stop));
                  denom = int64_abs step
              in
                (case (int64_div numer denom, int64_mod numer denom) of
                   (Inr d, Inr m) \<Rightarrow>
                     (let lenhead = wrap64 (d + (if m \<noteq> 0 then 1 else 0)) in
                      (case (flatten_shape (shape v), flatten_strides (strides v)) of
                         (Inr fshape, Inr fstrides) \<Rightarrow>
                           (case NumpyArray_new (identities v) (parameters v) (ptr v)
                                   fshape fstrides
                                   (wrap64 (byteoffset v + wrap64 (start * stride1)))
                                   (itemsize v) (format v) (dtype v) cpu_kernels of
                              Inl e \<Rightarrow> Inl e
                            | Inr nxt \<Rightarrow>
                                (case getitem_bystrides nxt (Slice_head tail)
                                        (Slice_tail tail) (wrap64 (len * lenhead)) of
                                   Inl e \<Rightarrow> Inl e
                                 | Inr out \<Rightarrow>
                                     (case (shape out, strides out) of
                                        (_ # oshape, _ # ostrides) \<Rightarrow>
                                          NumpyArray_new (identities out) (parameters out)
                                            (ptr out) (len # lenhead # oshape)
                                            (stride0 # wrap64 (stride1 * step) # ostrides)
                                            (byteoffset out) (itemsize v) (format v)
                                            (dtype v) cpu_kernels
                                      | _ \<Rightarrow> Inl vector_out_of_range)))
                       | (Inl e, _) \<Rightarrow> Inl e
                       | (_, Inl e) \<Rightarrow> Inl e))
                 | (Inl e, _) \<Rightarrow> Inl e
                 | (_, Inl e) \<Rightarrow> Inl e))
         | _ \<Rightarrow> Inl vector_out_of_range))"
| "getitem_bystrides v (Some SliceEllipsis) tail len =
     (if length tail = 0 \<or> mindepth v - 1 = Slice_dimlength tail
      then getitem_bystrides v (Slice_head tail) (Slice_tail tail) len
      else getitem_bystrides v (Some (SliceRange kSliceNone kSliceNone 1))
             (SliceEllipsis # tail) len)"
| "getitem_bystrides v (Some SliceNewAxis) tail len =
     (case getitem_bystrides v (Slice_head tail) (Slice_tail tail) len of
        Inl e \<Rightarrow> Inl e
      | Inr out \<Rightarrow>
          (case (shape out, strides out) of
             (_ # oshape, ostride0 # _) \<Rightarrow>
               NumpyArray_new (identities out) (parameters out) (ptr out)
                 (len # 1 # oshape) (ostride0 # strides out) (byteoffset out)
                 (itemsize v) (format v) (dtype v) cpu_kernels
           | _ \<Rightarrow> Inl vector_out_of_range))"
| "getitem_bystrides v (Some (SliceArray64 ix sh)) tail len =
     Inl (runtime_error ''unrecognized slice item type for NumpyArray::getitem_bystrides'')"
| "getitem_bystrides v (Some (SliceField k)) tail len =
     Inl (runtime_error ''unrecognized slice item type for NumpyArray::getitem_bystrides'')"
| "getitem_bystrides v (Some (SliceFields ks)) tail len =
     Inl (runtime_error ''unrecognized slice item type for NumpyArray::getitem_bystrides'')"
| "getitem_bystrides v (Some (SliceMissing64 ix)) tail len =
     Inl (runtime_error ''unrecognized slice item type for NumpyArray::getitem_bystrides'')"
| "getitem_bystrides v (Some (SliceJagged64 ix)) tail len =
     Inl (runtime_error ''unrecognized slice item type for NumpyArray::getitem_bystrides'')"
  by pat_completeness auto
termination
proof (relation "measure (\<lambda>(v, h, tail, len).
           2 * length (shape v) + sum_list (map tail_weight tail) + head_weight h)",
       goal_cases)
  case 1
  show ?case by simp
next
  case (2 v ati tail len x y x21 x22 x21a x22a x21b x22b x21c x22c xa xb ya b ba bb)
  have "flatten_shape (shape v) = Inr b"
    using 2 by simp
  then have "Suc (length b) = length (shape v)"
    by (cases "shape v" rule: flatten_shape.cases) auto
  moreover have "shape bb = b"
    using 2(12) by (auto simp: NumpyArray_new_def split: if_splits)
  moreover have "head_weight (Slice_head tail) + sum_list (map tail_weight (Slice_tail tail))
      \<le> sum_list (map tail_weight tail) + 2"
  proof (cases tail)
    case Nil
    then show ?thesis by (simp add: Slice_head_def Slice_tail_def)
  next
    case (Cons x xs)
    then show ?thesis by (cases x) (simp_all add: Slice_head_def Slice_tail_def)
  qed
  ultimately show ?case by simp
next
  case (3 v start0 stop0 step0 tail len x y x21 x22 x21a x22a x21b x22b x21c x22c
      xa xb xc ya xd xe xf yb b ba xg xh yc bb bc bd)
  have "flatten_shape (shape v) = Inr bb"
    using 3 by simp
  then have "Suc (length bb) = length (shape v)"
    by (cases "shape v" rule: flatten_shape.cases) auto
  moreover have "shape bd = bb"
    using 3(19) by (auto simp: NumpyArray_new_def split: if_splits)
  moreover have "head_weight (Slice_head tail) + sum_list (map tail_weight (Slice_tail tail))
      \<le> sum_list (map tail_weight tail) + 2"
  proof (cases tail)
    case Nil
    then show ?thesis by (simp add: Slice_head_def Slice_tail_def)
  next
    case (Cons x xs)
    then show ?thesis by (cases x) (simp_all add: Slice_head_def Slice_tail_def)
  qed
  ultimately show ?case by simp
next
  case (4 v tail len)
  have "head_weight (Slice_head tail) + sum_list (map tail_weight (Slice_tail tail))
      \<le> sum_list (map tail_weight tail) + 2"
  proof (cases tail)
    case Nil
    then show ?thesis by (simp add: Slice_head_def Slice_tail_def)
  next
    case (Cons x xs)
    then show ?thesis by (cases x) (simp_all add: Slice_head_def Slice_tail_def)
  qed
  then show ?case by simp
next
  case (5 v tail len)
  show ?case by simp
next
  case (6 v tail len)
  have "head_weight (Slice_head tail) + sum_list (map tail_weight (Slice_tail tail))
      \<le> sum_list (map tail_weight tail) + 2"
  proof (cases tail)
    case Nil
    then show ?thesis by (simp add: Slice_head_def Slice_tail_def)
  next
    case (Cons x xs)
    then show ?thesis by (cases x) (simp_all add: Slice_head_def Slice_tail_def)
  qed
  then show ?case by simp
qed

declare getitem_bystrides.simps [simp del]

text \<open>
  \<^verbatim>\<open>getitem_too_general\<close>, lines 1109 to 1120, and \<^verbatim>\<open>getitem\<close>, lines 1122 to 1217.
  The by-carry branch builds its first view and hands it to \<^verbatim>\<open>getitem_next\<close>.
\<close>

fun getitem_too_general :: "SliceItem option \<Rightarrow> Slice \<Rightarrow> bool" where
  "getitem_too_general None tail = False"
| "getitem_too_general (Some (SliceMissing64 ix)) tail = True"
| "getitem_too_general (Some (SliceJagged64 ix)) tail = True"
| "getitem_too_general (Some x) [] = False"
| "getitem_too_general (Some x) (y # tail) = getitem_too_general (Some y) tail"

definition getitem :: "NumpyArray \<Rightarrow> Slice \<Rightarrow> exn + Outcome" where
  "getitem v wh =
     (if isscalar v then Inl (runtime_error ''cannot get-item on a scalar'')
      else if getitem_too_general (Slice_head wh) (Slice_tail wh) then
        (if ndim v = 1 then Inr (Delegated ''Content::getitem'' [NumpyArrayC v])
         else
           (case toRegularArray v of
              Inl e \<Rightarrow> Inl e
            | Inr r \<Rightarrow> Inr (Delegated ''RegularArray::getitem'' [r])))
      else if \<not> Slice_isadvanced wh \<and> identities v = None then
        (case (shape v, strides v) of
           (shape0 # _, stride0 # _) \<Rightarrow>
             (case NumpyArray_new (identities v) (parameters v) (ptr v) (1 # shape v)
                     (shape0 * stride0 # strides v) (byteoffset v) (itemsize v) (format v)
                     (dtype v) cpu_kernels of
                Inl e \<Rightarrow> Inl e
              | Inr nxt \<Rightarrow>
                  (case getitem_bystrides nxt (Slice_head wh) (Slice_tail wh) 1 of
                     Inl e \<Rightarrow> Inl e
                   | Inr out \<Rightarrow>
                       (case (shape out, strides out) of
                          (_ # outshape, _ # outstrides) \<Rightarrow>
                            (case NumpyArray_new (identities out) (parameters out) (ptr out)
                                    outshape outstrides (byteoffset out) (itemsize v)
                                    (format v) (dtype v) cpu_kernels of
                               Inl e \<Rightarrow> Inl e
                             | Inr r \<Rightarrow> Inr (Returned (NumpyArrayC r)))
                        | _ \<Rightarrow> Inl vector_out_of_range)))
         | _ \<Rightarrow> Inl vector_out_of_range)
      else
        (case contiguous v of
           Inl e \<Rightarrow> Inl e
         | Inr safe \<Rightarrow>
             (case (shape safe, strides safe) of
                (shape0 # _, stride0 # _) \<Rightarrow>
                  (case NumpyArray_new (identities safe) (parameters safe) (ptr safe)
                          (1 # shape safe) (shape0 * stride0 # strides safe)
                          (byteoffset safe) (itemsize v) (format v) (dtype v)
                          cpu_kernels of
                     Inl e \<Rightarrow> Inl e
                   | Inr nxt \<Rightarrow> Inr (Delegated ''NumpyArray::getitem_next'' [NumpyArrayC nxt]))
              | _ \<Rightarrow> Inl vector_out_of_range)))"

text \<open>
  \<^verbatim>\<open>carry\<close>, lines 1235 to 1264. Modelled from the spec:
  \<^verbatim>\<open>Identities::getitem_carry_64\<close> is defined outside the sources; section 3 of the
  specification: an operation that selects along the leading dimension applies the
  identical selection to the identities.
\<close>

definition Identities_getitem_carry_64 :: "Identities \<Rightarrow> int list \<Rightarrow> exn + Identities" where
  "Identities_getitem_carry_64 ids carry =
     (if list_all (\<lambda>i. 0 \<le> i \<and> i < int (length ids)) carry
      then Inr (map (\<lambda>i. ids ! nat i) carry)
      else Inl (handled_error ''index out of range''))"

definition carry :: "NumpyArray \<Rightarrow> int list \<Rightarrow> bool \<Rightarrow> exn + NumpyArray" where
  "carry v carry_index allow_lazy =
     (case (shape v, strides v) of
        (_ # shape', stride0 # _) \<Rightarrow>
          (case (case identities v of
                   None \<Rightarrow> Inr None
                 | Some ids \<Rightarrow>
                     (case Identities_getitem_carry_64 ids carry_index of
                        Inl e \<Rightarrow> Inl e
                      | Inr ids' \<Rightarrow> Inr (Some ids'))) of
             Inl e \<Rightarrow> Inl e
           | Inr ids' \<Rightarrow>
               NumpyArray_new ids' (parameters v)
                 (NumpyArray_getitem_next_null_64 ptr_alloc (ptr v)
                    (int (length carry_index)) stride0 (byteoffset v) carry_index)
                 (int (length carry_index) # shape') (strides v) 0 (itemsize v) (format v)
                 (dtype v) cpu_kernels)
      | _ \<Rightarrow> Inl vector_out_of_range)"

section \<open>Merging\<close>

text \<open>
  The typed kernels that fill, sort and reduce are not among the sources, and part of
  them computes on floating-point values. They are parameters of the model: what they
  write into the new buffer is whatever the parameter gives, and every theorem below
  holds for each choice. \<open>NumpyArray_fill K from to\<close> stands for
  \<^verbatim>\<open>kernel::NumpyArray_fill<FROM, TO>\<close> and, from \<open>boolean\<close>, for
  \<^verbatim>\<open>kernel::NumpyArray_fill_frombool<TO>\<close>; its arguments are those of the kernel.
  \<open>sorting_ranges K\<close> stands for \<^verbatim>\<open>kernel::sorting_ranges_length\<close> followed by
  \<^verbatim>\<open>kernel::sorting_ranges\<close>. These kernels return \<^verbatim>\<open>success()\<close>.
\<close>

record Kernels =
  NumpyArray_fill :: "dtype \<Rightarrow> dtype \<Rightarrow> buffer \<Rightarrow> int \<Rightarrow> buffer \<Rightarrow> int \<Rightarrow> int \<Rightarrow> buffer"
  sorting_ranges :: "int list \<Rightarrow> int \<Rightarrow> int list"
  NumpyArray_sort ::
    "dtype \<Rightarrow> buffer \<Rightarrow> buffer \<Rightarrow> int \<Rightarrow> int list \<Rightarrow> int \<Rightarrow> int \<Rightarrow> bool \<Rightarrow> bool \<Rightarrow>
     buffer"

text \<open>
  The promotion rule of \<^verbatim>\<open>merge\<close>, lines 1617 to 1769, with \<open>a\<close> for \<^verbatim>\<open>dtype_\<close> and
  \<open>b\<close> for \<^verbatim>\<open>rawother->dtype()\<close>; the branches stand in the order of the source.
\<close>

definition merge_dtype :: "dtype \<Rightarrow> dtype \<Rightarrow> exn + dtype" where
  "merge_dtype a b =
     (if a = complex256 \<or> b = complex256 then Inr complex256
      else if (a = float128 \<and> is_complex b) \<or> (b = float128 \<and> is_complex a)
        then Inr complex256
      else if a = complex128 \<or> b = complex128 then Inr complex128
      else if ((a = float64 \<or> a = uint64 \<or> a = int64 \<or> a = uint32 \<or> a = int32) \<and>
               is_complex b) \<or>
              ((b = float64 \<or> b = uint64 \<or> b = int64 \<or> b = uint32 \<or> b = int32) \<and>
               is_complex a)
        then Inr complex128
      else if a = complex64 \<or> b = complex64 then Inr complex64
      else if a = float128 \<or> b = float128 then Inr float128
      else if a = float64 \<or> b = float64 then Inr float64
      else if (a = float32 \<and> (b = uint64 \<or> b = int64 \<or> b = uint32 \<or> b = int32)) \<or>
              (b = float32 \<and> (a = uint64 \<or> a = int64 \<or> a = uint32 \<or> a = int32))
        then Inr float64
      else if a = float32 \<or> b = float32 then Inr float32
      else if (a = float16 \<and> (b = uint64 \<or> b = int64 \<or> b = uint32 \<or> b = int32)) \<or>
              (b = float16 \<and> (a = uint64 \<or> a = int64 \<or> a = uint32 \<or> a = int32))
        then Inr float64
      else if (a = float16 \<and> (b = uint16 \<or> b = int16)) \<or>
              (b = float16 \<and> (a = uint16 \<or> a = int16))
        then Inr float32
      else if a = float16 \<or> b = float16 then Inr float16
      else if (a = uint64 \<and> is_signed b) \<or> (b = uint64 \<and> is_signed a) then Inr float64
      else if a = uint64 \<or> b = uint64 then Inr uint64
      else if a = int64 \<or> b = int64 then Inr int64
      else if (a = uint32 \<and> is_signed b) \<or> (b = uint32 \<and> is_signed a) then Inr int64
      else if a = uint32 \<or> b = uint32 then Inr uint32
      else if a = int32 \<or> b = int32 then Inr int32
      else if (a = uint16 \<and> is_signed b) \<or> (b = uint16 \<and> is_signed a) then Inr int32
      else if a = uint16 \<or> b = uint16 then Inr uint16
      else if a = int16 \<or> b = int16 then Inr int16
      else if (a = uint8 \<and> is_signed b) \<or> (b = uint8 \<and> is_signed a) then Inr int16
      else if a = uint8 \<or> b = uint8 then Inr uint8
      else if a = int8 \<or> b = int8 then Inr int8
      else if a = boolean \<and> b = boolean then Inr boolean
      else Inl (invalid_argument ''cannot merge Numpy format''))"

text \<open>
  The loop over the inner dimensions, lines 1780 to 1789. It runs \<open>i\<close> from
  \<open>ndim - 1\<close> down to \<open>1\<close>; \<open>merge_shape_loop sh osh i st\<close> is the loop about to run
  its body at \<open>i\<close> with the state \<open>st\<close>: the shape and the strides built so far and the
  two flat lengths.
\<close>

fun merge_shape_loop ::
  "int list \<Rightarrow> int list \<Rightarrow> nat \<Rightarrow> int list \<times> int list \<times> int \<times> int \<Rightarrow>
   exn + int list \<times> int list \<times> int \<times> int" where
  "merge_shape_loop sh osh 0 st = Inr st"
| "merge_shape_loop sh osh (Suc k) (shp, strd, self_flatlength, other_flatlength) =
     (if sh ! Suc k \<noteq> osh ! Suc k
      then Inl (invalid_argument ''cannot merge arrays with different shapes'')
      else merge_shape_loop sh osh k
             (take 1 shp @ sh ! Suc k # drop 1 shp,
              (hd strd * sh ! Suc k) # strd,
              self_flatlength * sh ! Suc k,
              other_flatlength * sh ! Suc k))"

text \<open>
  The switch over the result type, lines 1804 to 2786. Each result type has one inner
  switch for each operand; \<open>merge_fill_cases\<close> lists its case labels, which are the
  same for both operands. The result type \<open>boolean\<close> has no inner switch.

  The variable \<^verbatim>\<open>err\<close> is declared at line 1802 without an initializer. A case label
  assigns it the result of its kernel; an operand type without a label runs no kernel
  and leaves \<^verbatim>\<open>err\<close> as it was. The \<^verbatim>\<open>util::handle_error\<close> after each inner
  switch reads it: after the first switch it may still be \<open>Uninitialized\<close>, after the
  second it holds at least the result of the first kernel.
\<close>

datatype Error_variable = Uninitialized | Assigned "string option"

definition read_error :: "Error_variable \<Rightarrow> exn + unit" where
  "read_error err =
     (case err of Uninitialized \<Rightarrow> Inl uninitialized_read | Assigned e \<Rightarrow> handle_error e)"

fun merge_fill_cases :: "dtype \<Rightarrow> dtype list" where
  "merge_fill_cases int8 = [boolean, int8]"
| "merge_fill_cases int16 = [boolean, int8, int16, uint8]"
| "merge_fill_cases int32 = [boolean, int8, int16, int32, uint8, uint16]"
| "merge_fill_cases int64 = [boolean, int8, int16, int32, int64, uint8, uint16, uint32]"
| "merge_fill_cases uint8 = [boolean, uint8]"
| "merge_fill_cases uint16 = [boolean, uint8, uint16]"
| "merge_fill_cases uint32 = [boolean, uint8, uint16, uint32]"
| "merge_fill_cases uint64 = [boolean, uint8, uint16, uint32, uint64]"
| "merge_fill_cases float32 = [boolean, int8, int16, uint8, uint16, float32]"
| "merge_fill_cases float64 =
     [boolean, int8, int16, int32, int64, uint8, uint16, uint32, uint64, float32, float64]"
| "merge_fill_cases _ = []"

definition merge_fill_switch ::
  "Kernels \<Rightarrow> dtype \<Rightarrow> dtype \<Rightarrow> Error_variable \<Rightarrow> buffer \<Rightarrow> int \<Rightarrow> buffer \<Rightarrow> int \<Rightarrow> int \<Rightarrow>
   exn + Error_variable \<times> buffer" where
  "merge_fill_switch K to from err toptr tooffset fromptr fromoffset len =
     (if from = float16 \<and> (to = float32 \<or> to = float64)
      then Inl (runtime_error ''FIXME: merge from float16 not implemented'')
      else if from \<in> set (merge_fill_cases to)
      then Inr (Assigned None,
                NumpyArray_fill K from to toptr tooffset fromptr fromoffset len)
      else Inr (err, toptr))"

definition merge_fill ::
  "Kernels \<Rightarrow> dtype \<Rightarrow> dtype \<Rightarrow> dtype \<Rightarrow> buffer \<Rightarrow> buffer \<Rightarrow> int \<Rightarrow> int \<Rightarrow> buffer \<Rightarrow>
   int \<Rightarrow> int \<Rightarrow> exn + buffer" where
  "merge_fill K to a b p self_ptr self_offset self_flatlength other_ptr other_offset
     other_flatlength =
     (if to = boolean then
        Inr (NumpyArray_fill K boolean boolean
               (NumpyArray_fill K boolean boolean p 0 self_ptr self_offset self_flatlength)
               self_flatlength other_ptr other_offset other_flatlength)
      else if to = float16 then
        Inl (runtime_error ''FIXME: merge to float16 not implemented'')
      else if to = float128 then
        Inl (runtime_error ''FIXME: merge to float128 not implemented'')
      else if to = complex64 then
        Inl (runtime_error ''FIXME: merge to complex64 not implemented'')
      else if to = complex128 then
        Inl (runtime_error ''FIXME: merge to complex128 not implemented'')
      else if to = complex256 then
        Inl (runtime_error ''FIXME: merge to complex256 not implemented'')
      else if to = NOT_PRIMITIVE then
        Inl (runtime_error ''unhandled merge case'')
      else
        (case merge_fill_switch K to a Uninitialized p 0 self_ptr self_offset
                self_flatlength of
           Inl e \<Rightarrow> Inl e
         | Inr (err1, p1) \<Rightarrow>
             (case read_error err1 of
                Inl e \<Rightarrow> Inl e
              | Inr _ \<Rightarrow>
                  (case merge_fill_switch K to b err1 p1 self_flatlength other_ptr
                          other_offset other_flatlength of
                     Inl e \<Rightarrow> Inl e
                   | Inr (err2, p2) \<Rightarrow>
                       (case read_error err2 of
                          Inl e \<Rightarrow> Inl e
                        | Inr _ \<Rightarrow> Inr p2)))))"

text \<open>\<^verbatim>\<open>merge_bytes\<close>, lines 2806 to 2843.\<close>

definition merge_bytes :: "Kernels \<Rightarrow> NumpyArray \<Rightarrow> NumpyArray \<Rightarrow> exn + NumpyArray" where
  "merge_bytes K v other =
     (case contiguous v of
        Inl e \<Rightarrow> Inl e
      | Inr contiguous_self \<Rightarrow>
          (case contiguous other of
             Inl e \<Rightarrow> Inl e
           | Inr contiguous_other \<Rightarrow>
               NumpyArray_new None (parameters v)
                 (NumpyArray_fill K uint8 uint8
                    (NumpyArray_fill K uint8 uint8 ptr_alloc 0 (ptr contiguous_self)
                       (byteoffset contiguous_self) (length_np contiguous_self))
                    (length_np v) (ptr contiguous_other) (byteoffset contiguous_other)
                    (length_np contiguous_other))
                 [length_np v + length_np other] [1] 0 1 (format v) (dtype v)
                 cpu_kernels))"

text \<open>
  The branch of \<^verbatim>\<open>merge\<close> for another leaf array, lines 1609 to 1797, after
  \<^verbatim>\<open>contiguous_self\<close> has been computed. The two offsets are divided by the item
  sizes, lines 1796 to 1799, before the switch over the result type is entered.
\<close>

definition merge_numpy ::
  "Kernels \<Rightarrow> NumpyArray \<Rightarrow> NumpyArray \<Rightarrow> NumpyArray \<Rightarrow> exn + NumpyArray" where
  "merge_numpy K v contiguous_self rawother =
     (if ndim v \<noteq> ndim rawother
      then Inl (invalid_argument ''cannot merge arrays with different shapes'')
      else
        (case merge_dtype (dtype v) (dtype rawother) of
           Inl e \<Rightarrow> Inl e
         | Inr dt \<Rightarrow>
             (case (shape v, shape rawother) of
                (shape0 # _, other_shape0 # _) \<Rightarrow>
                  (case merge_shape_loop (shape v) (shape rawother) (length (shape v) - 1)
                          ([shape0 + other_shape0], [dtype_to_itemsize dt], shape0,
                           other_shape0) of
                     Inl e \<Rightarrow> Inl e
                   | Inr (shp, strd, self_flatlength, other_flatlength) \<Rightarrow>
                       (case contiguous rawother of
                          Inl e \<Rightarrow> Inl e
                        | Inr contiguous_other \<Rightarrow>
                            (case (int64_div (byteoffset contiguous_self)
                                     (itemsize contiguous_self),
                                   int64_div (byteoffset contiguous_other)
                                     (itemsize contiguous_other)) of
                               (Inr self_offset, Inr other_offset) \<Rightarrow>
                                 (case merge_fill K dt (dtype v) (dtype rawother) ptr_alloc
                                         (ptr contiguous_self) self_offset self_flatlength
                                         (ptr contiguous_other) other_offset
                                         other_flatlength of
                                    Inl e \<Rightarrow> Inl e
                                  | Inr p \<Rightarrow>
                                      NumpyArray_new None (parameters v) p shp strd 0
                                        (dtype_to_itemsize dt) (dtype_to_format dt) dt
                                        cpu_kernels)
                             | (Inl e, _) \<Rightarrow> Inl e
                             | (_, Inl e) \<Rightarrow> Inl e)))
              | _ \<Rightarrow> Inl vector_out_of_range)))"

text \<open>
  \<^verbatim>\<open>merge\<close>, lines 1533 to 1804: the tests on the class of the other array, in the order
  of the source. \<open>merge_leaf\<close> is the part from the scalar check on, lines 1591 to 1609
  and 2799 to 2803.
\<close>

definition merge_leaf :: "Kernels \<Rightarrow> NumpyArray \<Rightarrow> Content \<Rightarrow> exn + Outcome" where
  "merge_leaf K v other =
     (if ndim v = 0 then Inl (invalid_argument ''cannot merge Numpy scalars'')
      else
        (case (if (parameter_equals (parameters v) ''__array__'' ''\"byte\"'' \<or>
                   parameter_equals (parameters v) ''__array__'' ''\"char\"'') \<and>
                  (parameter_equals (Content_parameters other) ''__array__'' ''\"byte\"'' \<or>
                   parameter_equals (Content_parameters other) ''__array__'' ''\"char\"'')
               then (case other of
                       NumpyArrayC othernumpy \<Rightarrow>
                         if ndim v = 1 \<and> ndim othernumpy = 1 \<and>
                            itemsize v = 1 \<and> itemsize othernumpy = 1
                         then Some othernumpy else None
                     | _ \<Rightarrow> None)
               else None) of
           Some othernumpy \<Rightarrow>
             (case merge_bytes K v othernumpy of
                Inl e \<Rightarrow> Inl e
              | Inr r \<Rightarrow> Inr (Returned (NumpyArrayC r)))
         | None \<Rightarrow>
             (case contiguous v of
                Inl e \<Rightarrow> Inl e
              | Inr contiguous_self \<Rightarrow>
                  (case other of
                     NumpyArrayC rawother \<Rightarrow>
                       (case merge_numpy K v contiguous_self rawother of
                          Inl e \<Rightarrow> Inl e
                        | Inr r \<Rightarrow> Inr (Returned (NumpyArrayC r)))
                   | _ \<Rightarrow> Inl (invalid_argument ''cannot merge NumpyArray with'')))))"

definition reverse_merge :: "NumpyArray \<Rightarrow> Content \<Rightarrow> exn + Outcome" where
  "reverse_merge v rawother =
     (case shallow_copy v of
        Inl e \<Rightarrow> Inl e
      | Inr c \<Rightarrow> Inr (Delegated ''reverse_merge'' [rawother, NumpyArrayC c]))"

fun merge_class :: "Kernels \<Rightarrow> NumpyArray \<Rightarrow> Content \<Rightarrow> exn + Outcome" where
  "merge_class K v (EmptyArray ps) =
     (case shallow_copy v of Inl e \<Rightarrow> Inl e | Inr c \<Rightarrow> Inr (Returned (NumpyArrayC c)))"
| "merge_class K v (Sibling OtherContent ps) = merge_leaf K v (Sibling OtherContent ps)"
| "merge_class K v (Sibling k ps) = reverse_merge v (Sibling k ps)"
| "merge_class K v (ByteMaskedArray ps m c w) = reverse_merge v (ByteMaskedArray ps m c w)"
| "merge_class K v other = merge_leaf K v other"

fun merge :: "Kernels \<Rightarrow> NumpyArray \<Rightarrow> Content \<Rightarrow> exn + Outcome" where
  "merge K v (VirtualArray raw) = merge K v raw"
| "merge K v other =
     (if \<not> parameters_equal (parameters v) (Content_parameters other)
      then Inr (Delegated ''Content::merge_as_union'' [NumpyArrayC v, other])
      else merge_class K v other)"

section \<open>Segmented reduce and sort\<close>

text \<open>
  A \<^verbatim>\<open>Reducer\<close> is declared outside the sources and is a parameter of the model:
  \<open>Reducer_apply r t\<close> stands for the typed method \<^verbatim>\<open>apply_bool\<close>, \<^verbatim>\<open>apply_int8\<close>
  and so on that \<^verbatim>\<open>reduce_next\<close> calls for the element type \<open>t\<close>, with the arguments
  of the call, and returns the new buffer.

  Modelled from the spec: \<^verbatim>\<open>kernel::NumpyArray_reduce_mask_ByteMaskedArray_64\<close> is
  not among the sources. Section 4.5 of the specification: runs with zero elements are
  flagged invalid via an accompanying boolean validity array. Every group starts flagged;
  each element clears the flag of its parent. The \<^verbatim>\<open>ByteMaskedArray\<close> is built with
  \<^verbatim>\<open>valid_when = false\<close>, so a flagged group is an invalid one.
\<close>

record Reducer =
  Reducer_apply :: "dtype \<Rightarrow> buffer \<Rightarrow> int \<Rightarrow> int list \<Rightarrow> int list \<Rightarrow> int \<Rightarrow> buffer"
  Reducer_return_dtype :: "dtype \<Rightarrow> dtype"

definition NumpyArray_reduce_mask_ByteMaskedArray_64 :: "int list \<Rightarrow> int \<Rightarrow> int list" where
  "NumpyArray_reduce_mask_ByteMaskedArray_64 parents outlength =
     foldl (\<lambda>toptr p. toptr[nat p := 0]) (replicate (nat outlength) 1) parents"

definition ByteMaskedArray_valid :: "int list \<Rightarrow> bool \<Rightarrow> nat \<Rightarrow> bool" where
  "ByteMaskedArray_valid mask' valid_when g = ((mask' ! g \<noteq> 0) = valid_when)"

text \<open>
  \<^verbatim>\<open>reduce_next\<close>, lines 3013 to 3174. A view that is not one-dimensional and
  contiguous is handed to \<^verbatim>\<open>toRegularArray\<close> and the call is made on the result. For
  a one-dimensional view the loop of \<^verbatim>\<open>toRegularArray\<close> runs no step and the result
  is a \<^verbatim>\<open>NumpyArray\<close> again, so the call enters \<^verbatim>\<open>NumpyArray::reduce_next\<close> a
  second time, on the contiguous copy; with more dimensions it enters
  \<^verbatim>\<open>RegularArray::reduce_next\<close>. Each case label divides \<^verbatim>\<open>byteoffset_\<close> by
  \<^verbatim>\<open>itemsize_\<close> in the arguments of its call.
\<close>

definition supported_dtypes :: "dtype list" where
  "supported_dtypes =
     [boolean, int8, int16, int32, int64, uint8, uint16, uint32, uint64, float32, float64]"

function reduce_next ::
  "Reducer \<Rightarrow> NumpyArray \<Rightarrow> int \<Rightarrow> int list \<Rightarrow> int list \<Rightarrow> int \<Rightarrow> bool \<Rightarrow> bool \<Rightarrow>
   exn + Outcome" where
  "reduce_next reducer v negaxis starts parents outlength mask' keepdims =
     (if shape v = [] then Inl (runtime_error ''attempting to reduce a scalar'')
      else if length (shape v) \<noteq> 1 \<or> \<not> iscontiguous v then
        (case toRegularArray v of
           Inl e \<Rightarrow> Inl e
         | Inr (NumpyArrayC w) \<Rightarrow>
             reduce_next reducer w negaxis starts parents outlength mask' keepdims
         | Inr r \<Rightarrow> Inr (Delegated ''RegularArray::reduce_next'' [r]))
      else if dtype v \<in> set supported_dtypes then
        (case int64_div (byteoffset v) (itemsize v) of
           Inl e \<Rightarrow> Inl e
         | Inr offset \<Rightarrow>
             (let p = Reducer_apply reducer (dtype v) (ptr v) offset starts parents
                        outlength;
                  dt = Reducer_return_dtype reducer (dtype v);
                  fmt = dtype_to_format dt;
                  isz = dtype_to_itemsize dt
              in
                (case NumpyArray_new None [] p [outlength] [isz] 0 isz fmt dt cpu_kernels of
                   Inl e \<Rightarrow> Inl e
                 | Inr out \<Rightarrow>
                     (let out1 = (if mask'
                                  then ByteMaskedArray []
                                         (NumpyArray_reduce_mask_ByteMaskedArray_64 parents
                                            outlength)
                                         (NumpyArrayC out) False
                                  else NumpyArrayC out);
                          out2 = (if keepdims then RegularArray [] out1 1 else out1)
                      in Inr (Returned out2)))))
      else if dtype v = float16 then Inl (runtime_error ''FIXME: reducers on float16'')
      else if dtype v = float128 then Inl (runtime_error ''FIXME: reducers on float128'')
      else if dtype v = complex64 then Inl (runtime_error ''FIXME: reducers on complex64'')
      else if dtype v = complex128 then Inl (runtime_error ''FIXME: reducers on complex128'')
      else if dtype v = complex256 then Inl (runtime_error ''FIXME: reducers on complex256'')
      else Inl (invalid_argument ''cannot apply reducers to NumpyArray with format''))"
  by pat_completeness auto
termination
proof (relation "measure (\<lambda>(reducer, v, negaxis, starts, parents, outlength, mask', keepdims).
           if length (shape v) = 1 \<and> iscontiguous v then 0 else 1)",
       goal_cases)
  case 1
  show ?case by simp
next
  case (2 reducer v negaxis starts parents outlength mask' keepdims b w)
  have loop: "n = 0 \<and> c = NumpyArrayC u"
    if "toRegularArray_loop sh n c = NumpyArrayC u" for sh n c u
    using that by (induction n arbitrary: c) auto
  have reg: "toRegularArray v = Inr (NumpyArrayC w)"
    using 2 by simp
  have nonscalar: "\<not> isscalar v"
    using 2(1) by (simp add: isscalar_def ndim_def)
  obtain cs out where cs: "contiguous v = Inr cs"
    and out: "NumpyArray_new (identities v) (parameters v) (ptr cs)
                [foldl (\<lambda>f x. f * x) 1 (shape v)] [itemsize v] (byteoffset cs) (itemsize cs)
                (format cs) (dtype cs) cpu_kernels = Inr out"
    and lp: "toRegularArray_loop (shape v) (length (shape v) - 1) (NumpyArrayC out) =
               NumpyArrayC w"
    using reg nonscalar by (auto simp: toRegularArray_def split: sum.splits)
  from loop [OF lp] have len: "length (shape v) - 1 = 0" and w: "out = w"
    by auto
  from len 2(1) have len1: "length (shape v) = 1"
    by (cases "shape v") auto
  with 2(2) have nc: "\<not> iscontiguous v"
    by simp
  have "contiguous_next v bp =
          NumpyArray_new (identities v) (parameters v)
            (NumpyArray_contiguous_copy_64 ptr_alloc (ptr v) (int (length bp)) (itemsize v)
               (byteoffset v) bp)
            (shape v) [itemsize v] 0 (itemsize v) (format v) (dtype v) cpu_kernels" for bp
    using nc len1 by (subst contiguous_next.simps) simp
  then have "itemsize cs = itemsize v"
    using cs nc by (auto simp: contiguous_def NumpyArray_new_def split: list.splits if_splits)
  then have "length (shape w) = 1 \<and> iscontiguous w"
    using out w by (auto simp: NumpyArray_new_def iscontiguous_def ndim_def)
  then show ?case
    using nc by simp
qed

declare reduce_next.simps [simp del]

text \<open>
  \<^verbatim>\<open>array_sort\<close>, lines 4901 to 4949, and \<^verbatim>\<open>sort_next\<close>, lines 3220 to 3392, which
  passes a view on as \<^verbatim>\<open>reduce_next\<close> does. The offset is divided by the item size
  at line 3242, before the switch over the element type. The division of
  \<^verbatim>\<open>parents.length()\<close> by \<^verbatim>\<open>starts.length()\<close> at line 3387 is not guarded in the
  source.
\<close>

definition array_sort ::
  "Kernels \<Rightarrow> dtype \<Rightarrow> buffer \<Rightarrow> int \<Rightarrow> int \<Rightarrow> int list \<Rightarrow> int list \<Rightarrow> int \<Rightarrow> bool \<Rightarrow> bool \<Rightarrow>
   buffer" where
  "array_sort K t data len offset starts parents outlength ascending stable' =
     (if len = 0 then ptr_alloc
      else
        (let outranges = sorting_ranges K parents outlength in
         NumpyArray_sort K t ptr_alloc data len outranges (int (length outranges))
           (int (length parents)) ascending stable'))"

function sort_next ::
  "Kernels \<Rightarrow> NumpyArray \<Rightarrow> int \<Rightarrow> int list \<Rightarrow> int list \<Rightarrow> int \<Rightarrow> bool \<Rightarrow> bool \<Rightarrow> bool \<Rightarrow>
   exn + Outcome" where
  "sort_next K v negaxis starts parents outlength ascending stable' keepdims =
     (if shape v = [] then Inl (runtime_error ''attempting to sort a scalar'')
      else if length (shape v) \<noteq> 1 \<or> \<not> iscontiguous v then
        (case toRegularArray v of
           Inl e \<Rightarrow> Inl e
         | Inr (NumpyArrayC w) \<Rightarrow>
             sort_next K w negaxis starts parents outlength ascending stable' keepdims
         | Inr r \<Rightarrow> Inr (Delegated ''RegularArray::sort_next'' [r]))
      else
        (case int64_div (byteoffset v) (itemsize v) of
           Inl e \<Rightarrow> Inl e
         | Inr offset \<Rightarrow>
             if dtype v \<in> set supported_dtypes then
               (let p = array_sort K (dtype v) (ptr v) (length_np v) offset starts parents
                          outlength ascending stable'
                in
                  (case NumpyArray_new None (parameters v) p (shape v) (strides v) 0
                          (itemsize v) (format v) (dtype v) cpu_kernels of
                     Inl e \<Rightarrow> Inl e
                   | Inr out \<Rightarrow>
                       if keepdims then
                         (case int64_div (int (length parents)) (int (length starts)) of
                            Inl e \<Rightarrow> Inl e
                          | Inr n \<Rightarrow>
                              Inr (Returned (RegularArray [] (NumpyArrayC out) n)))
                       else Inr (Returned (NumpyArrayC out))))
             else if dtype v = float16
               then Inl (runtime_error ''FIXME: sort for float16 not implemented'')
             else if dtype v = float128
               then Inl (runtime_error ''FIXME: sort for float128 not implemented'')
             else if dtype v = complex64
               then Inl (runtime_error ''FIXME: sort for complex64 not implemented'')
             else if dtype v = complex128
               then Inl (runtime_error ''FIXME: sort for complex128 not implemented'')
             else if dtype v = complex256
               then Inl (runtime_error ''FIXME: sort for complex256 not implemented'')
             else Inl (invalid_argument ''cannot sort NumpyArray with format'')))"
  by pat_completeness auto
termination
proof (relation "measure (\<lambda>(K, v, negaxis, starts, parents, outlength, ascending, stable', keepdims).
           if length (shape v) = 1 \<and> iscontiguous v then 0 else 1)",
       goal_cases)
  case 1
  show ?case by simp
next
  case (2 K v negaxis starts parents outlength ascending stable' keepdims b w)
  have loop: "n = 0 \<and> c = NumpyArrayC u"
    if "toRegularArray_loop sh n c = NumpyArrayC u" for sh n c u
    using that by (induction n arbitrary: c) auto
  have reg: "toRegularArray v = Inr (NumpyArrayC w)"
    using 2 by simp
  have nonscalar: "\<not> isscalar v"
    using 2(1) by (simp add: isscalar_def ndim_def)
  obtain cs out where cs: "contiguous v = Inr cs"
    and out: "NumpyArray_new (identities v) (parameters v) (ptr cs)
                [foldl (\<lambda>f x. f * x) 1 (shape v)] [itemsize v] (byteoffset cs) (itemsize cs)
                (format cs) (dtype cs) cpu_kernels = Inr out"
    and lp: "toRegularArray_loop (shape v) (length (shape v) - 1) (NumpyArrayC out) =
               NumpyArrayC w"
    using reg nonscalar by (auto simp: toRegularArray_def split: sum.splits)
  from loop [OF lp] have len: "length (shape v) - 1 = 0" and w: "out = w"
    by auto
  from len 2(1) have len1: "length (shape v) = 1"
    by (cases "shape v") auto
  with 2(2) have nc: "\<not> iscontiguous v"
    by simp
  have "contiguous_next v bp =
          NumpyArray_new (identities v) (parameters v)
            (NumpyArray_contiguous_copy_64 ptr_alloc (ptr v) (int (length bp)) (itemsize v)
               (byteoffset v) bp)
            (shape v) [itemsize v] 0 (itemsize v) (format v) (dtype v) cpu_kernels" for bp
    using nc len1 by (subst contiguous_next.simps) simp
  then have "itemsize cs = itemsize v"
    using cs nc by (auto simp: contiguous_def NumpyArray_new_def split: list.splits if_splits)
  then have "length (shape w) = 1 \<and> iscontiguous w"
    using out w by (auto simp: NumpyArray_new_def iscontiguous_def ndim_def)
  then show ?case
    using nc by simp
qed

declare sort_next.simps [simp del]

text \<open>The leaf array inside the wrappers that \<^verbatim>\<open>reduce_next\<close> and \<^verbatim>\<open>sort_next\<close> build.\<close>

fun unwrapped :: "Content \<Rightarrow> NumpyArray option" where
  "unwrapped (NumpyArrayC v) = Some v"
| "unwrapped (RegularArray ps c n) = unwrapped c"
| "unwrapped (ByteMaskedArray ps m c w) = unwrapped c"
| "unwrapped _ = None"

section \<open>Packed layout\<close>

text \<open>
  The strides of the packed row-major layout of a shape (section 3 of the specification:
  each stride equals the item size times the product of all strictly inner extents), the
  byte offset of an index and the indices of a shape. They state the theorems about
  contiguity; no function of the source is defined by them.
\<close>

fun packed_strides :: "int \<Rightarrow> int list \<Rightarrow> int list" where
  "packed_strides isz [] = []"
| "packed_strides isz (n # ns) = isz * prod_list ns # packed_strides isz ns"

fun index_offset :: "int list \<Rightarrow> int list \<Rightarrow> int" where
  "index_offset (i # idx) (s # strd) = i * s + index_offset idx strd"
| "index_offset _ _ = 0"

definition valid_index :: "int list \<Rightarrow> int list \<Rightarrow> bool" where
  "valid_index shp idx = list_all2 (\<lambda>i n. 0 \<le> i \<and> i < n) idx shp"

section \<open>Concrete inputs\<close>

text \<open>
  The views, kernels and reducer at which the theorems below are instantiated. The
  buffer of each view holds at address \<open>a\<close> the byte \<open>a mod 256\<close>. The kernels of
  \<open>example_kernels\<close> write nothing: the theorems instantiated with them are about
  shapes, element types and offsets. The reducer \<open>example_shift_reducer\<close> returns the
  buffer it is given, read from the offset it is given in items of 8 bytes.
\<close>

definition example_scalar :: NumpyArray where
  "example_scalar =
     \<lparr>identities = None, parameters = [], ptr = (\<lambda>a. word_of_int a), shape = [], strides = [],
      byteoffset = 0, itemsize = 8, format = ''d'', dtype = float64, ptr_lib = cpu_kernels\<rparr>"

definition example_vector :: NumpyArray where
  "example_vector =
     \<lparr>identities = None, parameters = [], ptr = (\<lambda>a. word_of_int a), shape = [3],
      strides = [16], byteoffset = 4, itemsize = 8, format = ''l'', dtype = int64,
      ptr_lib = cpu_kernels\<rparr>"

definition example_offset_vector :: NumpyArray where
  "example_offset_vector =
     \<lparr>identities = None, parameters = [], ptr = (\<lambda>a. word_of_int a), shape = [5],
      strides = [8], byteoffset = 16, itemsize = 8, format = ''l'', dtype = int64,
      ptr_lib = cpu_kernels\<rparr>"

definition example_shift_reducer :: Reducer where
  "example_shift_reducer =
     \<lparr>Reducer_apply = (\<lambda>t data offset starts parents outlength a. data (a + 8 * offset)),
      Reducer_return_dtype = (\<lambda>t. int32)\<rparr>"

definition example_packed :: NumpyArray where
  "example_packed =
     \<lparr>identities = None, parameters = [], ptr = (\<lambda>a. word_of_int a), shape = [5],
      strides = [8], byteoffset = 0, itemsize = 8, format = ''l'', dtype = int64,
      ptr_lib = cpu_kernels\<rparr>"

definition example_strided :: NumpyArray where
  "example_strided =
     \<lparr>identities = None, parameters = [], ptr = (\<lambda>a. word_of_int a), shape = [2, 3],
      strides = [100, 8], byteoffset = 4, itemsize = 8, format = ''l'', dtype = int64,
      ptr_lib = cpu_kernels\<rparr>"

definition example_kernels :: Kernels where
  "example_kernels =
     \<lparr>NumpyArray_fill = (\<lambda>from to toptr tooffset fromptr fromoffset len. toptr),
      sorting_ranges = (\<lambda>parents outlength. [0, int (length parents)]),
      NumpyArray_sort = (\<lambda>t toptr fromptr len offsets offsetslength parentslength ascending
                           stable'. fromptr)\<rparr>"

definition example_signed_bytes :: NumpyArray where
  "example_signed_bytes =
     \<lparr>identities = None, parameters = [(''__array__'', ''\"byte\"'')],
      ptr = (\<lambda>a. word_of_int a), shape = [2], strides = [1], byteoffset = 0, itemsize = 1,
      format = ''b'', dtype = int8, ptr_lib = cpu_kernels\<rparr>"

definition example_unsigned_bytes :: NumpyArray where
  "example_unsigned_bytes =
     \<lparr>identities = None, parameters = [(''__array__'', ''\"byte\"'')],
      ptr = (\<lambda>a. word_of_int a), shape = [3], strides = [1], byteoffset = 0, itemsize = 1,
      format = ''B'', dtype = uint8, ptr_lib = cpu_kernels\<rparr>"

definition example_int8 :: NumpyArray where
  "example_int8 =
     \<lparr>identities = None, parameters = [], ptr = (\<lambda>a. word_of_int a), shape = [3],
      strides = [1], byteoffset = 0, itemsize = 1, format = ''b'', dtype = int8,
      ptr_lib = cpu_kernels\<rparr>"

definition example_float32 :: NumpyArray where
  "example_float32 =
     \<lparr>identities = None, parameters = [], ptr = (\<lambda>a. word_of_int a), shape = [2],
      strides = [4], byteoffset = 0, itemsize = 4, format = ''f'', dtype = float32,
      ptr_lib = cpu_kernels\<rparr>"

section \<open>Properties\<close>

subsection \<open>Scalars, construction and single-element access\<close>

text \<open>
  Claim C10. For a scalar view (no dimensions) the contiguity predicate is true and the emptiness
  predicate is false, although the logical length of the scalar is \<open>- 1\<close>.
\<close>

theorem scalar_iscontiguous_not_isempty:
  "isscalar v \<Longrightarrow> iscontiguous v \<and> \<not> isempty v \<and> length_np v = - 1"
  by (simp add: isscalar_def ndim_def iscontiguous_def isempty_def length_np_def)

theorem scalar_iscontiguous_not_isempty_witness:
  "isscalar example_scalar \<and> iscontiguous example_scalar \<and> \<not> isempty example_scalar \<and>
   length_np example_scalar = - 1"
proof -
  have s: "isscalar example_scalar"
    by (simp add: isscalar_def ndim_def example_scalar_def)
  from scalar_iscontiguous_not_isempty [OF s] s show ?thesis by simp
qed

text \<open>
  Claim C6. A construction whose shape and strides differ in length fails with the
  \<^verbatim>\<open>std::invalid_argument\<close> of the constructor (the ShapeError of the specification);
  every view the constructor returns has as many strides as dimensions.
\<close>

theorem NumpyArray_new_checks_lengths:
  "(length sh \<noteq> length st \<longrightarrow>
      (\<exists>msg. NumpyArray_new ids ps p sh st off isz fmt dt lib = Inl (invalid_argument msg))) \<and>
   (\<forall>v. NumpyArray_new ids ps p sh st off isz fmt dt lib = Inr v \<longrightarrow>
      length (shape v) = length (strides v))"
  by (auto simp: NumpyArray_new_def)

theorem NumpyArray_new_checks_lengths_witness:
  "(\<exists>msg. NumpyArray_new None [] ptr_alloc [2, 3] [8] 0 8 ''d'' float64 cpu_kernels
            = Inl (invalid_argument msg)) \<and>
   (\<exists>v. NumpyArray_new None [] ptr_alloc [2, 3] [24, 8] 0 8 ''d'' float64 cpu_kernels = Inr v \<and>
        length (shape v) = length (strides v))"
proof -
  have a: "length [2, 3 :: int] \<noteq> length [8 :: int]" by simp
  have b: "\<exists>v. NumpyArray_new None [] ptr_alloc [2, 3] [24, 8] 0 8 ''d'' float64 cpu_kernels = Inr v"
    by (simp add: NumpyArray_new_def)
  from NumpyArray_new_checks_lengths
         [of "[2, 3]" "[8]" None "[]" ptr_alloc 0 8 "''d''" float64 cpu_kernels] a
       NumpyArray_new_checks_lengths
         [of "[2, 3]" "[24, 8]" None "[]" ptr_alloc 0 8 "''d''" float64 cpu_kernels] b
  show ?thesis by blast
qed

text \<open>
  Claim C5. On a view whose leading extent is \<open>N \<ge> 1\<close>, \<^verbatim>\<open>getitem_at(-1)\<close> is
  \<^verbatim>\<open>getitem_at(N-1)\<close>, and it returns the last row when the strides and the identities
  fit the shape. For every index \<open>i\<close> with \<open>i \<ge> N\<close> or \<open>i + N < 0\<close> the call fails
  with the failure \<^verbatim>\<open>index out of range\<close> handed to \<^verbatim>\<open>handle_error\<close> (the IndexError
  of the specification); so does \<^verbatim>\<open>getitem_at(10)\<close> on an array of length 3.
\<close>

theorem getitem_at_wraps_and_checks:
  assumes "shape v = N # rest"
  shows "(1 \<le> N \<longrightarrow> getitem_at v (- 1) = getitem_at v (N - 1)) \<and>
         (1 \<le> N \<and> length (strides v) = length (shape v) \<and>
          (case identities v of None \<Rightarrow> True | Some ids \<Rightarrow> N \<le> int (length ids)) \<longrightarrow>
            (\<exists>e. getitem_at v (- 1) = Inr e \<and> shape e = rest \<and> strides e = tl (strides v) \<and>
                 ptr e = ptr v \<and> byteoffset e = byteoffset v + hd (strides v) * (N - 1))) \<and>
         (\<forall>i. i \<ge> N \<or> i + N < 0 \<longrightarrow>
            getitem_at v i = Inl (handled_error ''index out of range'')) \<and>
         (N = 3 \<longrightarrow> getitem_at v 10 = Inl (handled_error ''index out of range''))"
proof (intro conjI impI allI)
  assume "1 \<le> N"
  then show "getitem_at v (- 1) = getitem_at v (N - 1)"
    using assms by (simp add: getitem_at_def Let_def)
next
  assume h: "1 \<le> N \<and> length (strides v) = length (shape v) \<and>
          (case identities v of None \<Rightarrow> True | Some ids \<Rightarrow> N \<le> int (length ids))"
  then obtain s0 srest where st: "strides v = s0 # srest" and len: "length srest = length rest"
    using assms by (cases "strides v") auto
  from h assms st len
  show "\<exists>e. getitem_at v (- 1) = Inr e \<and> shape e = rest \<and> strides e = tl (strides v) \<and>
                 ptr e = ptr v \<and> byteoffset e = byteoffset v + hd (strides v) * (N - 1)"
    by (auto simp: getitem_at_def getitem_at_nowrap_def NumpyArray_new_def Let_def
             split: option.splits)
next
  fix i assume "i \<ge> N \<or> i + N < 0"
  then show "getitem_at v i = Inl (handled_error ''index out of range'')"
    using assms by (auto simp: getitem_at_def Let_def handle_error_def failure_def)
next
  assume "N = 3"
  then show "getitem_at v 10 = Inl (handled_error ''index out of range'')"
    using assms by (auto simp: getitem_at_def Let_def handle_error_def failure_def)
qed

theorem getitem_at_wraps_and_checks_witness:
  "getitem_at example_vector (- 1) = getitem_at example_vector 2 \<and>
   (\<exists>e. getitem_at example_vector (- 1) = Inr e \<and> shape e = [] \<and> byteoffset e = 36) \<and>
   getitem_at example_vector 3 = Inl (handled_error ''index out of range'') \<and>
   getitem_at example_vector (- 4) = Inl (handled_error ''index out of range'') \<and>
   getitem_at example_vector 10 = Inl (handled_error ''index out of range'')"
proof -
  have s: "shape example_vector = 3 # []"
    by (simp add: example_vector_def)
  note t = getitem_at_wraps_and_checks [OF s]
  have 1: "getitem_at example_vector (- 1) = getitem_at example_vector 2"
    using t [THEN conjunct1] by simp
  have "\<exists>e. getitem_at example_vector (- 1) = Inr e \<and> shape e = [] \<and>
          strides e = tl (strides example_vector) \<and> ptr e = ptr example_vector \<and>
          byteoffset e = byteoffset example_vector + hd (strides example_vector) * (3 - 1)"
    by (rule t [THEN conjunct2, THEN conjunct1, THEN mp]) (simp add: example_vector_def)
  then have 2: "\<exists>e. getitem_at example_vector (- 1) = Inr e \<and> shape e = [] \<and> byteoffset e = 36"
    by (auto simp: example_vector_def)
  note r = t [THEN conjunct2, THEN conjunct2, THEN conjunct1, THEN spec, THEN mp]
  have 3: "getitem_at example_vector 3 = Inl (handled_error ''index out of range'')"
    by (rule r) simp
  have 4: "getitem_at example_vector (- 4) = Inl (handled_error ''index out of range'')"
    by (rule r) simp
  have 5: "getitem_at example_vector 10 = Inl (handled_error ''index out of range'')"
    by (rule t [THEN conjunct2, THEN conjunct2, THEN conjunct2, THEN mp]) simp
  from 1 2 3 4 5 show ?thesis by blast
qed

subsection \<open>The promotion rule\<close>

lemma merge_dtype_commute: "merge_dtype a b = merge_dtype b a"
  by (cases a; cases b; simp add: merge_dtype_def)

text \<open>
  Claim C2, as stated: an integer of any width against any complex type gives 128-bit
  complex. The rule of the source sends an 8-bit integer against 64-bit complex to 64-bit
  complex, and a 64-bit integer against the widest complex to the widest complex.
\<close>

theorem merge_dtype_integer_complex_counterexample:
  "merge_dtype int8 complex64 = Inr complex64 \<and>
   merge_dtype int8 complex64 \<noteq> Inr complex128 \<and>
   merge_dtype int64 complex256 = Inr complex256"
  by (simp add: merge_dtype_def)

text \<open>
  Claim C2, amended. A 32-bit or 64-bit integer, signed or unsigned, against 64-bit or
  128-bit complex gives 128-bit complex, in either order. An 8-bit or 16-bit integer
  against 64-bit complex gives 64-bit complex, and against 128-bit complex 128-bit
  complex. Every integer against the widest complex gives the widest complex.
\<close>

theorem merge_dtype_integer_complex:
  "(\<forall>a \<in> {int32, uint32, int64, uint64}. \<forall>b \<in> {complex64, complex128}.
      merge_dtype a b = Inr complex128 \<and> merge_dtype b a = Inr complex128) \<and>
   (\<forall>a \<in> {int8, uint8, int16, uint16}.
      merge_dtype a complex64 = Inr complex64 \<and> merge_dtype complex64 a = Inr complex64 \<and>
      merge_dtype a complex128 = Inr complex128 \<and> merge_dtype complex128 a = Inr complex128) \<and>
   (\<forall>a \<in> {int8, uint8, int16, uint16, int32, uint32, int64, uint64}.
      merge_dtype a complex256 = Inr complex256 \<and> merge_dtype complex256 a = Inr complex256)"
  by (simp add: merge_dtype_def)

theorem merge_dtype_integer_complex_witness:
  "merge_dtype uint32 complex64 = Inr complex128 \<and>
   merge_dtype complex64 int64 = Inr complex128 \<and>
   merge_dtype int16 complex64 = Inr complex64 \<and>
   merge_dtype uint8 complex256 = Inr complex256"
  using merge_dtype_integer_complex by simp

subsection \<open>The validity array of a masked reduction\<close>

lemma reduce_mask_foldl_length:
  "length (foldl (\<lambda>toptr p. toptr[nat p := 0]) m ps) = length m"
  by (induction ps arbitrary: m) auto

lemma reduce_mask_foldl_nth:
  "g < length m \<Longrightarrow> \<forall>p \<in> set ps. 0 \<le> p \<Longrightarrow>
   foldl (\<lambda>toptr p. toptr[nat p := 0]) m ps ! g = (if int g \<in> set ps then 0 else m ! g)"
proof (induction ps arbitrary: m)
  case Nil
  then show ?case by simp
next
  case (Cons p ps)
  have "foldl (\<lambda>toptr p. toptr[nat p := 0]) (m[nat p := 0]) ps ! g =
        (if int g \<in> set ps then 0 else m[nat p := 0] ! g)"
    using Cons.prems by (intro Cons.IH) auto
  moreover have "nat p = g \<longleftrightarrow> p = int g"
    using Cons.prems by auto
  ultimately show ?case
    using Cons.prems by (auto simp: nth_list_update)
qed

lemma reduce_mask_length:
  "length (NumpyArray_reduce_mask_ByteMaskedArray_64 parents outlength) = nat outlength"
  by (simp add: NumpyArray_reduce_mask_ByteMaskedArray_64_def reduce_mask_foldl_length)

lemma reduce_mask_invalid:
  "g < nat outlength \<Longrightarrow> \<forall>p \<in> set parents. 0 \<le> p \<Longrightarrow>
   (\<not> ByteMaskedArray_valid (NumpyArray_reduce_mask_ByteMaskedArray_64 parents outlength)
          False g) = (int g \<notin> set parents)"
  by (simp add: NumpyArray_reduce_mask_ByteMaskedArray_64_def ByteMaskedArray_valid_def
        reduce_mask_foldl_nth)

lemma int64_div_positive:
  "0 < b \<Longrightarrow> int64_div a b = Inr (sgn a * (\<bar>a\<bar> div b))"
  by (simp add: int64_div_def)

text \<open>
  Claim C7. On a contiguous view of one dimension with a supported element type and a
  positive item size, \<^verbatim>\<open>reduce_next\<close> returns the plain result of the reducer: a new
  leaf of extent \<open>outlength\<close> and byte offset \<open>0\<close> whose buffer is the one the reducer
  returned for the buffer of the view, its offset in items, \<open>starts\<close>, \<open>parents\<close> and
  \<open>outlength\<close>, and whose element type is the return type of the reducer. When \<open>mask\<close>
  is set this leaf is wrapped in a \<^verbatim>\<open>ByteMaskedArray\<close> whose validity array is the
  output of the mask kernel: it has one entry for each group and flags as invalid
  exactly the groups that no element has as its parent. When \<open>keepdims\<close> is set the
  result is wrapped once more in a \<^verbatim>\<open>RegularArray\<close> of size 1.
\<close>

theorem reduce_next_mask_keepdims:
  assumes "length (shape v) = 1" and "iscontiguous v"
    and "dtype v \<in> set supported_dtypes" and "0 < itemsize v"
    and "\<forall>p \<in> set parents. 0 \<le> p"
  shows "\<exists>offset.
     int64_div (byteoffset v) (itemsize v) = Inr offset \<and>
     (let dt = Reducer_return_dtype reducer (dtype v);
          plain = \<lparr>identities = None, parameters = [],
                    ptr = Reducer_apply reducer (dtype v) (ptr v) offset starts parents
                            outlength,
                    shape = [outlength], strides = [dtype_to_itemsize dt], byteoffset = 0,
                    itemsize = dtype_to_itemsize dt, format = dtype_to_format dt, dtype = dt,
                    ptr_lib = cpu_kernels\<rparr>;
          validity = NumpyArray_reduce_mask_ByteMaskedArray_64 parents outlength;
          masked = (if mask' then ByteMaskedArray [] validity (NumpyArrayC plain) False
                    else NumpyArrayC plain)
      in reduce_next reducer v negaxis starts parents outlength mask' keepdims =
           Inr (Returned (if keepdims then RegularArray [] masked 1 else masked)) \<and>
         length validity = nat outlength \<and>
         (\<forall>g < nat outlength.
            (\<not> ByteMaskedArray_valid validity False g) = (int g \<notin> set parents)))"
proof -
  let ?offset = "sgn (byteoffset v) * (\<bar>byteoffset v\<bar> div itemsize v)"
  have d: "int64_div (byteoffset v) (itemsize v) = Inr ?offset"
    using assms(4) by (rule int64_div_positive)
  have ne: "shape v \<noteq> []"
    using assms(1) by auto
  have "\<forall>g < nat outlength.
      (\<not> ByteMaskedArray_valid (NumpyArray_reduce_mask_ByteMaskedArray_64 parents outlength)
            False g) = (int g \<notin> set parents)"
    using assms(5) by (simp add: reduce_mask_invalid)
  then show ?thesis
    using assms(1,2,3) ne d reduce_mask_length [of parents outlength]
    by (intro exI [of _ ?offset]) (simp add: reduce_next.simps NumpyArray_new_def Let_def)
qed

theorem reduce_next_mask_keepdims_witness:
  "reduce_next example_shift_reducer example_offset_vector (- 1) [0, 2, 2] [0, 0, 2, 2, 2] 3
     True True =
     Inr (Returned
            (RegularArray []
               (ByteMaskedArray [] [0, 1, 0]
                  (NumpyArrayC
                     \<lparr>identities = None, parameters = [],
                      ptr = (\<lambda>a. word_of_int (a + 16)), shape = [3], strides = [4],
                      byteoffset = 0, itemsize = 4, format = ''i'', dtype = int32,
                      ptr_lib = cpu_kernels\<rparr>)
                  False) 1)) \<and>
   ByteMaskedArray_valid [0, 1, 0] False 0 \<and>
   \<not> ByteMaskedArray_valid [0, 1, 0] False 1 \<and>
   ByteMaskedArray_valid [0, 1, 0] False 2"
proof -
  have 1: "length (shape example_offset_vector) = 1"
    by (simp add: example_offset_vector_def)
  have 2: "iscontiguous example_offset_vector"
    by (simp add: example_offset_vector_def iscontiguous_def ndim_def)
  have 3: "dtype example_offset_vector \<in> set supported_dtypes"
    by (simp add: example_offset_vector_def supported_dtypes_def)
  have 4: "0 < itemsize example_offset_vector"
    by (simp add: example_offset_vector_def)
  have 5: "\<forall>p \<in> set [0, 0, 2, 2, 2 :: int]. 0 \<le> p"
    by simp
  have v: "NumpyArray_reduce_mask_ByteMaskedArray_64 [0, 0, 2, 2, 2] 3 = [0, 1, 0]"
    by (simp add: NumpyArray_reduce_mask_ByteMaskedArray_64_def numeral_3_eq_3)
  have o: "int64_div (byteoffset example_offset_vector) (itemsize example_offset_vector) =
             Inr 2"
    by (simp add: int64_div_def example_offset_vector_def)
  from reduce_next_mask_keepdims [where v = example_offset_vector
      and parents = "[0, 0, 2, 2, 2]" and reducer = example_shift_reducer
      and negaxis = "- 1" and starts = "[0, 2, 2]" and outlength = 3 and mask' = True
      and keepdims = True, OF 1 2 3 4 5]
  show ?thesis
    unfolding v o
    by (simp add: Let_def example_shift_reducer_def example_offset_vector_def
          ByteMaskedArray_valid_def algebra_simps)
qed

subsection \<open>Contiguity normalization\<close>

text \<open>
  A view with as many strides as dimensions is contiguous exactly when its strides are
  the packed ones. The copy kernel moves row \<open>i\<close> of \<open>stride\<close> bytes to the bytes from
  \<open>i * stride\<close> on; the position kernel lists, for row \<open>i\<close> and \<open>j < skip\<close>, the
  position of row \<open>i\<close> advanced by \<open>j\<close> strides. \<open>contiguous_next_correct\<close> is proved
  by induction on the inner dimensions, following the three branches of the source.
\<close>

lemma packed_strides_length: "length (packed_strides isz ns) = length ns"
  by (induction ns) auto

lemma packed_strides_nth:
  "i < length ns \<Longrightarrow> packed_strides isz ns ! i = isz * prod_list (drop (Suc i) ns)"
proof (induction ns arbitrary: i)
  case Nil
  then show ?case by simp
next
  case (Cons n ns)
  then show ?case by (cases i) auto
qed

lemma iscontiguous_loop_iff:
  "n \<le> length (shape v) \<Longrightarrow>
   iscontiguous_loop v n x \<longleftrightarrow>
     (\<forall>i<n. strides v ! i = x * prod_list (drop (Suc i) (take n (shape v))))"
proof (induction n arbitrary: x)
  case 0
  then show ?case by simp
next
  case (Suc n)
  have tk: "take (Suc n) (shape v) = take n (shape v) @ [shape v ! n]"
    using Suc.prems by (simp add: take_Suc_conv_app_nth)
  have dr: "\<And>i. i < n \<Longrightarrow> prod_list (drop (Suc i) (take (Suc n) (shape v))) =
      shape v ! n * prod_list (drop (Suc i) (take n (shape v)))"
    using Suc.prems by (simp add: tk)
  have last: "prod_list (drop (Suc n) (take (Suc n) (shape v))) = 1"
    by simp
  have "iscontiguous_loop v (Suc n) x \<longleftrightarrow>
      x = strides v ! n \<and> iscontiguous_loop v n (x * shape v ! n)"
    by auto
  also have "\<dots> \<longleftrightarrow> x = strides v ! n \<and>
      (\<forall>i<n. strides v ! i = x * shape v ! n * prod_list (drop (Suc i) (take n (shape v))))"
    using Suc.IH [of "x * shape v ! n"] Suc.prems by simp
  also have "\<dots> \<longleftrightarrow>
      (\<forall>i<Suc n. strides v ! i = x * prod_list (drop (Suc i) (take (Suc n) (shape v))))"
    using dr last by (auto simp: less_Suc_eq mult.assoc)
  finally show ?case .
qed

lemma iscontiguous_iff:
  assumes "length (shape v) = length (strides v)"
  shows "iscontiguous v \<longleftrightarrow> strides v = packed_strides (itemsize v) (shape v)"
proof -
  have "iscontiguous v \<longleftrightarrow>
      (\<forall>i<length (shape v). strides v ! i = itemsize v * prod_list (drop (Suc i) (shape v)))"
    using iscontiguous_loop_iff [of "length (shape v)" v "itemsize v"]
    by (simp add: iscontiguous_def ndim_def)
  also have "\<dots> \<longleftrightarrow> strides v = packed_strides (itemsize v) (shape v)"
    using assms
    by (auto simp: list_eq_iff_nth_eq packed_strides_length packed_strides_nth)
  finally show ?thesis .
qed

lemma memcpy_apply:
  "memcpy toptr d fromptr s n a = (if d \<le> a \<and> a < d + n then fromptr (s + (a - d)) else toptr a)"
  by (simp add: memcpy_def)

lemma copy_foldl_nth:
  assumes "i < n" and "0 \<le> r" and "r < stride"
  shows "foldl (\<lambda>t i. memcpy t (int i * stride) fromptr (g i) stride) toptr [0..<n]
           (int i * stride + r) = fromptr (g i + r)"
  using assms(1)
proof (induction n)
  case 0
  then show ?case by simp
next
  case (Suc n)
  show ?case
  proof (cases "i = n")
    case True
    then show ?thesis using assms(2,3) by (simp add: memcpy_apply)
  next
    case False
    then have lt: "i < n" using Suc.prems by simp
    then have "int i + 1 \<le> int n" by simp
    then have "(int i + 1) * stride \<le> int n * stride"
      using assms(2,3) by (intro mult_right_mono) auto
    then have "int i * stride + r < int n * stride"
      using assms(3) by (simp add: algebra_simps)
    then show ?thesis using Suc.IH [OF lt] by (simp add: memcpy_apply)
  qed
qed

lemma NumpyArray_contiguous_copy_64_nth:
  "i < length pos \<Longrightarrow> 0 \<le> r \<Longrightarrow> r < stride \<Longrightarrow>
   NumpyArray_contiguous_copy_64 toptr fromptr (int (length pos)) stride offset pos
     (int i * stride + r) = fromptr (offset + pos ! i + r)"
  unfolding NumpyArray_contiguous_copy_64_def
  using copy_foldl_nth [of i "length pos" r stride fromptr "\<lambda>i. offset + pos ! i" toptr]
  by simp

lemma concat_uniform_length:
  "length (concat (map (\<lambda>i. map (f i) [0..<k]) [0..<n])) = n * k"
  by (induction n) auto

lemma concat_uniform_nth:
  "i < n \<Longrightarrow> j < k \<Longrightarrow> concat (map (\<lambda>i. map (f i) [0..<k]) [0..<n]) ! (i * k + j) = f i j"
proof (induction n)
  case 0
  then show ?case by simp
next
  case (Suc n)
  show ?case
  proof (cases "i = n")
    case True
    then show ?thesis using Suc.prems by (simp add: nth_append concat_uniform_length)
  next
    case False
    then have lt: "i < n" using Suc.prems by simp
    then have "Suc i \<le> n" by simp
    then have "Suc i * k \<le> n * k" by (rule mult_le_mono1)
    then have "i * k + j < n * k" using Suc.prems(2) by simp
    then show ?thesis using Suc.IH [OF lt Suc.prems(2)]
      by (simp add: nth_append concat_uniform_length)
  qed
qed

lemma NumpyArray_contiguous_next_64_length:
  "length (NumpyArray_contiguous_next_64 bp (int (length bp)) skip stride) = length bp * nat skip"
  by (simp add: NumpyArray_contiguous_next_64_def concat_uniform_length)

lemma NumpyArray_contiguous_next_64_nth:
  "i < length bp \<Longrightarrow> j < nat skip \<Longrightarrow>
   NumpyArray_contiguous_next_64 bp (int (length bp)) skip stride ! (i * nat skip + j) =
     bp ! i + int j * stride"
  by (simp add: NumpyArray_contiguous_next_64_def concat_uniform_nth)

lemma packed_offset_bound:
  "valid_index ns idx \<Longrightarrow> 0 \<le> j \<Longrightarrow> j < isz \<Longrightarrow>
   0 \<le> index_offset idx (packed_strides isz ns) + j \<and>
   index_offset idx (packed_strides isz ns) + j < isz * prod_list ns"
proof (induction ns arbitrary: idx)
  case Nil
  then show ?case by (simp add: valid_index_def)
next
  case (Cons n ns)
  from Cons.prems(1) obtain i idx' where idx: "idx = i # idx'" and i: "0 \<le> i" "i < n"
    and v: "valid_index ns idx'"
    by (auto simp: valid_index_def list_all2_Cons2)
  let ?P = "isz * prod_list ns"
  let ?r = "index_offset idx' (packed_strides isz ns) + j"
  from Cons.IH [OF v Cons.prems(2,3)] have r: "0 \<le> ?r" "?r < ?P" by auto
  then have P: "0 < ?P" by simp
  have lo: "0 \<le> i * ?P" using i P by simp
  have "i + 1 \<le> n" using i by simp
  then have "(i + 1) * ?P \<le> n * ?P" using P by (intro mult_right_mono) auto
  then have hi: "i * ?P + ?r < n * ?P" using r by (simp add: algebra_simps)
  show ?case using lo hi r idx by (simp add: algebra_simps)
qed

lemma contiguous_next_correct:
  "shape v = s0 # srest \<Longrightarrow> strides v = t0 # trest \<Longrightarrow> length srest = length trest \<Longrightarrow>
   \<exists>out. contiguous_next v bp = Inr out \<and>
     shape out = shape v \<and>
     strides out = packed_strides (itemsize v) (shape v) \<and>
     byteoffset out = 0 \<and> itemsize out = itemsize v \<and> identities out = identities v \<and>
     parameters out = parameters v \<and> format out = format v \<and> dtype out = dtype v \<and>
     ptr_lib out = cpu_kernels \<and>
     (\<forall>i idx j. i < length bp \<longrightarrow> valid_index srest idx \<longrightarrow> 0 \<le> j \<longrightarrow> j < itemsize v \<longrightarrow>
        ptr out (int i * (itemsize v * prod_list srest) +
                 index_offset idx (packed_strides (itemsize v) srest) + j) =
        ptr v (byteoffset v + bp ! i + index_offset idx trest + j))"
proof (induction srest arbitrary: v s0 t0 trest bp)
  case Nil
  then have tr: "trest = []" by simp
  have wf: "length (shape v) = length (strides v)" using Nil by simp
  show ?case
  proof (cases "iscontiguous v")
    case True
    then have t0: "t0 = itemsize v" using Nil tr iscontiguous_iff [OF wf] by simp
    have eq: "contiguous_next v bp =
        Inr \<lparr>identities = identities v, parameters = parameters v,
             ptr = NumpyArray_contiguous_copy_64 ptr_alloc (ptr v) (int (length bp)) (itemsize v)
                     (byteoffset v) bp,
             shape = shape v, strides = strides v, byteoffset = 0, itemsize = itemsize v,
             format = format v, dtype = dtype v, ptr_lib = cpu_kernels\<rparr>"
      using True Nil tr t0 by (subst contiguous_next.simps) (simp add: NumpyArray_new_def)
    show ?thesis
      unfolding eq using Nil tr t0
      by (auto simp: valid_index_def
               NumpyArray_contiguous_copy_64_nth [where r = j for j, simplified])
  next
    case False
    have eq: "contiguous_next v bp =
        Inr \<lparr>identities = identities v, parameters = parameters v,
             ptr = NumpyArray_contiguous_copy_64 ptr_alloc (ptr v) (int (length bp)) (itemsize v)
                     (byteoffset v) bp,
             shape = shape v, strides = [itemsize v], byteoffset = 0, itemsize = itemsize v,
             format = format v, dtype = dtype v, ptr_lib = cpu_kernels\<rparr>"
      using False Nil tr by (subst contiguous_next.simps) (simp add: NumpyArray_new_def)
    show ?thesis
      unfolding eq using Nil tr
      by (auto simp: valid_index_def
               NumpyArray_contiguous_copy_64_nth [where r = j for j, simplified])
  qed
next
  case (Cons s1 srest')
  then obtain t1 trest' where tr: "trest = t1 # trest'" and len: "length srest' = length trest'"
    by (cases trest) auto
  have wf: "length (shape v) = length (strides v)" using Cons.prems by simp
  let ?isz = "itemsize v"
  let ?P = "?isz * prod_list srest'"
  show ?case
  proof (cases "iscontiguous v")
    case True
    then have st: "strides v = packed_strides ?isz (shape v)"
      using iscontiguous_iff [OF wf] by simp
    then have t0: "t0 = ?isz * prod_list (s1 # srest')" and trp: "trest = packed_strides ?isz (s1 # srest')"
      using Cons.prems by auto
    have eq: "contiguous_next v bp =
        Inr \<lparr>identities = identities v, parameters = parameters v,
             ptr = NumpyArray_contiguous_copy_64 ptr_alloc (ptr v) (int (length bp)) t0
                     (byteoffset v) bp,
             shape = shape v, strides = strides v, byteoffset = 0, itemsize = itemsize v,
             format = format v, dtype = dtype v, ptr_lib = cpu_kernels\<rparr>"
      using True Cons.prems wf by (subst contiguous_next.simps) (simp add: NumpyArray_new_def)
    have data: "ptr_alloc_copy (int i * t0 + index_offset idx trest + j) =
                ptr v (byteoffset v + bp ! i + index_offset idx trest + j)"
      if "i < length bp" "valid_index (s1 # srest') idx" "0 \<le> j" "j < ?isz"
        and "ptr_alloc_copy = NumpyArray_contiguous_copy_64 ptr_alloc (ptr v) (int (length bp)) t0
                     (byteoffset v) bp"
      for i idx j ptr_alloc_copy
    proof -
      from packed_offset_bound [OF that(2,3,4)]
      have b: "0 \<le> index_offset idx trest + j" "index_offset idx trest + j < t0"
        using trp t0 by auto
      show ?thesis
        unfolding that(5)
        using NumpyArray_contiguous_copy_64_nth [OF that(1) b, of ptr_alloc "ptr v" "byteoffset v"]
        by (simp add: algebra_simps)
    qed
    show ?thesis
      unfolding eq using st data t0 trp by simp
  next
    case nc: False
    let ?nxt = "\<lparr>identities = identities v, parameters = parameters v, ptr = ptr v,
                  shape = s0 * s1 # srest', strides = t1 # trest', byteoffset = byteoffset v,
                  itemsize = itemsize v, format = format v, dtype = dtype v,
                  ptr_lib = cpu_kernels\<rparr>"
    let ?nbp = "NumpyArray_contiguous_next_64 bp (int (length bp)) s1 t1"
    from Cons.IH [of ?nxt "s0 * s1" t1 trest' ?nbp] len
    obtain out' where rec: "contiguous_next ?nxt ?nbp = Inr out'"
      and osh: "shape out' = s0 * s1 # srest'"
      and ost: "strides out' = ?P # packed_strides ?isz srest'"
      and ooff: "byteoffset out' = 0" and oids: "identities out' = identities v"
      and ops: "parameters out' = parameters v"
      and odata: "\<And>i idx j. i < length ?nbp \<Longrightarrow> valid_index srest' idx \<Longrightarrow> 0 \<le> j \<Longrightarrow> j < ?isz \<Longrightarrow>
        ptr out' (int i * ?P + index_offset idx (packed_strides ?isz srest') + j) =
        ptr v (byteoffset v + ?nbp ! i + index_offset idx trest' + j)"
      by auto
    have eq: "contiguous_next v bp =
        Inr \<lparr>identities = identities v, parameters = parameters v, ptr = ptr out',
             shape = shape v, strides = s1 * ?P # ?P # packed_strides ?isz srest',
             byteoffset = 0, itemsize = itemsize v,
             format = format v, dtype = dtype v, ptr_lib = cpu_kernels\<rparr>"
      using nc Cons.prems tr len rec osh ost ooff oids ops
      by (subst contiguous_next.simps)
         (simp add: NumpyArray_new_def packed_strides_length)
    have data: "ptr out' (int i * (?isz * prod_list (s1 # srest')) +
                 index_offset idx (packed_strides ?isz (s1 # srest')) + j) =
        ptr v (byteoffset v + bp ! i + index_offset idx trest + j)"
      if "i < length bp" "valid_index (s1 # srest') idx" "0 \<le> j" "j < ?isz" for i idx j
    proof -
      from that(2) obtain i1 idx' where idx: "idx = i1 # idx'" and i1: "0 \<le> i1" "i1 < s1"
        and v': "valid_index srest' idx'"
        by (auto simp: valid_index_def list_all2_Cons2)
      let ?i' = "i * nat s1 + nat i1"
      have n1: "nat i1 < nat s1" using i1 by simp
      have "Suc i \<le> length bp" using that(1) by simp
      then have "Suc i * nat s1 \<le> length bp * nat s1" by (rule mult_le_mono1)
      moreover have "?i' < Suc i * nat s1" using n1 by simp
      ultimately have "?i' < length bp * nat s1" by (rule less_le_trans [rotated])
      then have lt: "?i' < length ?nbp"
        by (simp only: NumpyArray_contiguous_next_64_length)
      have nth: "?nbp ! ?i' = bp ! i + i1 * t1"
        using NumpyArray_contiguous_next_64_nth [OF that(1) n1, of t1] i1
        by simp
      have ii: "int ?i' = int i * s1 + i1" using i1 by simp
      have "ptr out' (int ?i' * ?P + index_offset idx' (packed_strides ?isz srest') + j) =
            ptr v (byteoffset v + ?nbp ! ?i' + index_offset idx' trest' + j)"
        by (rule odata [OF lt v' that(3,4)])
      then show ?thesis
        unfolding nth ii idx tr by (simp add: algebra_simps)
    qed
    show ?thesis
      unfolding eq using Cons.prems data by (simp add: algebra_simps)
  qed
qed

lemma NumpyArray_contiguous_init_64_nth:
  "i < nat skip \<Longrightarrow> NumpyArray_contiguous_init_64 skip stride ! i = int i * stride"
  by (simp add: NumpyArray_contiguous_init_64_def)

lemma NumpyArray_contiguous_init_64_length:
  "length (NumpyArray_contiguous_init_64 skip stride) = nat skip"
  by (simp add: NumpyArray_contiguous_init_64_def)

lemma iscontiguous_scalar: "shape v = [] \<Longrightarrow> iscontiguous v"
  by (simp add: iscontiguous_def ndim_def)

lemma contiguous_correct:
  assumes wf: "length (shape v) = length (strides v)"
  shows "\<exists>c. contiguous v = Inr c \<and>
     shape c = shape v \<and>
     strides c = packed_strides (itemsize v) (shape v) \<and>
     itemsize c = itemsize v \<and> identities c = identities v \<and>
     parameters c = parameters v \<and> format c = format v \<and> dtype c = dtype v \<and>
     ptr_lib c = cpu_kernels \<and>
     (\<not> iscontiguous v \<longrightarrow> byteoffset c = 0) \<and>
     (\<forall>idx j. valid_index (shape v) idx \<longrightarrow> 0 \<le> j \<longrightarrow> j < itemsize v \<longrightarrow>
        ptr c (byteoffset c + index_offset idx (strides c) + j) =
        ptr v (byteoffset v + index_offset idx (strides v) + j))"
proof (cases "iscontiguous v")
  case True
  then have "strides v = packed_strides (itemsize v) (shape v)"
    using iscontiguous_iff [OF wf] by simp
  then show ?thesis
    using True wf by (simp add: contiguous_def NumpyArray_new_def)
next
  case False
  then have "shape v \<noteq> []" using iscontiguous_scalar by blast
  then obtain s0 srest t0 trest where sh: "shape v = s0 # srest" and st: "strides v = t0 # trest"
    and len: "length srest = length trest"
    using wf by (cases "shape v"; cases "strides v") auto
  let ?bp = "NumpyArray_contiguous_init_64 s0 t0"
  from contiguous_next_correct [OF sh st len, of ?bp]
  obtain c where c: "contiguous_next v ?bp = Inr c" and csh: "shape c = shape v"
    and cst: "strides c = packed_strides (itemsize v) (shape v)"
    and coff: "byteoffset c = 0" and cisz: "itemsize c = itemsize v"
    and rest: "identities c = identities v" "parameters c = parameters v"
      "format c = format v" "dtype c = dtype v" "ptr_lib c = cpu_kernels"
    and cdata: "\<And>i idx j. i < length ?bp \<Longrightarrow> valid_index srest idx \<Longrightarrow> 0 \<le> j \<Longrightarrow>
        j < itemsize v \<Longrightarrow>
        ptr c (int i * (itemsize v * prod_list srest) +
                 index_offset idx (packed_strides (itemsize v) srest) + j) =
        ptr v (byteoffset v + ?bp ! i + index_offset idx trest + j)"
    by blast
  have eq: "contiguous v = Inr c"
    using False sh st c by (simp add: contiguous_def)
  have data: "ptr c (byteoffset c + index_offset idx (strides c) + j) =
        ptr v (byteoffset v + index_offset idx (strides v) + j)"
    if "valid_index (shape v) idx" "0 \<le> j" "j < itemsize v" for idx j
  proof -
    from that(1) sh obtain i0 idx' where idx: "idx = i0 # idx'" and i0: "0 \<le> i0" "i0 < s0"
      and v': "valid_index srest idx'"
      by (auto simp: valid_index_def list_all2_Cons2)
    have lt: "nat i0 < length ?bp"
      using i0 by (simp add: NumpyArray_contiguous_init_64_length)
    have nth: "?bp ! nat i0 = i0 * t0"
      using i0 by (simp add: NumpyArray_contiguous_init_64_nth)
    from cdata [OF lt v' that(2,3)] i0
    show ?thesis
      unfolding nth idx by (simp add: coff cst sh st algebra_simps)
  qed
  show ?thesis
    using eq csh cst coff cisz rest data by simp
qed

lemma element_at_related:
  assumes "shape c = shape v" and "identities c = identities v"
    and "length (strides v) = length (shape v)" and "length (strides c) = length (shape c)"
    and "valid_index (shape v) idx"
  shows "rel_sum (=)
           (\<lambda>s s'. ptr s = ptr v \<and> byteoffset s = byteoffset v + index_offset idx (strides v) \<and>
                    itemsize s = itemsize v \<and>
                    ptr s' = ptr c \<and> byteoffset s' = byteoffset c + index_offset idx (strides c) \<and>
                    itemsize s' = itemsize c)
           (element_at v idx) (element_at c idx)"
  using assms
proof (induction idx arbitrary: v c)
  case Nil
  then show ?case by simp
next
  case (Cons i idx)
  from Cons.prems(5) obtain n ns where sh: "shape v = n # ns" and i: "0 \<le> i" "i < n"
    and v': "valid_index ns idx"
    by (auto simp: valid_index_def list_all2_Cons1)
  from Cons.prems sh obtain t ts u us where st: "strides v = t # ts" "strides c = u # us"
    and len: "length ts = length ns" "length us = length ns"
    by (cases "strides v"; cases "strides c") auto
  show ?case
  proof (cases "case identities v of None \<Rightarrow> False | Some ids \<Rightarrow> i \<ge> int (length ids)")
    case True
    then have "getitem_at v i = Inl (handled_error ''index out of range'')"
      and "getitem_at c i = Inl (handled_error ''index out of range'')"
      using sh st i Cons.prems(1,2)
      by (auto simp: getitem_at_def getitem_at_nowrap_def split: option.splits)
    then show ?thesis by simp
  next
    case False
    define ids' where "ids' = (case identities v of None \<Rightarrow> None
        | Some ids \<Rightarrow> Some (Identities_getitem_range_nowrap ids i (i + 1)))"
    define w where "w = \<lparr>identities = ids', parameters = parameters v, ptr = ptr v,
        shape = ns, strides = ts, byteoffset = byteoffset v + t * i, itemsize = itemsize v,
        format = format v, dtype = dtype v, ptr_lib = cpu_kernels\<rparr>"
    define w' where "w' = \<lparr>identities = ids', parameters = parameters c, ptr = ptr c,
        shape = ns, strides = us, byteoffset = byteoffset c + u * i, itemsize = itemsize c,
        format = format c, dtype = dtype c, ptr_lib = cpu_kernels\<rparr>"
    have gv: "getitem_at v i = Inr w"
      using False sh st i len
      by (auto simp: getitem_at_def getitem_at_nowrap_def NumpyArray_new_def w_def ids'_def
               split: option.splits)
    have gc: "getitem_at c i = Inr w'"
      using False sh st i len Cons.prems(1,2)
      by (auto simp: getitem_at_def getitem_at_nowrap_def NumpyArray_new_def w'_def ids'_def
               split: option.splits)
    have "rel_sum (=)
           (\<lambda>s s'. ptr s = ptr w \<and> byteoffset s = byteoffset w + index_offset idx (strides w) \<and>
                    itemsize s = itemsize w \<and>
                    ptr s' = ptr w' \<and> byteoffset s' = byteoffset w' + index_offset idx (strides w') \<and>
                    itemsize s' = itemsize w')
           (element_at w idx) (element_at w' idx)"
      by (rule Cons.IH) (use v' len in \<open>simp_all add: w_def w'_def\<close>)
    then show ?thesis
      unfolding element_at.simps gv gc
      by (cases "element_at w idx"; cases "element_at w' idx")
         (auto simp: w_def w'_def st algebra_simps)
  qed
qed

text \<open>
  Claim C3. For every view whose strides are as many as its dimensions (every view the
  constructor returns), \<^verbatim>\<open>contiguous\<close> returns a view \<open>c\<close>; normalizing \<open>c\<close> again
  returns \<open>c\<close> itself, buffer contents included; and every element, read byte by byte at
  any index of the shape, is the same through the view and through \<open>c\<close>.
\<close>

theorem contiguous_idempotent_preserves_elements:
  assumes "length (shape v) = length (strides v)"
  shows "\<exists>c. contiguous v = Inr c \<and> contiguous c = Inr c \<and> iscontiguous c \<and>
           (\<forall>idx. valid_index (shape v) idx \<longrightarrow> read_element c idx = read_element v idx)"
proof -
  from contiguous_correct [OF assms]
  obtain c where c: "contiguous v = Inr c" and csh: "shape c = shape v"
    and cst: "strides c = packed_strides (itemsize v) (shape v)"
    and cisz: "itemsize c = itemsize v" and cids: "identities c = identities v"
    and clib: "ptr_lib c = cpu_kernels"
    and cdata: "\<And>idx j. valid_index (shape v) idx \<Longrightarrow> 0 \<le> j \<Longrightarrow> j < itemsize v \<Longrightarrow>
        ptr c (byteoffset c + index_offset idx (strides c) + j) =
        ptr v (byteoffset v + index_offset idx (strides v) + j)"
    by blast
  have wfc: "length (shape c) = length (strides c)"
    by (simp add: csh cst packed_strides_length)
  have cc: "iscontiguous c"
    using iscontiguous_iff [OF wfc] by (simp add: csh cst cisz)
  have "\<lparr>identities = identities c, parameters = parameters c, ptr = ptr c, shape = shape c,
         strides = strides c, byteoffset = byteoffset c, itemsize = itemsize c,
         format = format c, dtype = dtype c, ptr_lib = cpu_kernels\<rparr> = c"
    using clib by (cases c) simp
  then have idem: "contiguous c = Inr c"
    using cc wfc by (simp add: contiguous_def NumpyArray_new_def)
  have reads: "read_element c idx = read_element v idx" if vi: "valid_index (shape v) idx" for idx
  proof -
    have rel: "rel_sum (=)
           (\<lambda>s s'. ptr s = ptr v \<and> byteoffset s = byteoffset v + index_offset idx (strides v) \<and>
                    itemsize s = itemsize v \<and>
                    ptr s' = ptr c \<and> byteoffset s' = byteoffset c + index_offset idx (strides c) \<and>
                    itemsize s' = itemsize c)
           (element_at v idx) (element_at c idx)"
      by (rule element_at_related) (use csh cids assms wfc vi in simp_all)
    show ?thesis
    proof (cases "element_at v idx")
      case (Inl e)
      with rel show ?thesis
        by (cases "element_at c idx") (simp_all add: read_element_def)
    next
      case (Inr s)
      with rel obtain s' where s': "element_at c idx = Inr s'"
        and f: "ptr s = ptr v" "byteoffset s = byteoffset v + index_offset idx (strides v)"
          "itemsize s = itemsize v" "ptr s' = ptr c"
          "byteoffset s' = byteoffset c + index_offset idx (strides c)" "itemsize s' = itemsize c"
        by (cases "element_at c idx") simp_all
      have "getbyte s' (int k) = getbyte s (int k)" if "k < nat (itemsize v)" for k
        using cdata [OF vi, of "int k"] that by (simp add: getbyte_def f)
      then show ?thesis
        by (simp add: read_element_def Inr s' f cisz)
    qed
  qed
  from c idem cc reads show ?thesis by blast
qed

theorem contiguous_idempotent_preserves_elements_witness:
  "\<exists>c. contiguous example_strided = Inr c \<and> contiguous c = Inr c \<and> iscontiguous c \<and>
       \<not> iscontiguous example_strided \<and>
       read_element c [1, 2] = read_element example_strided [1, 2] \<and>
       read_element example_strided [1, 2] = Inr [120, 121, 122, 123, 124, 125, 126, 127]"
proof -
  have wf: "length (shape example_strided) = length (strides example_strided)"
    by (simp add: example_strided_def)
  have vi: "valid_index (shape example_strided) [1, 2]"
    by (simp add: example_strided_def valid_index_def)
  have nc: "\<not> iscontiguous example_strided"
    by (simp add: example_strided_def iscontiguous_def ndim_def numeral_2_eq_2)
  have rd: "read_element example_strided [1, 2] = Inr [120, 121, 122, 123, 124, 125, 126, 127]"
    by (simp add: read_element_def getitem_at_def getitem_at_nowrap_def NumpyArray_new_def
          example_strided_def getbyte_def upt_rec)
  from contiguous_idempotent_preserves_elements [OF wf] vi nc rd
  show ?thesis by blast
qed

subsection \<open>Byte offsets of new buffers\<close>

lemma contiguous_next_byteoffset:
  "contiguous_next v bytepos = Inr out \<Longrightarrow> byteoffset out = 0"
proof (induction v bytepos arbitrary: out rule: contiguous_next.induct)
  case (1 v bytepos)
  show ?case
  proof (cases "iscontiguous v")
    case True
    with "1.prems" show ?thesis
      by (subst (asm) contiguous_next.simps)
         (auto simp: NumpyArray_new_def split: if_splits list.splits)
  next
    case nc: False
    show ?thesis
    proof (cases "length (shape v) = 1")
      case True
      with nc "1.prems" show ?thesis
        by (subst (asm) contiguous_next.simps)
           (auto simp: NumpyArray_new_def split: if_splits)
    next
      case n1: False
      from "1.prems" nc n1 have body:
        "(case (flatten_shape (shape v), flatten_strides (strides v)) of
           (Inr fshape, Inr fstrides) \<Rightarrow>
             (case NumpyArray_new (identities v) (parameters v) (ptr v) fshape fstrides
                     (byteoffset v) (itemsize v) (format v) (dtype v) cpu_kernels of
                Inl e \<Rightarrow> Inl e
              | Inr next \<Rightarrow>
                  (case (shape v, strides v) of
                     (_ # shape1 # _, _ # stride1 # _) \<Rightarrow>
                       (case contiguous_next next
                               (NumpyArray_contiguous_next_64 bytepos (int (length bytepos))
                                  shape1 stride1) of
                          Inl e \<Rightarrow> Inl e
                        | Inr out \<Rightarrow>
                            (case strides out of
                               [] \<Rightarrow> Inl vector_out_of_range
                             | ostride0 # _ \<Rightarrow>
                                 NumpyArray_new (identities out) (parameters out) (ptr out)
                                   (shape v) (shape1 * ostride0 # strides out)
                                   (byteoffset out) (itemsize v) (format v) (dtype v)
                                   cpu_kernels))
                   | _ \<Rightarrow> Inl vector_out_of_range))
         | (Inl e, _) \<Rightarrow> Inl e
         | (_, Inl e) \<Rightarrow> Inl e) = Inr out"
        by (subst (asm) contiguous_next.simps) (simp only: if_False)
      obtain fshape where fs: "flatten_shape (shape v) = Inr fshape"
        using body by (cases "flatten_shape (shape v)") simp_all
      obtain fstrides where ft: "flatten_strides (strides v) = Inr fstrides"
        using body fs by (cases "flatten_strides (strides v)") simp_all
      obtain nxt where nx: "NumpyArray_new (identities v) (parameters v) (ptr v) fshape fstrides
                     (byteoffset v) (itemsize v) (format v) (dtype v) cpu_kernels = Inr nxt"
        using body fs ft
        by (cases "NumpyArray_new (identities v) (parameters v) (ptr v) fshape fstrides
                     (byteoffset v) (itemsize v) (format v) (dtype v) cpu_kernels") simp_all
      obtain s0 shape1 srest where sh: "shape v = s0 # shape1 # srest"
        using fs n1 by (cases "shape v" rule: flatten_shape.cases) simp_all
      obtain t0 stride1 trest where st: "strides v = t0 # stride1 # trest"
        using body fs ft nx sh by (cases "strides v" rule: flatten_strides.cases) auto
      obtain out' where rec: "contiguous_next nxt
                      (NumpyArray_contiguous_next_64 bytepos (int (length bytepos)) shape1 stride1)
                    = Inr out'"
        using body fs ft nx sh st
        by (cases "contiguous_next nxt
                      (NumpyArray_contiguous_next_64 bytepos (int (length bytepos)) shape1 stride1)")
           auto
      obtain o0 orest where os: "strides out' = o0 # orest"
        using body fs ft nx sh st rec by (cases "strides out'") auto
      have res: "NumpyArray_new (identities out') (parameters out') (ptr out') (shape v)
                      (shape1 * o0 # strides out') (byteoffset out') (itemsize v) (format v)
                      (dtype v) cpu_kernels = Inr out"
        using body fs ft nx sh st rec os by auto
      have "byteoffset out' = 0"
        using "1.IH" [OF nc n1 _ fs ft nx _ _ _ _ _ rec] sh st
        by simp
      with res show ?thesis
        by (auto simp: NumpyArray_new_def split: if_splits)
    qed
  qed
qed
lemma contiguous_byteoffset:
  "\<not> iscontiguous v \<Longrightarrow> contiguous v = Inr out \<Longrightarrow> byteoffset out = 0"
  by (auto simp: contiguous_def split: list.splits prod.splits dest: contiguous_next_byteoffset)

lemma carry_byteoffset:
  "carry v carry_index allow_lazy = Inr out \<Longrightarrow> byteoffset out = 0"
  by (auto simp: carry_def NumpyArray_new_def split: list.splits prod.splits sum.splits if_splits)

lemma merge_bytes_result:
  "merge_bytes K v w = Inr r \<Longrightarrow>
   byteoffset r = 0 \<and> dtype r = dtype v \<and> shape r = [length_np v + length_np w]"
  by (auto simp: merge_bytes_def NumpyArray_new_def split: sum.splits if_splits)

lemma merge_numpy_byteoffset:
  "merge_numpy K v cs w = Inr r \<Longrightarrow> byteoffset r = 0"
  unfolding merge_numpy_def
  by (auto simp: NumpyArray_new_def split: sum.splits if_splits list.splits prod.splits)

lemma merge_leaf_byteoffset:
  "merge_leaf K v other = Inr (Returned (NumpyArrayC r)) \<Longrightarrow> byteoffset r = 0"
  unfolding merge_leaf_def
  by (auto split: sum.splits if_splits option.splits Content.splits
           dest: merge_bytes_result merge_numpy_byteoffset)

lemma merge_numpy_operand_byteoffset:
  "merge K v (NumpyArrayC w) = Inr (Returned (NumpyArrayC r)) \<Longrightarrow> byteoffset r = 0"
  by (auto split: if_splits dest: merge_leaf_byteoffset)

lemma reduce_next_byteoffset:
  "reduce_next reducer v negaxis starts parents outlength mask' keepdims = Inr (Returned c) \<Longrightarrow>
   \<exists>out. unwrapped c = Some out \<and> byteoffset out = 0"
proof (induction reducer v negaxis starts parents outlength mask' keepdims
       rule: reduce_next.induct)
  case (1 reducer v negaxis starts parents outlength mask' keepdims)
  show ?case
  proof (cases "shape v \<noteq> [] \<and> (length (shape v) \<noteq> 1 \<or> \<not> iscontiguous v)")
    case True
    then obtain w where "toRegularArray v = Inr (NumpyArrayC w)"
      and "reduce_next reducer w negaxis starts parents outlength mask' keepdims =
             Inr (Returned c)"
      using "1.prems"
      by (subst (asm) reduce_next.simps) (auto split: sum.splits Content.splits)
    then show ?thesis
      using "1.IH" True by blast
  next
    case False
    then show ?thesis
      using "1.prems"
      by (subst (asm) reduce_next.simps)
         (auto simp: NumpyArray_new_def Let_def split: sum.splits if_splits)
  qed
qed

lemma sort_next_byteoffset:
  "sort_next K v negaxis starts parents outlength ascending stable' keepdims = Inr (Returned c) \<Longrightarrow>
   \<exists>out. unwrapped c = Some out \<and> byteoffset out = 0"
proof (induction K v negaxis starts parents outlength ascending stable' keepdims
       rule: sort_next.induct)
  case (1 K v negaxis starts parents outlength ascending stable' keepdims)
  show ?case
  proof (cases "shape v \<noteq> [] \<and> (length (shape v) \<noteq> 1 \<or> \<not> iscontiguous v)")
    case True
    then obtain w where "toRegularArray v = Inr (NumpyArrayC w)"
      and "sort_next K w negaxis starts parents outlength ascending stable' keepdims =
             Inr (Returned c)"
      using "1.prems"
      by (subst (asm) sort_next.simps) (auto split: sum.splits Content.splits)
    then show ?thesis
      using "1.IH" True by blast
  next
    case False
    then show ?thesis
      using "1.prems"
      by (subst (asm) sort_next.simps)
         (auto simp: NumpyArray_new_def Let_def split: sum.splits if_splits)
  qed
qed

lemma toRegularArray_one_dimensional:
  assumes "shape v = [n]" and "strides v = [t]"
  shows "\<exists>w. toRegularArray v = Inr (NumpyArrayC w) \<and> shape w = [n] \<and>
           strides w = [itemsize v] \<and> itemsize w = itemsize v \<and> dtype w = dtype v \<and>
           parameters w = parameters v \<and> format w = format v \<and>
           (\<not> iscontiguous v \<longrightarrow> byteoffset w = 0)"
proof -
  have wf: "length (shape v) = length (strides v)"
    using assms by simp
  from contiguous_correct [OF wf] obtain c where c: "contiguous v = Inr c"
    and "itemsize c = itemsize v" and "dtype c = dtype v" and "format c = format v"
    and "\<not> iscontiguous v \<longrightarrow> byteoffset c = 0"
    by blast
  then show ?thesis
    using assms
    by (simp add: toRegularArray_def isscalar_def ndim_def NumpyArray_new_def)
qed

lemma reduce_next_contiguous_returns:
  assumes "length (shape v) = 1" and "iscontiguous v"
    and "dtype v \<in> set supported_dtypes" and "0 < itemsize v"
  shows "\<exists>c. reduce_next reducer v negaxis starts parents outlength mask' keepdims =
           Inr (Returned c)"
proof -
  have "shape v \<noteq> []"
    using assms(1) by auto
  then show ?thesis
    using assms
    by (subst reduce_next.simps) (simp add: int64_div_positive NumpyArray_new_def Let_def)
qed

lemma reduce_next_one_dimensional_returns:
  assumes "shape v = [n]" and "strides v = [t]"
    and "dtype v \<in> set supported_dtypes" and "0 < itemsize v"
  shows "\<exists>c. reduce_next reducer v negaxis starts parents outlength mask' keepdims =
           Inr (Returned c)"
proof (cases "iscontiguous v")
  case True
  then show ?thesis
    using assms by (intro reduce_next_contiguous_returns) simp_all
next
  case False
  from toRegularArray_one_dimensional [OF assms(1,2)] obtain w
    where w: "toRegularArray v = Inr (NumpyArrayC w)" and sw: "shape w = [n]"
      and tw: "strides w = [itemsize v]" and iw: "itemsize w = itemsize v"
      and dw: "dtype w = dtype v"
    by blast
  have "iscontiguous w"
    using sw tw iw by (simp add: iscontiguous_def ndim_def)
  then have "\<exists>c. reduce_next reducer w negaxis starts parents outlength mask' keepdims =
           Inr (Returned c)"
    using sw iw dw assms(3,4) by (intro reduce_next_contiguous_returns) simp_all
  then show ?thesis
    using False w assms(1) by (subst reduce_next.simps) simp
qed

lemma sort_next_contiguous_returns:
  assumes "length (shape v) = 1" and "iscontiguous v"
    and "length (shape v) = length (strides v)"
    and "dtype v \<in> set supported_dtypes" and "0 < itemsize v"
    and "keepdims \<longrightarrow> starts \<noteq> []"
  shows "\<exists>c. sort_next K v negaxis starts parents outlength ascending stable' keepdims =
           Inr (Returned c)"
proof -
  have "shape v \<noteq> []"
    using assms(1) by auto
  then show ?thesis
    using assms
    by (subst sort_next.simps)
       (simp add: int64_div_positive NumpyArray_new_def Let_def)
qed

lemma sort_next_one_dimensional_returns:
  assumes "shape v = [n]" and "strides v = [t]"
    and "dtype v \<in> set supported_dtypes" and "0 < itemsize v"
    and "keepdims \<longrightarrow> starts \<noteq> []"
  shows "\<exists>c. sort_next K v negaxis starts parents outlength ascending stable' keepdims =
           Inr (Returned c)"
proof (cases "iscontiguous v")
  case True
  then show ?thesis
    using assms by (intro sort_next_contiguous_returns) simp_all
next
  case False
  from toRegularArray_one_dimensional [OF assms(1,2)] obtain w
    where w: "toRegularArray v = Inr (NumpyArrayC w)" and sw: "shape w = [n]"
      and tw: "strides w = [itemsize v]" and iw: "itemsize w = itemsize v"
      and dw: "dtype w = dtype v"
    by blast
  have "iscontiguous w"
    using sw tw iw by (simp add: iscontiguous_def ndim_def)
  then have "\<exists>c. sort_next K w negaxis starts parents outlength ascending stable' keepdims =
           Inr (Returned c)"
    using sw tw iw dw assms(3,4,5) by (intro sort_next_contiguous_returns) simp_all
  then show ?thesis
    using False w assms(1) by (subst sort_next.simps) simp
qed

text \<open>
  Claim C9. The view that \<^verbatim>\<open>carry\<close> returns, the view that \<^verbatim>\<open>contiguous\<close> returns for a
  view that is not contiguous, the leaf array that \<^verbatim>\<open>merge\<close> with another leaf array
  returns, and the leaf array inside what \<^verbatim>\<open>reduce_next\<close> and \<^verbatim>\<open>sort_next\<close> return
  all have byte offset \<open>0\<close>. On a view of one dimension with a supported element type
  and a positive item size, contiguous or not, \<^verbatim>\<open>reduce_next\<close> and \<^verbatim>\<open>sort_next\<close> do
  return such an array (\<^verbatim>\<open>sort_next\<close> with \<open>keepdims\<close> when \<open>starts\<close> is not empty).
\<close>

theorem fresh_buffers_have_byteoffset_zero:
  "(\<forall>out. carry v carry_index allow_lazy = Inr out \<longrightarrow> byteoffset out = 0) \<and>
   (\<forall>out. \<not> iscontiguous v \<and> contiguous v = Inr out \<longrightarrow> byteoffset out = 0) \<and>
   (\<forall>out. merge K v (NumpyArrayC w) = Inr (Returned (NumpyArrayC out)) \<longrightarrow> byteoffset out = 0) \<and>
   (\<forall>c. reduce_next reducer v negaxis starts parents outlength mask' keepdims =
          Inr (Returned c) \<longrightarrow>
        (\<exists>out. unwrapped c = Some out \<and> byteoffset out = 0)) \<and>
   (\<forall>c. sort_next K v negaxis starts parents outlength ascending stable' keepdims =
          Inr (Returned c) \<longrightarrow>
        (\<exists>out. unwrapped c = Some out \<and> byteoffset out = 0)) \<and>
   (shape v = [n] \<and> strides v = [t] \<and> dtype v \<in> set supported_dtypes \<and> 0 < itemsize v \<longrightarrow>
      (\<exists>c out. reduce_next reducer v negaxis starts parents outlength mask' keepdims =
                  Inr (Returned c) \<and>
                unwrapped c = Some out \<and> byteoffset out = 0)) \<and>
   (shape v = [n] \<and> strides v = [t] \<and> dtype v \<in> set supported_dtypes \<and> 0 < itemsize v \<and>
    (keepdims \<longrightarrow> starts \<noteq> []) \<longrightarrow>
      (\<exists>c out. sort_next K v negaxis starts parents outlength ascending stable' keepdims =
                  Inr (Returned c) \<and>
                unwrapped c = Some out \<and> byteoffset out = 0))"
proof (intro conjI allI impI)
  fix out assume "carry v carry_index allow_lazy = Inr out"
  then show "byteoffset out = 0" by (rule carry_byteoffset)
next
  fix out assume "\<not> iscontiguous v \<and> contiguous v = Inr out"
  then show "byteoffset out = 0" using contiguous_byteoffset by blast
next
  fix out assume "merge K v (NumpyArrayC w) = Inr (Returned (NumpyArrayC out))"
  then show "byteoffset out = 0" by (rule merge_numpy_operand_byteoffset)
next
  fix c assume "reduce_next reducer v negaxis starts parents outlength mask' keepdims =
          Inr (Returned c)"
  then show "\<exists>out. unwrapped c = Some out \<and> byteoffset out = 0"
    by (rule reduce_next_byteoffset)
next
  fix c assume "sort_next K v negaxis starts parents outlength ascending stable' keepdims =
          Inr (Returned c)"
  then show "\<exists>out. unwrapped c = Some out \<and> byteoffset out = 0"
    by (rule sort_next_byteoffset)
next
  assume a: "shape v = [n] \<and> strides v = [t] \<and> dtype v \<in> set supported_dtypes \<and>
             0 < itemsize v"
  then obtain c where
    c: "reduce_next reducer v negaxis starts parents outlength mask' keepdims =
          Inr (Returned c)"
    using reduce_next_one_dimensional_returns [of v n t reducer negaxis starts parents
        outlength mask' keepdims]
    by blast
  from reduce_next_byteoffset [OF c] c
  show "\<exists>c out. reduce_next reducer v negaxis starts parents outlength mask' keepdims =
                  Inr (Returned c) \<and>
                unwrapped c = Some out \<and> byteoffset out = 0"
    by blast
next
  assume a: "shape v = [n] \<and> strides v = [t] \<and> dtype v \<in> set supported_dtypes \<and>
             0 < itemsize v \<and> (keepdims \<longrightarrow> starts \<noteq> [])"
  then obtain c where
    c: "sort_next K v negaxis starts parents outlength ascending stable' keepdims =
          Inr (Returned c)"
    using sort_next_one_dimensional_returns [of v n t keepdims starts K negaxis parents
        outlength ascending stable']
    by blast
  from sort_next_byteoffset [OF c] c
  show "\<exists>c out. sort_next K v negaxis starts parents outlength ascending stable' keepdims =
                  Inr (Returned c) \<and>
                unwrapped c = Some out \<and> byteoffset out = 0"
    by blast
qed

theorem fresh_buffers_have_byteoffset_zero_witness:
  "\<exists>o1 o2 o3 c4 o4 c5 o5.
     carry example_vector [2, 0] False = Inr o1 \<and> byteoffset o1 = 0 \<and>
     \<not> iscontiguous example_vector \<and> contiguous example_vector = Inr o2 \<and> byteoffset o2 = 0 \<and>
     merge example_kernels example_vector (NumpyArrayC example_packed) =
       Inr (Returned (NumpyArrayC o3)) \<and> byteoffset o3 = 0 \<and>
     reduce_next example_shift_reducer example_vector (- 1) [0] [0, 0, 0] 1 False True =
       Inr (Returned c4) \<and> unwrapped c4 = Some o4 \<and> byteoffset o4 = 0 \<and>
     sort_next example_kernels example_vector (- 1) [0] [0, 0, 0] 1 True True True =
       Inr (Returned c5) \<and> unwrapped c5 = Some o5 \<and> byteoffset o5 = 0"
proof -
  note t = fresh_buffers_have_byteoffset_zero
             [where v = example_vector and carry_index = "[2, 0]" and allow_lazy = False
                and K = example_kernels and w = example_packed
                and reducer = example_shift_reducer and negaxis = "- 1" and starts = "[0]"
                and parents = "[0, 0, 0]" and outlength = 1 and mask' = False
                and keepdims = True and ascending = True and stable' = True and n = 3
                and t = 16]
  have nc: "\<not> iscontiguous example_vector"
    by (simp add: example_vector_def iscontiguous_def ndim_def)
  have pc: "iscontiguous example_packed"
    by (simp add: example_packed_def iscontiguous_def ndim_def)
  have "\<exists>o1. carry example_vector [2, 0] False = Inr o1"
    by (simp add: carry_def NumpyArray_new_def example_vector_def)
  then obtain o1 where o1: "carry example_vector [2, 0] False = Inr o1" ..
  have wf: "length (shape example_vector) = length (strides example_vector)"
    by (simp add: example_vector_def)
  from contiguous_correct [OF wf] obtain o2 where o2: "contiguous example_vector = Inr o2"
    and o2i: "itemsize o2 = 8" and o2b: "byteoffset o2 = 0"
    using nc by (auto simp: example_vector_def)
  have cp: "contiguous example_packed = Inr example_packed"
    using pc by (simp add: contiguous_def NumpyArray_new_def example_packed_def)
  have md: "merge_dtype int64 int64 = Inr int64"
    by (simp add: merge_dtype_def)
  have mf: "merge_fill example_kernels int64 int64 int64 p sp so sl op' oo ol = Inr p"
    for p sp so sl op' oo ol
    by (simp add: merge_fill_def merge_fill_switch_def read_error_def handle_error_def
          example_kernels_def)
  have "\<exists>o3. merge_numpy example_kernels example_vector o2 example_packed = Inr o3"
    unfolding merge_numpy_def
    using cp o2i o2b
    by (simp add: ndim_def example_vector_def example_packed_def md mf int64_div_def
          NumpyArray_new_def)
  then have "\<exists>o3. merge example_kernels example_vector (NumpyArrayC example_packed) =
          Inr (Returned (NumpyArrayC o3))"
    using o2
    by (auto simp: parameters_equal_def merge_leaf_def parameter_equals_def ndim_def
          example_vector_def example_packed_def)
  then obtain o3 where o3: "merge example_kernels example_vector (NumpyArrayC example_packed) =
          Inr (Returned (NumpyArrayC o3))" ..
  have h: "shape example_vector = [3] \<and> strides example_vector = [16] \<and>
           dtype example_vector \<in> set supported_dtypes \<and> 0 < itemsize example_vector"
    by (simp add: example_vector_def supported_dtypes_def)
  from t [THEN conjunct2, THEN conjunct2, THEN conjunct2, THEN conjunct2, THEN conjunct2,
          THEN conjunct1, THEN mp, OF h]
  obtain c4 o4 where
    r4: "reduce_next example_shift_reducer example_vector (- 1) [0] [0, 0, 0] 1 False True =
           Inr (Returned c4)"
    and u4: "unwrapped c4 = Some o4" and b4: "byteoffset o4 = 0"
    by blast
  have h': "shape example_vector = [3] \<and> strides example_vector = [16] \<and>
            dtype example_vector \<in> set supported_dtypes \<and> 0 < itemsize example_vector \<and>
            (True \<longrightarrow> [0 :: int] \<noteq> [])"
    using h by simp
  from t [THEN conjunct2, THEN conjunct2, THEN conjunct2, THEN conjunct2, THEN conjunct2,
          THEN conjunct2, THEN mp, OF h']
  obtain c5 o5 where
    r5: "sort_next example_kernels example_vector (- 1) [0] [0, 0, 0] 1 True True True =
           Inr (Returned c5)"
    and u5: "unwrapped c5 = Some o5" and b5: "byteoffset o5 = 0"
    by blast
  have "byteoffset o1 = 0" using t o1 by blast
  moreover have "byteoffset o3 = 0" using t o3 by blast
  ultimately show ?thesis using o1 nc o2 o2b o3 r4 u4 b4 r5 u5 b5 by blast
qed

subsection \<open>Merging scalars and merging in either order\<close>

lemma parameters_equal_commute: "parameters_equal ps qs = parameters_equal qs ps"
  by (auto simp: parameters_equal_def)

text \<open>
  Claim C8, as stated: \<^verbatim>\<open>merge\<close> of a scalar with any other array raises. The test for
  an \<^verbatim>\<open>EmptyArray\<close> stands before the scalar check, in \<^verbatim>\<open>merge\<close> as in
  \<^verbatim>\<open>mergeable\<close>, so a scalar merged with an empty array is returned as a shallow copy.
\<close>

theorem scalar_merge_counterexample:
  "isscalar example_scalar \<and>
   (\<exists>c. merge example_kernels example_scalar (EmptyArray []) = Inr (Returned (NumpyArrayC c)))"
  by (simp add: isscalar_def ndim_def example_scalar_def parameters_equal_def shallow_copy_def
        NumpyArray_new_def)

text \<open>
  Claim C8, amended. On a scalar view \<^verbatim>\<open>getitem\<close> raises for every slice
  (\<^verbatim>\<open>std::runtime_error\<close>, the ShapeError of the specification). \<^verbatim>\<open>merge\<close> raises
  \<^verbatim>\<open>cannot merge Numpy scalars\<close> (\<^verbatim>\<open>std::invalid_argument\<close>) when the other array has
  equal parameters and is a leaf array, a regular array or a node of no class that
  \<^verbatim>\<open>merge\<close> tests for; merged with an \<^verbatim>\<open>EmptyArray\<close> of equal parameters, the scalar
  comes back as a shallow copy.
\<close>

theorem scalar_getitem_merge:
  assumes "isscalar v"
  shows "getitem v wh = Inl (runtime_error ''cannot get-item on a scalar'') \<and>
    (\<forall>w. parameters_equal (parameters v) (parameters w) \<longrightarrow>
       merge K v (NumpyArrayC w) = Inl (invalid_argument ''cannot merge Numpy scalars'')) \<and>
    (\<forall>ps c n. parameters_equal (parameters v) ps \<longrightarrow>
       merge K v (RegularArray ps c n) = Inl (invalid_argument ''cannot merge Numpy scalars'')) \<and>
    (\<forall>ps. parameters_equal (parameters v) ps \<longrightarrow>
       merge K v (Sibling OtherContent ps) =
         Inl (invalid_argument ''cannot merge Numpy scalars'')) \<and>
    (\<forall>ps. parameters_equal (parameters v) ps \<and> strides v = [] \<longrightarrow>
       (\<exists>c. merge K v (EmptyArray ps) = Inr (Returned (NumpyArrayC c)) \<and>
            shape c = [] \<and> ptr c = ptr v \<and> byteoffset c = byteoffset v))"
  using assms
  by (simp add: getitem_def isscalar_def ndim_def merge_leaf_def shallow_copy_def
        NumpyArray_new_def)

theorem scalar_getitem_merge_witness:
  "isscalar example_scalar \<and>
   getitem example_scalar [SliceAt 0] = Inl (runtime_error ''cannot get-item on a scalar'') \<and>
   merge example_kernels example_scalar (NumpyArrayC example_vector) =
     Inl (invalid_argument ''cannot merge Numpy scalars'') \<and>
   merge example_kernels example_scalar (RegularArray [] (NumpyArrayC example_vector) 1) =
     Inl (invalid_argument ''cannot merge Numpy scalars'') \<and>
   merge example_kernels example_scalar (Sibling OtherContent []) =
     Inl (invalid_argument ''cannot merge Numpy scalars'') \<and>
   (\<exists>c. merge example_kernels example_scalar (EmptyArray []) = Inr (Returned (NumpyArrayC c)) \<and>
        shape c = [])"
proof -
  have s: "isscalar example_scalar"
    by (simp add: isscalar_def ndim_def example_scalar_def)
  note t = scalar_getitem_merge [OF s, of "[SliceAt 0]" example_kernels]
  have pv: "parameters_equal (parameters example_scalar) (parameters example_vector)"
    by (simp add: parameters_equal_def example_scalar_def example_vector_def)
  have pe: "parameters_equal (parameters example_scalar) []"
    by (simp add: parameters_equal_def example_scalar_def)
  have st: "strides example_scalar = []"
    by (simp add: example_scalar_def)
  have 1: "getitem example_scalar [SliceAt 0] = Inl (runtime_error ''cannot get-item on a scalar'')"
    by (rule t [THEN conjunct1])
  have 2: "merge example_kernels example_scalar (NumpyArrayC example_vector) =
     Inl (invalid_argument ''cannot merge Numpy scalars'')"
    by (rule t [THEN conjunct2, THEN conjunct1, THEN spec, THEN mp, OF pv])
  have 3: "merge example_kernels example_scalar (RegularArray [] (NumpyArrayC example_vector) 1) =
     Inl (invalid_argument ''cannot merge Numpy scalars'')"
    by (rule t [THEN conjunct2, THEN conjunct2, THEN conjunct1, THEN spec, THEN spec, THEN spec,
                THEN mp, OF pe])
  have 4: "merge example_kernels example_scalar (Sibling OtherContent []) =
     Inl (invalid_argument ''cannot merge Numpy scalars'')"
    by (rule t [THEN conjunct2, THEN conjunct2, THEN conjunct2, THEN conjunct1, THEN spec,
                THEN mp, OF pe])
  have "\<exists>c. merge example_kernels example_scalar (EmptyArray []) = Inr (Returned (NumpyArrayC c)) \<and>
            shape c = [] \<and> ptr c = ptr example_scalar \<and> byteoffset c = byteoffset example_scalar"
    by (rule t [THEN conjunct2, THEN conjunct2, THEN conjunct2, THEN conjunct2, THEN spec,
                THEN mp]) (use pe st in simp)
  then have 5: "\<exists>c. merge example_kernels example_scalar (EmptyArray []) =
                      Inr (Returned (NumpyArrayC c)) \<and> shape c = []"
    by blast
  from s 1 2 3 4 5 show ?thesis by blast
qed

lemma merge_fill_unlabelled_operand:
  "merge_fill K int64 NOT_PRIMITIVE int64 p s1 s2 s3 o1 o2 o3 = Inl uninitialized_read \<and>
   merge_fill K int64 int64 NOT_PRIMITIVE p s1 s2 s3 o1 o2 o3 =
     Inr (NumpyArray_fill K int64 int64 p 0 s1 s2 s3)"
  by (simp add: merge_fill_def merge_fill_switch_def read_error_def handle_error_def)

lemma merge_dtype_has_case_labels:
  assumes "merge_dtype x y = Inr dt" and "x \<noteq> NOT_PRIMITIVE" and "y \<noteq> NOT_PRIMITIVE"
    and "dt \<in> set supported_dtypes" and "dt \<noteq> boolean"
    and "x \<noteq> float16" and "y \<noteq> float16"
  shows "x \<in> set (merge_fill_cases dt) \<and> y \<in> set (merge_fill_cases dt)"
  using assms
  by (cases x; cases y) (simp_all add: merge_dtype_def supported_dtypes_def)

lemma merge_fill_labelled:
  assumes "x \<in> set (merge_fill_cases dt)" and "y \<in> set (merge_fill_cases dt)"
  shows "\<exists>p. merge_fill K dt x y p0 s1 s2 s3 o1 o2 o3 = Inr p"
proof -
  have "dt \<in> set supported_dtypes" and "dt \<noteq> boolean"
    using assms(1) by (cases dt; simp add: supported_dtypes_def)+
  moreover have "x \<noteq> float16" and "y \<noteq> float16"
    using assms by (cases dt; auto)+
  ultimately show ?thesis
    using assms
    by (auto simp: merge_fill_def merge_fill_switch_def read_error_def handle_error_def
          supported_dtypes_def)
qed

lemma merge_fill_succeeds_swapped:
  assumes "merge_dtype x y = Inr dt" and "x \<noteq> NOT_PRIMITIVE" and "y \<noteq> NOT_PRIMITIVE"
    and "merge_fill K dt x y p s1 s2 s3 o1 o2 o3 = Inr r"
  shows "\<exists>r'. merge_fill K dt y x p' t1 t2 t3 u1 u2 u3 = Inr r'"
proof (cases "dt = boolean")
  case True
  then show ?thesis
    by (simp add: merge_fill_def)
next
  case False
  have sup: "dt \<in> set supported_dtypes"
    using assms(4) False
    by (cases dt) (simp_all add: merge_fill_def supported_dtypes_def)
  have nx: "x \<noteq> float16"
    using assms(4) sup False
    by (auto simp: merge_fill_def merge_fill_switch_def read_error_def supported_dtypes_def
             split: if_splits)
  have ny: "y \<noteq> float16"
  proof
    assume "y = float16"
    then have "dt = float16 \<or> dt = float32 \<or> dt = float64 \<or> \<not> dt \<in> set supported_dtypes"
      using assms(1,2) by (cases x) (simp_all add: merge_dtype_def supported_dtypes_def)
    then show False
      using assms(4) sup \<open>y = float16\<close>
      by (auto simp: merge_fill_def merge_fill_switch_def read_error_def handle_error_def
               supported_dtypes_def split: if_splits sum.splits)
  qed
  from merge_dtype_has_case_labels [OF assms(1-3) sup False nx ny]
  show ?thesis
    by (intro merge_fill_labelled) simp_all
qed

lemma merge_fill_returns:
  assumes "merge_dtype x y = Inr dt" and "x \<noteq> NOT_PRIMITIVE" and "y \<noteq> NOT_PRIMITIVE"
    and "dt \<in> set supported_dtypes" and "x \<noteq> float16" and "y \<noteq> float16"
  shows "\<exists>p. merge_fill K dt x y p0 s1 s2 s3 o1 o2 o3 = Inr p"
proof (cases "dt = boolean")
  case True
  then show ?thesis
    by (simp add: merge_fill_def)
next
  case False
  from merge_dtype_has_case_labels [OF assms(1-4) False assms(5,6)]
  show ?thesis
    by (intro merge_fill_labelled) simp_all
qed

lemma merge_one_dimensional:
  assumes "shape a = [na]" and "strides a = [ta]" and "shape b = [nb]" and "strides b = [tb]"
    and "parameters_equal (parameters a) (parameters b)"
    and "\<not> ((parameter_equals (parameters a) ''__array__'' ''\"byte\"'' \<or>
              parameter_equals (parameters a) ''__array__'' ''\"char\"'') \<and>
             (parameter_equals (parameters b) ''__array__'' ''\"byte\"'' \<or>
              parameter_equals (parameters b) ''__array__'' ''\"char\"'') \<and>
             itemsize a = 1 \<and> itemsize b = 1)"
  shows "\<exists>ca cb. contiguous a = Inr ca \<and> contiguous b = Inr cb \<and>
     itemsize ca = itemsize a \<and> itemsize cb = itemsize b \<and>
     merge K a (NumpyArrayC b) =
       (case merge_dtype (dtype a) (dtype b) of
          Inl e \<Rightarrow> Inl e
        | Inr dt \<Rightarrow>
            (case (int64_div (byteoffset ca) (itemsize ca),
                   int64_div (byteoffset cb) (itemsize cb)) of
               (Inr self_offset, Inr other_offset) \<Rightarrow>
                 (case merge_fill K dt (dtype a) (dtype b) ptr_alloc (ptr ca) self_offset na
                         (ptr cb) other_offset nb of
                    Inl e \<Rightarrow> Inl e
                  | Inr p \<Rightarrow>
                      Inr (Returned (NumpyArrayC
                        \<lparr>identities = None, parameters = parameters a, ptr = p,
                         shape = [na + nb], strides = [dtype_to_itemsize dt], byteoffset = 0,
                         itemsize = dtype_to_itemsize dt, format = dtype_to_format dt,
                         dtype = dt, ptr_lib = cpu_kernels\<rparr>)))
             | (Inl e, _) \<Rightarrow> Inl e
             | (_, Inl e) \<Rightarrow> Inl e))"
proof -
  have wfa: "length (shape a) = length (strides a)" and wfb: "length (shape b) = length (strides b)"
    using assms by simp_all
  from contiguous_correct [OF wfa] obtain ca where ca: "contiguous a = Inr ca"
    and ia: "itemsize ca = itemsize a" by blast
  from contiguous_correct [OF wfb] obtain cb where cb: "contiguous b = Inr cb"
    and ib: "itemsize cb = itemsize b" by blast
  have leaf: "merge K a (NumpyArrayC b) = merge_leaf K a (NumpyArrayC b)"
    using assms(5) by simp
  have fast: "(if (parameter_equals (parameters a) ''__array__'' ''\"byte\"'' \<or>
                   parameter_equals (parameters a) ''__array__'' ''\"char\"'') \<and>
                  (parameter_equals (Content_parameters (NumpyArrayC b)) ''__array__'' ''\"byte\"'' \<or>
                   parameter_equals (Content_parameters (NumpyArrayC b)) ''__array__'' ''\"char\"'')
               then (case NumpyArrayC b of
                       NumpyArrayC othernumpy \<Rightarrow>
                         if ndim a = 1 \<and> ndim othernumpy = 1 \<and>
                            itemsize a = 1 \<and> itemsize othernumpy = 1
                         then Some othernumpy else None
                     | _ \<Rightarrow> None)
               else None) = None"
    using assms(6) by auto
  have numpy: "merge_leaf K a (NumpyArrayC b) =
      (case merge_numpy K a ca b of Inl e \<Rightarrow> Inl e | Inr r \<Rightarrow> Inr (Returned (NumpyArrayC r)))"
    unfolding merge_leaf_def fast using assms(1) ca by (simp add: ndim_def)
  have body: "merge_numpy K a ca b =
       (case merge_dtype (dtype a) (dtype b) of
          Inl e \<Rightarrow> Inl e
        | Inr dt \<Rightarrow>
            (case (int64_div (byteoffset ca) (itemsize ca),
                   int64_div (byteoffset cb) (itemsize cb)) of
               (Inr self_offset, Inr other_offset) \<Rightarrow>
                 (case merge_fill K dt (dtype a) (dtype b) ptr_alloc (ptr ca) self_offset na
                         (ptr cb) other_offset nb of
                    Inl e \<Rightarrow> Inl e
                  | Inr p \<Rightarrow>
                      Inr \<lparr>identities = None, parameters = parameters a, ptr = p,
                         shape = [na + nb], strides = [dtype_to_itemsize dt], byteoffset = 0,
                         itemsize = dtype_to_itemsize dt, format = dtype_to_format dt,
                         dtype = dt, ptr_lib = cpu_kernels\<rparr>)
             | (Inl e, _) \<Rightarrow> Inl e
             | (_, Inl e) \<Rightarrow> Inl e))"
    using assms(1,3) cb
    by (simp add: merge_numpy_def ndim_def NumpyArray_new_def split: sum.splits)
  show ?thesis
    using ca cb ia ib unfolding leaf numpy body
    by (auto split: sum.splits)
qed

text \<open>
  Claim C1, as stated: for every pair of leaf arrays of one dimension the result type of
  \<^verbatim>\<open>merge\<close> does not depend on the order. Two arrays tagged \<^verbatim>\<open>byte\<close> with item size 1
  take the raw-copy path \<^verbatim>\<open>merge_bytes\<close>, which keeps the element type of the left
  operand: an \<open>int8\<close> array merged with a \<open>uint8\<close> array is \<open>int8\<close>, and \<open>uint8\<close> in the
  other order.
\<close>

theorem merge_bytes_order_counterexample:
  "\<exists>r r'. merge example_kernels example_signed_bytes (NumpyArrayC example_unsigned_bytes) =
            Inr (Returned (NumpyArrayC r)) \<and>
          merge example_kernels example_unsigned_bytes (NumpyArrayC example_signed_bytes) =
            Inr (Returned (NumpyArrayC r')) \<and>
          dtype r = int8 \<and> dtype r' = uint8 \<and> dtype r \<noteq> dtype r'"
proof -
  have c1: "iscontiguous example_signed_bytes" and c2: "iscontiguous example_unsigned_bytes"
    by (simp_all add: iscontiguous_def ndim_def example_signed_bytes_def
          example_unsigned_bytes_def)
  have p: "parameters_equal (parameters example_signed_bytes) (parameters example_unsigned_bytes)"
    "parameters_equal (parameters example_unsigned_bytes) (parameters example_signed_bytes)"
    by (simp_all add: parameters_equal_def parameter_equals_def example_signed_bytes_def
          example_unsigned_bytes_def)
  have b: "parameter_equals (parameters example_signed_bytes) ''__array__'' ''\"byte\"''"
    "parameter_equals (parameters example_unsigned_bytes) ''__array__'' ''\"byte\"''"
    by (simp_all add: parameter_equals_def example_signed_bytes_def example_unsigned_bytes_def)
  have m1: "merge_bytes example_kernels example_signed_bytes example_unsigned_bytes =
      Inr \<lparr>identities = None, parameters = parameters example_signed_bytes, ptr = ptr_alloc,
           shape = [5], strides = [1], byteoffset = 0, itemsize = 1, format = ''b'',
           dtype = int8, ptr_lib = cpu_kernels\<rparr>"
    using c1 c2
    by (simp add: merge_bytes_def contiguous_def NumpyArray_new_def length_np_def isscalar_def
          ndim_def example_kernels_def)
       (simp add: example_signed_bytes_def example_unsigned_bytes_def)
  have m2: "merge_bytes example_kernels example_unsigned_bytes example_signed_bytes =
      Inr \<lparr>identities = None, parameters = parameters example_unsigned_bytes, ptr = ptr_alloc,
           shape = [5], strides = [1], byteoffset = 0, itemsize = 1, format = ''B'',
           dtype = uint8, ptr_lib = cpu_kernels\<rparr>"
    using c1 c2
    by (simp add: merge_bytes_def contiguous_def NumpyArray_new_def length_np_def isscalar_def
          ndim_def example_kernels_def)
       (simp add: example_signed_bytes_def example_unsigned_bytes_def)
  have i: "ndim example_signed_bytes = 1" "ndim example_unsigned_bytes = 1"
    "itemsize example_signed_bytes = 1" "itemsize example_unsigned_bytes = 1"
    by (simp_all add: ndim_def example_signed_bytes_def example_unsigned_bytes_def)
  have "merge example_kernels example_signed_bytes (NumpyArrayC example_unsigned_bytes) =
          Inr (Returned (NumpyArrayC \<lparr>identities = None,
            parameters = parameters example_signed_bytes, ptr = ptr_alloc,
            shape = [5], strides = [1], byteoffset = 0, itemsize = 1, format = ''b'',
            dtype = int8, ptr_lib = cpu_kernels\<rparr>))"
    using p b i by (simp add: merge_leaf_def m1)
  moreover have "merge example_kernels example_unsigned_bytes (NumpyArrayC example_signed_bytes) =
          Inr (Returned (NumpyArrayC \<lparr>identities = None,
            parameters = parameters example_unsigned_bytes, ptr = ptr_alloc,
            shape = [5], strides = [1], byteoffset = 0, itemsize = 1, format = ''B'',
            dtype = uint8, ptr_lib = cpu_kernels\<rparr>))"
    using p b i by (simp add: merge_leaf_def m2)
  ultimately show ?thesis by simp
qed

text \<open>
  Claim C1, amended. The promotion rule gives the same type for a pair of element types
  in either order. For two leaf arrays of one dimension whose element types are among
  the sixteen of the promotion table (neither is \<open>NOT_PRIMITIVE\<close>) and that are not
  both tagged \<^verbatim>\<open>byte\<close> or \<^verbatim>\<open>char\<close> with item size 1: whenever \<^verbatim>\<open>merge\<close> of the first
  with the second returns a leaf array, \<^verbatim>\<open>merge\<close> of the second with the first returns
  one too, both have the element type the promotion rule gives, and the leading length
  of each is the sum of the two leading lengths. It returns a leaf array when the
  parameters are equal, the promotion rule gives a boolean, integer, 32-bit or 64-bit
  float type, neither operand is a 16-bit float and both item sizes are positive.
\<close>

theorem merge_dtype_commutes_lengths_add:
  assumes "shape a = [na]" and "strides a = [ta]" and "shape b = [nb]" and "strides b = [tb]"
    and "dtype a \<noteq> NOT_PRIMITIVE" and "dtype b \<noteq> NOT_PRIMITIVE"
    and "\<not> ((parameter_equals (parameters a) ''__array__'' ''\"byte\"'' \<or>
              parameter_equals (parameters a) ''__array__'' ''\"char\"'') \<and>
             (parameter_equals (parameters b) ''__array__'' ''\"byte\"'' \<or>
              parameter_equals (parameters b) ''__array__'' ''\"char\"'') \<and>
             itemsize a = 1 \<and> itemsize b = 1)"
  shows "(\<forall>x y. merge_dtype x y = merge_dtype y x) \<and>
    (\<forall>r. merge K a (NumpyArrayC b) = Inr (Returned (NumpyArrayC r)) \<longrightarrow>
       (\<exists>r'. merge K b (NumpyArrayC a) = Inr (Returned (NumpyArrayC r')) \<and>
             dtype r' = dtype r \<and>
             merge_dtype (dtype a) (dtype b) = Inr (dtype r) \<and>
             length_np r = length_np a + length_np b \<and>
             length_np r' = length_np b + length_np a)) \<and>
    (\<forall>dt. parameters_equal (parameters a) (parameters b) \<and>
          merge_dtype (dtype a) (dtype b) = Inr dt \<and> dt \<in> set supported_dtypes \<and>
          dtype a \<noteq> float16 \<and> dtype b \<noteq> float16 \<and> 0 < itemsize a \<and> 0 < itemsize b \<longrightarrow>
       (\<exists>r. merge K a (NumpyArrayC b) = Inr (Returned (NumpyArrayC r))))"
proof (intro conjI allI impI)
  fix x y show "merge_dtype x y = merge_dtype y x" by (rule merge_dtype_commute)
next
  fix dt
  assume h: "parameters_equal (parameters a) (parameters b) \<and>
          merge_dtype (dtype a) (dtype b) = Inr dt \<and> dt \<in> set supported_dtypes \<and>
          dtype a \<noteq> float16 \<and> dtype b \<noteq> float16 \<and> 0 < itemsize a \<and> 0 < itemsize b"
  then have pe: "parameters_equal (parameters a) (parameters b)"
    and dt: "merge_dtype (dtype a) (dtype b) = Inr dt" and sup: "dt \<in> set supported_dtypes"
    and nh: "dtype a \<noteq> float16" "dtype b \<noteq> float16"
    and pos: "0 < itemsize a" "0 < itemsize b"
    by simp_all
  from merge_one_dimensional [OF assms(1-4) pe assms(7), of K]
  obtain ca cb where "contiguous a = Inr ca" and "contiguous b = Inr cb"
    and ia: "itemsize ca = itemsize a" and ib: "itemsize cb = itemsize b"
    and ab: "merge K a (NumpyArrayC b) =
       (case merge_dtype (dtype a) (dtype b) of
          Inl e \<Rightarrow> Inl e
        | Inr dt \<Rightarrow>
            (case (int64_div (byteoffset ca) (itemsize ca),
                   int64_div (byteoffset cb) (itemsize cb)) of
               (Inr self_offset, Inr other_offset) \<Rightarrow>
                 (case merge_fill K dt (dtype a) (dtype b) ptr_alloc (ptr ca) self_offset na
                         (ptr cb) other_offset nb of
                    Inl e \<Rightarrow> Inl e
                  | Inr p \<Rightarrow>
                      Inr (Returned (NumpyArrayC
                        \<lparr>identities = None, parameters = parameters a, ptr = p,
                         shape = [na + nb], strides = [dtype_to_itemsize dt], byteoffset = 0,
                         itemsize = dtype_to_itemsize dt, format = dtype_to_format dt,
                         dtype = dt, ptr_lib = cpu_kernels\<rparr>)))
             | (Inl e, _) \<Rightarrow> Inl e
             | (_, Inl e) \<Rightarrow> Inl e))"
    by (elim exE conjE) (rule that)
  obtain so oo where so: "int64_div (byteoffset ca) (itemsize ca) = Inr so"
    and oo: "int64_div (byteoffset cb) (itemsize cb) = Inr oo"
    using pos ia ib by (simp add: int64_div_positive)
  from merge_fill_returns [OF dt assms(5,6) sup nh]
  obtain p where "merge_fill K dt (dtype a) (dtype b) ptr_alloc (ptr ca) so na (ptr cb) oo nb =
                    Inr p"
    by blast
  then show "\<exists>r. merge K a (NumpyArrayC b) = Inr (Returned (NumpyArrayC r))"
    unfolding ab dt so oo by simp
next
  fix r assume m: "merge K a (NumpyArrayC b) = Inr (Returned (NumpyArrayC r))"
  have pe: "parameters_equal (parameters a) (parameters b)"
    using m by (auto split: if_splits)
  then have pe': "parameters_equal (parameters b) (parameters a)"
    by (simp add: parameters_equal_commute)
  have nf': "\<not> ((parameter_equals (parameters b) ''__array__'' ''\"byte\"'' \<or>
              parameter_equals (parameters b) ''__array__'' ''\"char\"'') \<and>
             (parameter_equals (parameters a) ''__array__'' ''\"byte\"'' \<or>
              parameter_equals (parameters a) ''__array__'' ''\"char\"'') \<and>
             itemsize b = 1 \<and> itemsize a = 1)"
    using assms(7) by blast
  from merge_one_dimensional [OF assms(1-4) pe assms(7), of K]
  obtain ca cb where ca: "contiguous a = Inr ca" and cb: "contiguous b = Inr cb"
    and ab: "merge K a (NumpyArrayC b) =
       (case merge_dtype (dtype a) (dtype b) of
          Inl e \<Rightarrow> Inl e
        | Inr dt \<Rightarrow>
            (case (int64_div (byteoffset ca) (itemsize ca),
                   int64_div (byteoffset cb) (itemsize cb)) of
               (Inr self_offset, Inr other_offset) \<Rightarrow>
                 (case merge_fill K dt (dtype a) (dtype b) ptr_alloc (ptr ca) self_offset na
                         (ptr cb) other_offset nb of
                    Inl e \<Rightarrow> Inl e
                  | Inr p \<Rightarrow>
                      Inr (Returned (NumpyArrayC
                        \<lparr>identities = None, parameters = parameters a, ptr = p,
                         shape = [na + nb], strides = [dtype_to_itemsize dt], byteoffset = 0,
                         itemsize = dtype_to_itemsize dt, format = dtype_to_format dt,
                         dtype = dt, ptr_lib = cpu_kernels\<rparr>)))
             | (Inl e, _) \<Rightarrow> Inl e
             | (_, Inl e) \<Rightarrow> Inl e))"
    by (elim exE conjE) (rule that)
  from merge_one_dimensional [OF assms(3,4) assms(1,2) pe' nf', of K]
  obtain cb' ca' where cb': "contiguous b = Inr cb'" and ca': "contiguous a = Inr ca'"
    and ba: "merge K b (NumpyArrayC a) =
       (case merge_dtype (dtype b) (dtype a) of
          Inl e \<Rightarrow> Inl e
        | Inr dt \<Rightarrow>
            (case (int64_div (byteoffset cb') (itemsize cb'),
                   int64_div (byteoffset ca') (itemsize ca')) of
               (Inr self_offset, Inr other_offset) \<Rightarrow>
                 (case merge_fill K dt (dtype b) (dtype a) ptr_alloc (ptr cb') self_offset nb
                         (ptr ca') other_offset na of
                    Inl e \<Rightarrow> Inl e
                  | Inr p \<Rightarrow>
                      Inr (Returned (NumpyArrayC
                        \<lparr>identities = None, parameters = parameters b, ptr = p,
                         shape = [nb + na], strides = [dtype_to_itemsize dt], byteoffset = 0,
                         itemsize = dtype_to_itemsize dt, format = dtype_to_format dt,
                         dtype = dt, ptr_lib = cpu_kernels\<rparr>)))
             | (Inl e, _) \<Rightarrow> Inl e
             | (_, Inl e) \<Rightarrow> Inl e))"
    by (elim exE conjE) (rule that)
  have same: "ca' = ca" "cb' = cb"
    using ca ca' cb cb' by simp_all
  from m ab obtain dt so oo p where dt: "merge_dtype (dtype a) (dtype b) = Inr dt"
    and so: "int64_div (byteoffset ca) (itemsize ca) = Inr so"
    and oo: "int64_div (byteoffset cb) (itemsize cb) = Inr oo"
    and fill: "merge_fill K dt (dtype a) (dtype b) ptr_alloc (ptr ca) so na (ptr cb) oo nb =
                 Inr p"
    and r: "r = \<lparr>identities = None, parameters = parameters a, ptr = p,
                    shape = [na + nb], strides = [dtype_to_itemsize dt], byteoffset = 0,
                    itemsize = dtype_to_itemsize dt, format = dtype_to_format dt, dtype = dt,
                    ptr_lib = cpu_kernels\<rparr>"
    by (auto split: sum.splits)
  have dt': "merge_dtype (dtype b) (dtype a) = Inr dt"
    using dt merge_dtype_commute by simp
  from merge_fill_succeeds_swapped [OF dt assms(5,6) fill]
  obtain p' where fill': "merge_fill K dt (dtype b) (dtype a) ptr_alloc (ptr cb) oo nb
                            (ptr ca) so na = Inr p'"
    by blast
  let ?r' = "\<lparr>identities = None, parameters = parameters b, ptr = p',
                    shape = [nb + na], strides = [dtype_to_itemsize dt], byteoffset = 0,
                    itemsize = dtype_to_itemsize dt, format = dtype_to_format dt, dtype = dt,
                    ptr_lib = cpu_kernels\<rparr>"
  have "merge K b (NumpyArrayC a) = Inr (Returned (NumpyArrayC ?r'))"
    unfolding ba dt' same so oo using fill' by simp
  moreover have "dtype ?r' = dtype r" by (simp add: r)
  moreover have "merge_dtype (dtype a) (dtype b) = Inr (dtype r)" by (simp add: r dt)
  moreover have "length_np r = length_np a + length_np b"
    using assms(1,3) by (simp add: r length_np_def isscalar_def ndim_def)
  moreover have "length_np ?r' = length_np b + length_np a"
    using assms(1,3) by (simp add: length_np_def isscalar_def ndim_def)
  ultimately show "\<exists>r'. merge K b (NumpyArrayC a) = Inr (Returned (NumpyArrayC r')) \<and>
             dtype r' = dtype r \<and>
             merge_dtype (dtype a) (dtype b) = Inr (dtype r) \<and>
             length_np r = length_np a + length_np b \<and>
             length_np r' = length_np b + length_np a"
    by blast
qed

theorem merge_dtype_commutes_lengths_add_witness:
  "\<exists>r r'. merge example_kernels example_int8 (NumpyArrayC example_float32) =
            Inr (Returned (NumpyArrayC r)) \<and>
          merge example_kernels example_float32 (NumpyArrayC example_int8) =
            Inr (Returned (NumpyArrayC r')) \<and>
          dtype r = float32 \<and> dtype r' = float32 \<and> length_np r = 5 \<and> length_np r' = 5 \<and>
          merge_dtype int8 float32 = merge_dtype float32 int8"
proof -
  have a: "shape example_int8 = [3]" "strides example_int8 = [1]"
    and b: "shape example_float32 = [2]" "strides example_float32 = [4]"
    by (simp_all add: example_int8_def example_float32_def)
  have np: "dtype example_int8 \<noteq> NOT_PRIMITIVE" "dtype example_float32 \<noteq> NOT_PRIMITIVE"
    by (simp_all add: example_int8_def example_float32_def)
  have nf: "\<not> ((parameter_equals (parameters example_int8) ''__array__'' ''\"byte\"'' \<or>
              parameter_equals (parameters example_int8) ''__array__'' ''\"char\"'') \<and>
             (parameter_equals (parameters example_float32) ''__array__'' ''\"byte\"'' \<or>
              parameter_equals (parameters example_float32) ''__array__'' ''\"char\"'') \<and>
             itemsize example_int8 = 1 \<and> itemsize example_float32 = 1)"
    by (simp add: example_float32_def)
  have h: "parameters_equal (parameters example_int8) (parameters example_float32) \<and>
          merge_dtype (dtype example_int8) (dtype example_float32) = Inr float32 \<and>
          float32 \<in> set supported_dtypes \<and>
          dtype example_int8 \<noteq> float16 \<and> dtype example_float32 \<noteq> float16 \<and>
          0 < itemsize example_int8 \<and> 0 < itemsize example_float32"
    by (simp add: parameters_equal_def merge_dtype_def supported_dtypes_def example_int8_def
          example_float32_def)
  note t = merge_dtype_commutes_lengths_add [OF a b np nf, of example_kernels]
  from t [THEN conjunct2, THEN conjunct2, THEN spec, THEN mp, OF h]
  obtain r where r: "merge example_kernels example_int8 (NumpyArrayC example_float32) =
            Inr (Returned (NumpyArrayC r))" ..
  from t [THEN conjunct2, THEN conjunct1, THEN spec, THEN mp, OF r]
  obtain r' where r': "merge example_kernels example_float32 (NumpyArrayC example_int8) =
            Inr (Returned (NumpyArrayC r'))"
    and e: "dtype r' = dtype r"
      "merge_dtype (dtype example_int8) (dtype example_float32) = Inr (dtype r)"
      "length_np r = length_np example_int8 + length_np example_float32"
      "length_np r' = length_np example_float32 + length_np example_int8"
    by blast
  have l: "length_np example_int8 = 3" "length_np example_float32 = 2"
    by (simp_all add: length_np_def isscalar_def ndim_def example_int8_def example_float32_def)
  have "dtype r = float32" using e(2) h by simp
  moreover have "merge_dtype int8 float32 = merge_dtype float32 int8"
    using t [THEN conjunct1] by blast
  ultimately show ?thesis using r r' e l by auto
qed

subsection \<open>Ranges resolved by strides\<close>

lemma div_round_up_ceiling:
  fixes numer denom :: int
  assumes "0 < denom"
  shows "numer div denom + (if numer mod denom \<noteq> 0 then 1 else 0) =
         \<lceil>real_of_int numer / real_of_int denom\<rceil>"
proof -
  have "\<lceil>real_of_int numer / real_of_int denom\<rceil> = - (- numer div denom)"
    by (rule ceiling_divide_eq_div)
  also have "\<dots> = numer div denom + (if numer mod denom \<noteq> 0 then 1 else 0)"
    using assms by (simp add: zdiv_zminus1_eq_if)
  finally show ?thesis by simp
qed

lemma regularize_rangeslice_clamped:
  assumes "0 \<le> len"
    and "regularize_rangeslice start stop posstep hasstart hasstop len = (a, b)"
  shows "(posstep \<longrightarrow> 0 \<le> a \<and> a \<le> b \<and> b \<le> len) \<and>
         (\<not> posstep \<longrightarrow> - 1 \<le> b \<and> b \<le> a \<and> a \<le> len - 1)"
  using assms
  by (auto simp: regularize_rangeslice_def Let_def split: if_splits)

lemma wrap64_id: "- (2 ^ 63) \<le> x \<Longrightarrow> x < 2 ^ 63 \<Longrightarrow> wrap64 x = x"
  by (simp add: wrap64_def)

lemma int64_abs_id: "- (2 ^ 63) < x \<Longrightarrow> x < 2 ^ 63 \<Longrightarrow> int64_abs x = \<bar>x\<bar>"
  by (simp add: int64_abs_def wrap64_def)

lemma range_lenhead:
  fixes numer step :: int
  assumes "0 \<le> numer" and "numer < 2 ^ 63" and "step \<noteq> 0"
    and "- (2 ^ 63) \<le> step" and "step < 2 ^ 63"
  shows "\<exists>d m. int64_div numer (int64_abs step) = Inr d \<and>
               int64_mod numer (int64_abs step) = Inr m \<and>
               wrap64 (d + (if m \<noteq> 0 then 1 else 0)) =
                 \<lceil>real_of_int numer / real_of_int \<bar>step\<bar>\<rceil>"
proof (cases "step = - (2 ^ 63)")
  case True
  have ab: "int64_abs step = - (2 ^ 63)"
    by (simp add: True int64_abs_def wrap64_def)
  have d: "int64_div numer (int64_abs step) = Inr 0"
    using assms(1,2) unfolding ab by (simp add: int64_div_def)
  have m: "int64_mod numer (int64_abs step) = Inr numer"
    using assms(1,2) unfolding ab by (simp add: int64_mod_def)
  have "\<lceil>real_of_int numer / real_of_int \<bar>step\<bar>\<rceil> = (if numer \<noteq> 0 then 1 else 0)"
  proof (cases "numer = 0")
    case True
    then show ?thesis by simp
  next
    case False
    then have "0 < real_of_int numer / real_of_int \<bar>step\<bar>"
      using assms(1,3) by simp
    moreover have "real_of_int numer / real_of_int \<bar>step\<bar> \<le> 1"
      using assms(2) by (simp add: True)
    ultimately have "\<lceil>real_of_int numer / real_of_int \<bar>step\<bar>\<rceil> = 1"
      by (simp add: ceiling_eq_iff)
    then show ?thesis using False by simp
  qed
  then show ?thesis
    using d m by (simp add: wrap64_def)
next
  case False
  then have a: "int64_abs step = \<bar>step\<bar>"
    using assms(4,5) by (intro int64_abs_id) simp_all
  have pos: "0 < \<bar>step\<bar>"
    using assms(3) by simp
  have q: "sgn numer * sgn \<bar>step\<bar> * (\<bar>numer\<bar> div \<bar>\<bar>step\<bar>\<bar>) = numer div \<bar>step\<bar>"
    using assms(1) pos by (cases "numer = 0") simp_all
  have nt: "\<not> (\<bar>step\<bar> = 0 \<or> (numer = - (2 ^ 63) \<and> \<bar>step\<bar> = - 1))"
    using pos by linarith
  have d: "int64_div numer (int64_abs step) = Inr (numer div \<bar>step\<bar>)"
    unfolding a int64_div_def using nt q by (simp only: if_False)
  have m: "int64_mod numer (int64_abs step) = Inr (numer mod \<bar>step\<bar>)"
    unfolding a int64_mod_def using nt q by (simp only: if_False minus_mult_div_eq_mod)
  have "0 \<le> numer div \<bar>step\<bar>"
    using assms(1) pos by (simp add: pos_imp_zdiv_nonneg_iff)
  moreover have "numer div \<bar>step\<bar> + (if numer mod \<bar>step\<bar> \<noteq> 0 then 1 else 0) \<le> numer"
  proof -
    define d where "d = numer div \<bar>step\<bar>"
    define m where "m = numer mod \<bar>step\<bar>"
    have e: "numer = \<bar>step\<bar> * d + m"
      by (simp add: d_def m_def)
    have "1 * d \<le> \<bar>step\<bar> * d"
      using pos \<open>0 \<le> numer div \<bar>step\<bar>\<close> unfolding d_def
      by (intro mult_right_mono) simp_all
    moreover have "0 \<le> m"
      using pos by (simp add: m_def)
    ultimately have "d + (if m \<noteq> 0 then 1 else 0) \<le> numer"
      using e by (cases "m = 0") simp_all
    then show ?thesis
      by (simp add: d_def m_def)
  qed
  ultimately have "wrap64 (numer div \<bar>step\<bar> + (if numer mod \<bar>step\<bar> \<noteq> 0 then 1 else 0)) =
      numer div \<bar>step\<bar> + (if numer mod \<bar>step\<bar> \<noteq> 0 then 1 else 0)"
    using assms(2) by (intro wrap64_id) (simp_all split: if_splits)
  then show ?thesis
    using d m div_round_up_ceiling [OF pos, of numer] by simp
qed

lemma getitem_bystrides_range_result:
  assumes r: "getitem_bystrides v (Some (SliceRange start0 stop0 step0)) tail len = Inr out"
    and sh: "shape v = s0 # E # srest"
    and rg: "regularize_rangeslice start0 stop0 (0 < (if step0 = kSliceNone then 1 else step0))
               (start0 \<noteq> kSliceNone) (stop0 \<noteq> kSliceNone) E = (start, stop)"
  shows "\<exists>t0 t1 trest oshape ostrides d m.
     strides v = t0 # t1 # trest \<and>
     int64_div (int64_abs (wrap64 (start - stop)))
       (int64_abs (if step0 = kSliceNone then 1 else step0)) = Inr d \<and>
     int64_mod (int64_abs (wrap64 (start - stop)))
       (int64_abs (if step0 = kSliceNone then 1 else step0)) = Inr m \<and>
     shape out = len # wrap64 (d + (if m \<noteq> 0 then 1 else 0)) # oshape \<and>
     strides out = t0 # wrap64 (t1 * (if step0 = kSliceNone then 1 else step0)) # ostrides"
proof -
  have nd: "\<not> ndim v < 2" using sh by (simp add: ndim_def)
  obtain t0 t1 trest where st: "strides v = t0 # t1 # trest"
    using r sh nd
    by (cases "strides v" rule: flatten_shape.cases)
       (simp_all add: getitem_bystrides.simps)
  let ?step = "if step0 = kSliceNone then 1 else step0"
  let ?numer = "int64_abs (wrap64 (start - stop))"
  let ?denom = "int64_abs ?step"
  obtain d where d: "int64_div ?numer ?denom = Inr d"
    using r nd sh st rg
    by (cases "int64_div ?numer ?denom") (simp_all add: getitem_bystrides.simps Let_def)
  obtain m where m: "int64_mod ?numer ?denom = Inr m"
    using r nd sh st rg d
    by (cases "int64_mod ?numer ?denom") (simp_all add: getitem_bystrides.simps Let_def)
  let ?lenhead = "wrap64 (d + (if m \<noteq> 0 then 1 else 0))"
  let ?off = "wrap64 (byteoffset v + wrap64 (start * t1))"
  have body: "(case NumpyArray_new (identities v) (parameters v) (ptr v) (s0 * E # srest)
                     (t1 # trest) ?off (itemsize v) (format v) (dtype v) cpu_kernels of
                Inl e \<Rightarrow> Inl e
              | Inr nxt \<Rightarrow>
                  (case getitem_bystrides nxt (Slice_head tail) (Slice_tail tail)
                          (wrap64 (len * ?lenhead)) of
                     Inl e \<Rightarrow> Inl e
                   | Inr out \<Rightarrow>
                       (case (shape out, strides out) of
                          (_ # oshape, _ # ostrides) \<Rightarrow>
                            NumpyArray_new (identities out) (parameters out)
                              (ptr out) (len # ?lenhead # oshape)
                              (t0 # wrap64 (t1 * ?step) # ostrides)
                              (byteoffset out) (itemsize v) (format v) (dtype v)
                              cpu_kernels
                        | _ \<Rightarrow> Inl vector_out_of_range))) = Inr out"
    using r nd sh st rg d m
    by (simp add: getitem_bystrides.simps Let_def)
  then obtain nxt where nx: "NumpyArray_new (identities v) (parameters v) (ptr v) (s0 * E # srest)
                     (t1 # trest) ?off (itemsize v) (format v) (dtype v) cpu_kernels = Inr nxt"
    by (cases "NumpyArray_new (identities v) (parameters v) (ptr v) (s0 * E # srest)
                     (t1 # trest) ?off (itemsize v) (format v) (dtype v) cpu_kernels") simp_all
  from body nx obtain out' where o': "getitem_bystrides nxt (Slice_head tail) (Slice_tail tail)
                          (wrap64 (len * ?lenhead)) = Inr out'"
    by (cases "getitem_bystrides nxt (Slice_head tail) (Slice_tail tail)
                 (wrap64 (len * ?lenhead))")
       simp_all
  from body nx o' obtain x oshape y ostrides where os: "shape out' = x # oshape"
    "strides out' = y # ostrides"
    by (cases "shape out'"; cases "strides out'") simp_all
  from body nx o' os have "NumpyArray_new (identities out') (parameters out')
                              (ptr out') (len # ?lenhead # oshape)
                              (t0 # wrap64 (t1 * ?step) # ostrides)
                              (byteoffset out') (itemsize v) (format v) (dtype v)
                              cpu_kernels = Inr out"
    by simp
  then have "shape out = len # ?lenhead # oshape"
    "strides out = t0 # wrap64 (t1 * ?step) # ostrides"
    by (auto simp: NumpyArray_new_def split: if_splits)
  with st d m show ?thesis by blast
qed

lemma getitem_bystrides_range_returns:
  assumes sh: "shape v = s0 # E # srest" and wf: "length (strides v) = length (shape v)"
    and d: "int64_div (int64_abs (wrap64 (start - stop)))
              (int64_abs (if step0 = kSliceNone then 1 else step0)) = Inr d"
    and m: "int64_mod (int64_abs (wrap64 (start - stop)))
              (int64_abs (if step0 = kSliceNone then 1 else step0)) = Inr m"
    and rg: "regularize_rangeslice start0 stop0 (0 < (if step0 = kSliceNone then 1 else step0))
               (start0 \<noteq> kSliceNone) (stop0 \<noteq> kSliceNone) E = (start, stop)"
  shows "\<exists>out. getitem_bystrides v (Some (SliceRange start0 stop0 step0)) [] len = Inr out"
proof -
  obtain t0 t1 trest where st: "strides v = t0 # t1 # trest" and len: "length trest = length srest"
    using sh wf by (cases "strides v" rule: flatten_shape.cases) auto
  have nd: "\<not> ndim v < 2" using sh by (simp add: ndim_def)
  show ?thesis
    using nd sh st len rg d m
    by (simp add: getitem_bystrides.simps Let_def NumpyArray_new_def Slice_head_def
          Slice_tail_def)
qed

text \<open>
  Claim C4. Let a range with a 64-bit step \<open>step0 \<noteq> 0\<close> (a step that is not given counts
  as \<open>1\<close>) be applied by \<^verbatim>\<open>getitem_bystrides\<close> to the dimension of extent \<open>E\<close> of a
  view, and let \<open>(start, stop)\<close> be its normalized bounds. For a positive step
  \<open>0 \<le> start \<le> stop \<le> E\<close>, for a negative step \<open>- 1 \<le> stop \<le> start \<le> E - 1\<close>. Whenever
  the call returns, the extent it produces for that dimension is
  \<open>\<lceil>\<bar>stop - start\<bar> / \<bar>step\<bar>\<rceil>\<close> and the stride it produces is the 64-bit product of
  the stride of the dimension and the step, which is their product whenever that
  product is a 64-bit value. With nothing after the range in the slice, the call
  returns.
\<close>

theorem getitem_bystrides_range_extent_stride:
  assumes "shape v = s0 # E # srest" and "0 \<le> E" and "E < 2 ^ 63"
    and "step0 \<noteq> 0" and "- (2 ^ 63) \<le> step0" and "step0 < 2 ^ 63"
    and "regularize_rangeslice start0 stop0 (0 < (if step0 = kSliceNone then 1 else step0))
           (start0 \<noteq> kSliceNone) (stop0 \<noteq> kSliceNone) E = (start, stop)"
  shows "(0 < (if step0 = kSliceNone then 1 else step0) \<longrightarrow>
            0 \<le> start \<and> start \<le> stop \<and> stop \<le> E) \<and>
         ((if step0 = kSliceNone then 1 else step0) < 0 \<longrightarrow>
            - 1 \<le> stop \<and> stop \<le> start \<and> start \<le> E - 1) \<and>
         (\<forall>out. getitem_bystrides v (Some (SliceRange start0 stop0 step0)) tail len = Inr out \<longrightarrow>
            shape out ! 1 =
              \<lceil>real_of_int \<bar>stop - start\<bar> /
               real_of_int \<bar>if step0 = kSliceNone then 1 else step0\<bar>\<rceil> \<and>
            strides out ! 1 =
              wrap64 (strides v ! 1 * (if step0 = kSliceNone then 1 else step0)) \<and>
            (- (2 ^ 63) \<le> strides v ! 1 * (if step0 = kSliceNone then 1 else step0) \<and>
             strides v ! 1 * (if step0 = kSliceNone then 1 else step0) < 2 ^ 63 \<longrightarrow>
             strides out ! 1 = strides v ! 1 * (if step0 = kSliceNone then 1 else step0))) \<and>
         (length (strides v) = length (shape v) \<longrightarrow>
            (\<exists>out. getitem_bystrides v (Some (SliceRange start0 stop0 step0)) [] len = Inr out))"
proof -
  let ?step = "if step0 = kSliceNone then 1 else step0"
  note c = regularize_rangeslice_clamped [OF assms(2,7)]
  have nz: "?step \<noteq> 0" and lo: "- (2 ^ 63) \<le> ?step" and hi: "?step < 2 ^ 63"
    using assms(4,5,6) by simp_all
  have c1: "0 \<le> start \<and> start \<le> stop \<and> stop \<le> E" if "0 < ?step"
    using c that by simp
  have c2: "- 1 \<le> stop \<and> stop \<le> start \<and> start \<le> E - 1" if "?step < 0"
  proof -
    from that have "\<not> 0 < ?step" by simp
    then show ?thesis using c by simp
  qed
  have bound: "\<bar>start - stop\<bar> \<le> E"
    using c1 c2 nz by (cases "0 < ?step") auto
  then have w: "wrap64 (start - stop) = start - stop"
    using assms(3) by (intro wrap64_id) (simp_all add: abs_le_iff)
  have a: "int64_abs (wrap64 (start - stop)) = \<bar>start - stop\<bar>"
    unfolding w using bound assms(3) by (intro int64_abs_id) (simp_all add: abs_le_iff)
  have n0: "0 \<le> \<bar>start - stop\<bar>" and n1: "\<bar>start - stop\<bar> < 2 ^ 63"
    using bound assms(3) by simp_all
  from range_lenhead [OF n0 n1 nz lo hi]
  obtain d m where d: "int64_div \<bar>start - stop\<bar> (int64_abs ?step) = Inr d"
    and m: "int64_mod \<bar>start - stop\<bar> (int64_abs ?step) = Inr m"
    and lh: "wrap64 (d + (if m \<noteq> 0 then 1 else 0)) =
               \<lceil>real_of_int \<bar>start - stop\<bar> / real_of_int \<bar>?step\<bar>\<rceil>"
    by blast
  have c3: "shape out ! 1 = \<lceil>real_of_int \<bar>stop - start\<bar> / real_of_int \<bar>?step\<bar>\<rceil> \<and>
            strides out ! 1 = wrap64 (strides v ! 1 * ?step) \<and>
            (- (2 ^ 63) \<le> strides v ! 1 * ?step \<and> strides v ! 1 * ?step < 2 ^ 63 \<longrightarrow>
             strides out ! 1 = strides v ! 1 * ?step)"
    if r: "getitem_bystrides v (Some (SliceRange start0 stop0 step0)) tail len = Inr out"
    for out
  proof -
    from getitem_bystrides_range_result [OF r assms(1,7)]
    obtain t0 t1 trest oshape ostrides d' m' where st: "strides v = t0 # t1 # trest"
      and d': "int64_div (int64_abs (wrap64 (start - stop))) (int64_abs ?step) = Inr d'"
      and m': "int64_mod (int64_abs (wrap64 (start - stop))) (int64_abs ?step) = Inr m'"
      and so: "shape out = len # wrap64 (d' + (if m' \<noteq> 0 then 1 else 0)) # oshape"
      and sto: "strides out = t0 # wrap64 (t1 * ?step) # ostrides"
      by blast
    have "d' = d" and "m' = m"
      using d' m' d m unfolding a by simp_all
    then have "shape out ! 1 = \<lceil>real_of_int \<bar>start - stop\<bar> / real_of_int \<bar>?step\<bar>\<rceil>"
      using so lh by simp
    moreover have "\<bar>start - stop\<bar> = \<bar>stop - start\<bar>"
      by simp
    moreover have "strides out ! 1 = wrap64 (strides v ! 1 * ?step)"
      by (simp add: sto st)
    moreover have "wrap64 (strides v ! 1 * ?step) = strides v ! 1 * ?step"
      if "- (2 ^ 63) \<le> strides v ! 1 * ?step \<and> strides v ! 1 * ?step < 2 ^ 63"
      using that by (intro wrap64_id) simp_all
    ultimately show ?thesis
      by simp
  qed
  have c4: "\<exists>out. getitem_bystrides v (Some (SliceRange start0 stop0 step0)) [] len = Inr out"
    if wf: "length (strides v) = length (shape v)"
    using getitem_bystrides_range_returns [OF assms(1) wf _ _ assms(7), of d m len] d m
    unfolding a by simp
  show ?thesis
    using c1 c2 c3 c4 by blast
qed

theorem getitem_bystrides_range_extent_stride_witness:
  "regularize_rangeslice kSliceNone kSliceNone False False False 3 = (2, - 1) \<and>
   (\<exists>out. getitem_bystrides example_strided (Some (SliceRange kSliceNone kSliceNone (- 2))) [] 1
           = Inr out \<and>
         shape out ! 1 = 2 \<and> strides out ! 1 = - 16) \<and>
   regularize_rangeslice kSliceNone kSliceNone True False False 3 = (0, 3) \<and>
   (\<exists>out. getitem_bystrides example_strided (Some (SliceRange kSliceNone kSliceNone (2 ^ 62)))
             [] 1 = Inr out \<and>
         shape out ! 1 = 1 \<and> strides out ! 1 = 0)"
proof -
  have sh: "shape example_strided = 2 # 3 # []"
    by (simp add: example_strided_def)
  have E: "(0::int) \<le> 3" "(3::int) < 2 ^ 63" by simp_all
  have wf: "length (strides example_strided) = length (shape example_strided)"
    by (simp add: example_strided_def)
  have nz: "(- 2 :: int) \<noteq> 0" "- (2 ^ 63) \<le> (- 2 :: int)" "(- 2 :: int) < 2 ^ 63" by simp_all
  have k: "(- 2 :: int) \<noteq> kSliceNone"
    by (simp add: kSliceNone_def kMaxInt64_def)
  have rg0: "regularize_rangeslice kSliceNone kSliceNone False False False 3 = (2, - 1)"
    by (simp add: regularize_rangeslice_def)
  have rg: "regularize_rangeslice kSliceNone kSliceNone
              (0 < (if (- 2 :: int) = kSliceNone then (1 :: int) else - 2))
              (kSliceNone \<noteq> kSliceNone) (kSliceNone \<noteq> kSliceNone) 3 = (2, - 1)"
    using k rg0 by simp
  note t = getitem_bystrides_range_extent_stride [OF sh E nz rg, of "[]" 1]
  from t [THEN conjunct2, THEN conjunct2, THEN conjunct2, THEN mp, OF wf]
  obtain out where out: "getitem_bystrides example_strided
      (Some (SliceRange kSliceNone kSliceNone (- 2))) [] 1 = Inr out" ..
  note f = t [THEN conjunct2, THEN conjunct2, THEN conjunct1, THEN spec, THEN mp, OF out]
  from f [THEN conjunct1] have 1: "shape out ! 1 = 2"
    using k by simp
  from f [THEN conjunct2, THEN conjunct2] have 2: "strides out ! 1 = - 16"
    using k by (simp add: example_strided_def)
  have nz': "(2 ^ 62 :: int) \<noteq> 0" "- (2 ^ 63) \<le> (2 ^ 62 :: int)" "(2 ^ 62 :: int) < 2 ^ 63"
    by simp_all
  have k': "(2 ^ 62 :: int) \<noteq> kSliceNone"
    by (simp add: kSliceNone_def kMaxInt64_def)
  have rg0': "regularize_rangeslice kSliceNone kSliceNone True False False 3 = (0, 3)"
    by (simp add: regularize_rangeslice_def)
  have rg': "regularize_rangeslice kSliceNone kSliceNone
              (0 < (if (2 ^ 62 :: int) = kSliceNone then (1 :: int) else 2 ^ 62))
              (kSliceNone \<noteq> kSliceNone) (kSliceNone \<noteq> kSliceNone) 3 = (0, 3)"
    using k' rg0' by simp
  note u = getitem_bystrides_range_extent_stride [OF sh E nz' rg', of "[]" 1]
  from u [THEN conjunct2, THEN conjunct2, THEN conjunct2, THEN mp, OF wf]
  obtain out' where out': "getitem_bystrides example_strided
      (Some (SliceRange kSliceNone kSliceNone (2 ^ 62))) [] 1 = Inr out'" ..
  note g = u [THEN conjunct2, THEN conjunct2, THEN conjunct1, THEN spec, THEN mp, OF out']
  from g [THEN conjunct1] have 3: "shape out' ! 1 = 1"
    using k' by (simp add: ceiling_eq_iff)
  from g [THEN conjunct2, THEN conjunct1] have 4: "strides out' ! 1 = 0"
    using k' by (simp add: example_strided_def wrap64_def)
  from out rg0 1 2 out' rg0' 3 4 show ?thesis by blast
qed

end
